(* ===== verification/Prelude.thy ===== *)
theory Prelude
  imports
    Main
    "HOL-Library.Word"
    "HOL-Library.AList"
    "HOL-Library.Multiset"
    "HOL-Library.List_Lexorder"
    "HOL-Library.Char_ord"
begin

text \<open>
  Shared vocabulary of the development: the Go value types the sources use, Go maps as
  association lists, instants and durations, and the generic lemmas the component theories
  share.

  \<^item> \<open>uint64\<close>, \<open>uint32\<close>: words of that width, so \<open>+\<close> wraps as Go's does. A Go \<open>int\<close> that
    only counts entries of an in-memory collection is a \<open>nat\<close> or an \<open>int\<close>.
  \<^item> \<open>gotime\<close>: an instant in nanoseconds since the Unix epoch, UTC (\<^verbatim>\<open>time.Time\<close>); \<open>duration\<close>:
    nanoseconds (\<^verbatim>\<open>time.Duration\<close>). \<open>time_sub\<close> saturates at the 64-bit range as
    \<^verbatim>\<open>Time.Sub\<close> documents.
  \<^item> \<open>gomap\<close>: a Go \<^verbatim>\<open>map\<close>. Its iteration order is the order of the association list; Go leaves
    that order open, so the theorems that depend on an iteration are stated for every list with
    distinct keys.
  \<^item> strings are byte lists and compare bytewise, as Go's do.
\<close>

section \<open>Go scalars\<close>

type_synonym uint64 = "64 word"
type_synonym uint32 = "32 word"
type_synonym bytes = "8 word list"
type_synonym gotime = int
type_synonym duration = int

definition zero_time :: gotime where
  "zero_time = - 62135596800000000000"

definition max_int64 :: int where
  "max_int64 = 9223372036854775807"

definition min_int64 :: int where
  "min_int64 = - 9223372036854775808"

definition time_sub :: "gotime \<Rightarrow> gotime \<Rightarrow> duration" where
  "time_sub t u = max min_int64 (min max_int64 (t - u))"

definition second :: duration where
  "second = 1000000000"

definition minute :: duration where
  "minute = 60 * second"

definition hour :: duration where
  "hour = 60 * minute"

text \<open>Integer division of Go truncates towards zero.\<close>

definition go_div :: "int \<Rightarrow> int \<Rightarrow> int" where
  "go_div a b = sgn a * sgn b * (\<bar>a\<bar> div \<bar>b\<bar>)"

section \<open>Go maps\<close>

type_synonym ('k, 'v) gomap = "('k \<times> 'v) list"

definition gomap_wf :: "('k, 'v) gomap \<Rightarrow> bool" where
  "gomap_wf m \<longleftrightarrow> distinct (map fst m)"

text \<open>Reading a missing key yields the zero value of the element type.\<close>

definition gomap_get :: "'v \<Rightarrow> ('k, 'v) gomap \<Rightarrow> 'k \<Rightarrow> 'v" where
  "gomap_get z m k = (case map_of m k of None \<Rightarrow> z | Some v \<Rightarrow> v)"

definition gomap_count :: "('v \<Rightarrow> bool) \<Rightarrow> ('k, 'v) gomap \<Rightarrow> nat" where
  "gomap_count P m = length (filter (\<lambda>e. P (snd e)) m)"

section \<open>Shared lemmas\<close>

named_theorems gomap_simps \<open>lookups after updates of a Go map\<close>
named_theorems time_defs \<open>units and subtraction of instants\<close>

lemmas [time_defs] = second_def minute_def hour_def time_sub_def max_int64_def min_int64_def

lemmas [gomap_simps] = update_conv' delete_conv'

lemma word_less_Suc: "x + 1 \<noteq> 0 \<Longrightarrow> x < x + (1 :: 'a::len word)"
  by (metis add.commute lessI unatSuc word_less_nat_alt)

lemma sort_Nil_iff: "sort_key f xs = [] \<longleftrightarrow> xs = []"
  by (metis length_0_conv length_sort)

lemma gomap_wf_Nil [simp]: "gomap_wf []"
  by (simp add: gomap_wf_def)

lemma gomap_wf_update [simp]: "gomap_wf m \<Longrightarrow> gomap_wf (AList.update k v m)"
  by (simp add: gomap_wf_def distinct_update)

lemma gomap_wf_delete [simp]: "gomap_wf m \<Longrightarrow> gomap_wf (AList.delete k m)"
  by (simp add: gomap_wf_def distinct_delete)

lemma gomap_wf_Cons [simp]: "gomap_wf ((k, v) # m) \<longleftrightarrow> k \<notin> fst ` set m \<and> gomap_wf m"
  by (auto simp: gomap_wf_def)

lemma gomap_get_update [gomap_simps]:
  "gomap_get z (AList.update k v m) k' = (if k' = k then v else gomap_get z m k')"
  by (simp add: gomap_get_def update_conv')

lemma gomap_get_delete [gomap_simps]:
  "gomap_get z (AList.delete k m) k' = (if k' = k then z else gomap_get z m k')"
  by (simp add: gomap_get_def delete_conv')

lemma gomap_get_Nil [simp]: "gomap_get z [] k = z"
  by (simp add: gomap_get_def)

lemma gomap_mem_iff: "gomap_wf m \<Longrightarrow> (k, v) \<in> set m \<longleftrightarrow> map_of m k = Some v"
  by (auto simp: gomap_wf_def)

lemma gomap_ball_iff:
  "gomap_wf m \<Longrightarrow> (\<forall>e\<in>set m. P (fst e) (snd e)) \<longleftrightarrow> (\<forall>k v. map_of m k = Some v \<longrightarrow> P k v)"
  by (auto simp: gomap_mem_iff [symmetric])

lemma gomap_count_Nil [simp]: "gomap_count P [] = 0"
  by (simp add: gomap_count_def)

lemma gomap_count_Cons [simp]:
  "gomap_count P ((k, v) # m) = (if P v then Suc (gomap_count P m) else gomap_count P m)"
  by (simp add: gomap_count_def)

text \<open>How the number of entries with a property moves under an insertion or a deletion.\<close>

lemma gomap_count_update_new:
  "map_of m k = None \<Longrightarrow>
     gomap_count P (AList.update k v m) = gomap_count P m + (if P v then 1 else 0)"
  by (induction m) (auto split: if_splits)

lemma gomap_count_update_old:
  "gomap_wf m \<Longrightarrow> map_of m k = Some u \<Longrightarrow>
     gomap_count P (AList.update k v m) + (if P u then 1 else 0)
       = gomap_count P m + (if P v then 1 else 0)"
  by (induction m) (auto split: if_splits)

lemma gomap_count_delete_old:
  "gomap_wf m \<Longrightarrow> map_of m k = Some u \<Longrightarrow>
     gomap_count P (AList.delete k m) + (if P u then 1 else 0) = gomap_count P m"
proof (induction m)
  case Nil
  then show ?case by simp
next
  case (Cons e m)
  obtain k' v' where e: "e = (k', v')" by (cases e)
  show ?case
  proof (cases "k' = k")
    case True
    with Cons.prems e have "k \<notin> fst ` set m" by simp
    with True Cons.prems e show ?thesis by (auto simp: AList.delete_simps)
  next
    case False
    with Cons e show ?thesis by (auto simp: AList.delete_simps)
  qed
qed

lemma gomap_count_delete_none:
  "map_of m k = None \<Longrightarrow> gomap_count P (AList.delete k m) = gomap_count P m"
  by (simp add: map_of_eq_None_iff)

lemma gomap_count_pos:
  "gomap_wf m \<Longrightarrow> map_of m k = Some v \<Longrightarrow> P v \<Longrightarrow> 0 < gomap_count P m"
  by (force simp: gomap_count_def filter_empty_conv dest: map_of_SomeD)

end
