(* ===== verification/Container_Heap.thy ===== *)
theory Container_Heap
  imports Prelude
begin

text \<open>
  The array heap of Go's \<^verbatim>\<open>container/heap\<close>, which \<^verbatim>\<open>internal/queue/queue.go\<close> drives through
  \<^verbatim>\<open>heap.Push\<close> and \<^verbatim>\<open>heap.Pop\<close>: \<open>heap_up\<close> and \<open>heap_down\<close> are its two sift loops, with the
  collection's \<^verbatim>\<open>Less\<close> as the parameter \<open>lt\<close>.

  The locale \<open>heap_order\<close> is what \<^verbatim>\<open>container/heap\<close> asks of \<^verbatim>\<open>Less\<close>, a strict weak order. Inside
  it: the sifts restore the heap shape from a heap broken at one index, they permute, and the
  popped element is one that no remaining element precedes.
\<close>

section \<open>Definitions\<close>

definition swap :: "nat \<Rightarrow> nat \<Rightarrow> 'a list \<Rightarrow> 'a list" where
  "swap i j h = h[j := h ! i, i := h ! j]"

definition parent :: "nat \<Rightarrow> nat" where
  "parent j = (j - 1) div 2"

function heap_up :: "('a \<Rightarrow> 'a \<Rightarrow> bool) \<Rightarrow> 'a list \<Rightarrow> nat \<Rightarrow> 'a list" where
  "heap_up lt h j =
     (if parent j = j \<or> \<not> lt (h ! j) (h ! parent j) then h
      else heap_up lt (swap (parent j) j h) (parent j))"
  by pat_completeness auto
termination
  by (relation "measure (\<lambda>(lt, h, j). j)") (auto simp: parent_def)

definition min_child :: "('a \<Rightarrow> 'a \<Rightarrow> bool) \<Rightarrow> 'a list \<Rightarrow> nat \<Rightarrow> nat \<Rightarrow> nat" where
  "min_child lt h i n =
     (let j1 = 2 * i + 1; j2 = j1 + 1
      in if j2 < n \<and> lt (h ! j2) (h ! j1) then j2 else j1)"

function heap_down :: "('a \<Rightarrow> 'a \<Rightarrow> bool) \<Rightarrow> 'a list \<Rightarrow> nat \<Rightarrow> nat \<Rightarrow> 'a list" where
  "heap_down lt h i n =
     (if 2 * i + 1 \<ge> n then h
      else if \<not> lt (h ! min_child lt h i n) (h ! i) then h
      else heap_down lt (swap i (min_child lt h i n) h) (min_child lt h i n) n)"
  by pat_completeness auto
termination
  by (relation "measure (\<lambda>(lt, h, i, n). n - i)") (auto simp: min_child_def Let_def)

definition heap_Push :: "('a \<Rightarrow> 'a \<Rightarrow> bool) \<Rightarrow> 'a \<Rightarrow> 'a list \<Rightarrow> 'a list" where
  "heap_Push lt x h = heap_up lt (h @ [x]) (length h)"

text \<open>\<^verbatim>\<open>heap.Pop\<close> on a non-empty collection: the element it returns and what is left.\<close>

definition heap_Pop :: "('a \<Rightarrow> 'a \<Rightarrow> bool) \<Rightarrow> 'a list \<Rightarrow> 'a \<times> 'a list" where
  "heap_Pop lt h =
     (let n = length h - 1; h' = heap_down lt (swap 0 n h) 0 n
      in (h' ! n, take n h'))"

declare heap_up.simps [simp del]
declare heap_down.simps [simp del]

text \<open>Heap shape on the first \<open>n\<close> cells, and the two forms of a heap broken at one index.\<close>

definition heap_upto :: "('a \<Rightarrow> 'a \<Rightarrow> bool) \<Rightarrow> 'a list \<Rightarrow> nat \<Rightarrow> bool" where
  "heap_upto lt h n \<longleftrightarrow> (\<forall>x<n. 0 < x \<longrightarrow> \<not> lt (h ! x) (h ! parent x))"

definition broken_up :: "('a \<Rightarrow> 'a \<Rightarrow> bool) \<Rightarrow> 'a list \<Rightarrow> nat \<Rightarrow> nat \<Rightarrow> bool" where
  "broken_up lt h n j \<longleftrightarrow>
     (\<forall>x<n. 0 < x \<longrightarrow>
        (x \<noteq> j \<longrightarrow> \<not> lt (h ! x) (h ! parent x)) \<and>
        (parent x = j \<longrightarrow> 0 < j \<longrightarrow> \<not> lt (h ! x) (h ! parent j)))"

definition broken_down :: "('a \<Rightarrow> 'a \<Rightarrow> bool) \<Rightarrow> 'a list \<Rightarrow> nat \<Rightarrow> nat \<Rightarrow> bool" where
  "broken_down lt h n i \<longleftrightarrow>
     (\<forall>x<n. 0 < x \<longrightarrow>
        (parent x \<noteq> i \<longrightarrow> \<not> lt (h ! x) (h ! parent x)) \<and>
        (parent x = i \<longrightarrow> 0 < i \<longrightarrow> \<not> lt (h ! x) (h ! parent i)))"

section \<open>Indices and permutation\<close>

lemma parent_less [simp]: "0 < j \<Longrightarrow> parent j < j"
  by (auto simp: parent_def)

lemma parent_less_trans: "0 < j \<Longrightarrow> j \<le> n \<Longrightarrow> parent j < n"
  using parent_less [of j] by linarith

lemma parent_eq_self_iff: "parent j = j \<longleftrightarrow> j = 0"
  by (auto simp: parent_def)

lemma children_of: "0 < x \<Longrightarrow> parent x = i \<Longrightarrow> x = 2 * i + 1 \<or> x = 2 * i + 2"
  unfolding parent_def by presburger

lemma parent_child [simp]: "parent (2 * i + 1) = i" "parent (2 * i + 2) = i" "parent (Suc (2 * i)) = i"
  by (simp_all add: parent_def)

lemma length_swap [simp]: "length (swap i j h) = length h"
  by (simp add: swap_def)

lemma swap_nth:
  "i < length h \<Longrightarrow> j < length h \<Longrightarrow> k < length h \<Longrightarrow>
     swap i j h ! k = (if k = i then h ! j else if k = j then h ! i else h ! k)"
  by (auto simp: swap_def nth_list_update)

lemma mset_swap_heap [simp]: "i < length h \<Longrightarrow> j < length h \<Longrightarrow> mset (swap i j h) = mset h"
  unfolding swap_def by (rule mset_swap)

lemma length_heap_up [simp]: "length (heap_up lt h j) = length h"
  by (induction lt h j rule: heap_up.induct) (subst heap_up.simps, auto)

lemma mset_heap_up: "j < length h \<Longrightarrow> mset (heap_up lt h j) = mset h"
proof (induction lt h j rule: heap_up.induct)
  case (1 lt h j)
  show ?case
  proof (cases "parent j = j \<or> \<not> lt (h ! j) (h ! parent j)")
    case True
    then show ?thesis by (simp add: heap_up.simps [of lt h j])
  next
    case False
    with 1 have "parent j < length h"
      using parent_less [of j] parent_eq_self_iff [of j] by linarith
    with 1 False show ?thesis by (simp add: heap_up.simps [of lt h j])
  qed
qed

lemma min_child_bounds:
  "2 * i + 1 < n \<Longrightarrow> i < min_child lt h i n \<and> min_child lt h i n < n \<and> parent (min_child lt h i n) = i"
  by (auto simp: min_child_def Let_def parent_def)

lemma length_heap_down [simp]: "length (heap_down lt h i n) = length h"
  by (induction lt h i n rule: heap_down.induct) (subst heap_down.simps, auto)

lemma mset_heap_down: "n \<le> length h \<Longrightarrow> mset (heap_down lt h i n) = mset h"
proof (induction lt h i n rule: heap_down.induct)
  case (1 lt h i n)
  show ?case
  proof (cases "2 * i + 1 \<ge> n \<or> \<not> lt (h ! min_child lt h i n) (h ! i)")
    case True
    then show ?thesis by (auto simp: heap_down.simps [of lt h i n])
  next
    case False
    with 1 min_child_bounds [of i n lt h] show ?thesis
      by (auto simp: heap_down.simps [of lt h i n])
  qed
qed

text \<open>\<open>heap_down\<close> leaves the cells from \<open>n\<close> on alone.\<close>

lemma heap_down_above: "n \<le> k \<Longrightarrow> k < length h \<Longrightarrow> heap_down lt h i n ! k = h ! k"
proof (induction lt h i n rule: heap_down.induct)
  case (1 lt h i n)
  show ?case
  proof (cases "2 * i + 1 \<ge> n \<or> \<not> lt (h ! min_child lt h i n) (h ! i)")
    case True
    then show ?thesis by (auto simp: heap_down.simps [of lt h i n])
  next
    case False
    with 1 min_child_bounds [of i n lt h] show ?thesis
      by (auto simp: heap_down.simps [of lt h i n] swap_nth)
  qed
qed

section \<open>Correctness for a strict weak order\<close>

locale heap_order =
  fixes lt :: "'a \<Rightarrow> 'a \<Rightarrow> bool"
  assumes lt_asym: "lt a b \<Longrightarrow> \<not> lt b a"
    and lt_negtrans: "\<not> lt b a \<Longrightarrow> \<not> lt c b \<Longrightarrow> \<not> lt c a"
begin

lemma lt_irrefl: "\<not> lt a a"
  using lt_asym by blast

lemma broken_up_step:
  assumes j: "0 < j" "j < n" "n \<le> length h" and bu: "broken_up lt h n j"
    and less: "lt (h ! j) (h ! parent j)"
  shows "broken_up lt (swap (parent j) j h) n (parent j)"
  unfolding broken_up_def
proof (intro allI impI)
  fix x assume x: "x < n" "0 < x"
  define i where "i = parent j"
  define h' where "h' = swap i j h"
  have i: "i < j" "i < length h" "j < length h" using j by (auto simp: i_def parent_less_trans)
  have h': "h' ! k = (if k = i then h ! j else if k = j then h ! i else h ! k)" if "k < n" for k
    unfolding h'_def using that i j by (intro swap_nth) auto
  have px: "parent x < x" "parent x < n" using x by (auto simp: parent_less_trans)
  have bu1: "y < n \<Longrightarrow> 0 < y \<Longrightarrow> y \<noteq> j \<Longrightarrow> \<not> lt (h ! y) (h ! parent y)" for y
    using bu by (auto simp: broken_up_def)
  have bu2: "parent x = j \<Longrightarrow> \<not> lt (h ! x) (h ! i)"
    using bu x j by (auto simp: broken_up_def i_def)
  have ij: "\<not> lt (h ! i) (h ! j)" using less lt_asym by (simp add: i_def)
  have first: "x \<noteq> i \<Longrightarrow> \<not> lt (h' ! x) (h' ! parent x)"
  proof (cases "x = j")
    case True
    with px show ?thesis using h' [OF x(1)] h' [OF px(2)] ij by (auto simp: i_def)
  next
    case False
    assume "x \<noteq> i"
    with False have hx: "h' ! x = h ! x" using h' [OF x(1)] by simp
    have "\<not> lt (h ! x) (h ! j)" if "parent x = i"
      using lt_negtrans [OF ij, of "h ! x"] bu1 [OF x False] that by simp
    with hx h' [OF px(2)] bu1 [OF x False] bu2 show ?thesis by (auto split: if_splits)
  qed
  have second: "\<not> lt (h' ! x) (h' ! parent i)" if "parent x = i" "0 < i"
  proof -
    have pi: "parent i < i" "parent i < n" using that i j by (auto simp: parent_less_trans)
    then have "h' ! parent i = h ! parent i" using h' i(1) by auto
    moreover have "\<not> lt (h ! i) (h ! parent i)" using bu1 [of i] that i(1) j by auto
    moreover have "x \<noteq> i" using that px by auto
    then have "\<not> lt (h' ! x) (h ! i)"
      using h' [OF x(1)] bu1 [OF x] that lt_irrefl by auto
    ultimately show ?thesis using lt_negtrans by metis
  qed
  from first second
  show "(x \<noteq> parent j \<longrightarrow> \<not> lt (swap (parent j) j h ! x) (swap (parent j) j h ! parent x)) \<and>
    (parent x = parent j \<longrightarrow> 0 < parent j \<longrightarrow>
      \<not> lt (swap (parent j) j h ! x) (swap (parent j) j h ! parent (parent j)))"
    by (simp add: h'_def i_def)
qed

lemma broken_up_done:
  assumes "broken_up lt h n j" and "j = 0 \<or> \<not> lt (h ! j) (h ! parent j)"
  shows "heap_upto lt h n"
  using assms by (auto simp: broken_up_def heap_upto_def)

lemma heap_up_correct:
  "j < length h \<Longrightarrow> broken_up lt h (length h) j \<Longrightarrow> heap_upto lt (heap_up lt h j) (length h)"
proof (induction j arbitrary: h rule: less_induct)
  case (less j)
  show ?case
  proof (cases "parent j = j \<or> \<not> lt (h ! j) (h ! parent j)")
    case True
    with less.prems show ?thesis
      using broken_up_done [of h "length h" j] parent_eq_self_iff [of j]
      by (auto simp: heap_up.simps [of lt h j])
  next
    case False
    then have j: "0 < j" using parent_eq_self_iff [of j] by auto
    with False less.prems have "broken_up lt (swap (parent j) j h) (length h) (parent j)"
      by (intro broken_up_step) auto
    with less.IH [of "parent j" "swap (parent j) j h"] j less.prems(1) parent_less [OF j]
    have "heap_upto lt (heap_up lt (swap (parent j) j h) (parent j)) (length h)" by simp
    with False show ?thesis by (simp add: heap_up.simps [of lt h j])
  qed
qed

lemma min_child_le:
  assumes "2 * i + 1 < n" "0 < x" "x < n" "parent x = i"
  shows "\<not> lt (h ! x) (h ! min_child lt h i n)"
  using children_of [OF assms(2,4)] assms(1,3) lt_asym lt_irrefl
  by (auto simp: min_child_def Let_def)

lemma broken_down_step:
  assumes n: "2 * i + 1 < n" "n \<le> length h" and bd: "broken_down lt h n i"
    and less: "lt (h ! min_child lt h i n) (h ! i)"
  shows "broken_down lt (swap i (min_child lt h i n) h) n (min_child lt h i n)"
  unfolding broken_down_def
proof (intro allI impI)
  fix x assume x: "x < n" "0 < x"
  define j where "j = min_child lt h i n"
  define h' where "h' = swap i j h"
  have j: "i < j" "j < n" "parent j = i"
    using min_child_bounds [OF n(1), of lt h] by (auto simp: j_def)
  have h': "h' ! k = (if k = i then h ! j else if k = j then h ! i else h ! k)" if "k < n" for k
    unfolding h'_def using that j n by (intro swap_nth) auto
  have px: "parent x < x" "parent x < n" using x by (auto simp: parent_less_trans)
  have bd1: "parent x \<noteq> i \<Longrightarrow> \<not> lt (h ! x) (h ! parent x)" using bd x by (auto simp: broken_down_def)
  have bd2: "0 < i \<Longrightarrow> \<not> lt (h ! j) (h ! parent i)" using bd j by (auto simp: broken_down_def)
  have ij: "\<not> lt (h ! i) (h ! j)" using less lt_asym by (simp add: j_def)
  have sib: "parent x = i \<Longrightarrow> \<not> lt (h ! x) (h ! j)"
    using min_child_le [OF n(1) x(2,1)] by (simp add: j_def)
  have first: "\<not> lt (h' ! x) (h' ! parent x)" if "parent x \<noteq> j"
  proof (cases "parent x = i")
    case True
    with px have "x \<noteq> i" by auto
    with True h' [OF x(1)] h' [OF px(2)] sib ij show ?thesis by auto
  next
    case False
    then have "h' ! parent x = h ! parent x" using that h' [OF px(2)] by simp
    moreover have "x \<noteq> j" using False j by auto
    ultimately show ?thesis using h' [OF x(1)] bd1 [OF False] bd2 x by auto
  qed
  have second: "\<not> lt (h' ! x) (h' ! parent j)" if "parent x = j"
  proof -
    have "x \<noteq> i" "x \<noteq> j" using that px j by auto
    then show ?thesis using h' [OF x(1)] h' [of i] j bd1 that by auto
  qed
  from first second
  show "(parent x \<noteq> min_child lt h i n \<longrightarrow>
      \<not> lt (swap i (min_child lt h i n) h ! x) (swap i (min_child lt h i n) h ! parent x)) \<and>
    (parent x = min_child lt h i n \<longrightarrow> 0 < min_child lt h i n \<longrightarrow>
      \<not> lt (swap i (min_child lt h i n) h ! x)
        (swap i (min_child lt h i n) h ! parent (min_child lt h i n)))"
    by (simp add: h'_def j_def)
qed

lemma broken_down_done:
  assumes bd: "broken_down lt h n i"
    and stop: "2 * i + 1 \<ge> n \<or> \<not> lt (h ! min_child lt h i n) (h ! i)"
  shows "heap_upto lt h n"
  unfolding heap_upto_def
proof (intro allI impI)
  fix x assume x: "x < n" "0 < x"
  show "\<not> lt (h ! x) (h ! parent x)"
  proof (cases "parent x = i")
    case True
    with x have "2 * i + 1 < n" using children_of [of x i] by auto
    with stop True x show ?thesis
      using lt_negtrans [OF _ min_child_le [of i n x h]] by auto
  next
    case False
    with bd x show ?thesis by (auto simp: broken_down_def)
  qed
qed

lemma heap_down_correct:
  "n \<le> length h \<Longrightarrow> broken_down lt h n i \<Longrightarrow> heap_upto lt (heap_down lt h i n) n"
proof (induction "n - i" arbitrary: h i rule: less_induct)
  case less
  show ?case
  proof (cases "2 * i + 1 \<ge> n \<or> \<not> lt (h ! min_child lt h i n) (h ! i)")
    case True
    with less.prems broken_down_done show ?thesis
      by (auto simp: heap_down.simps [of lt h i n])
  next
    case False
    define j where "j = min_child lt h i n"
    have j: "i < j" "j < n" using False min_child_bounds [of i n lt h] by (auto simp: j_def)
    have "broken_down lt (swap i j h) n j"
      unfolding j_def using False less.prems by (intro broken_down_step) auto
    with less.hyps [of j "swap i j h"] less.prems(1) j
    have "heap_upto lt (heap_down lt (swap i j h) j n) n" by simp
    with False show ?thesis by (simp add: heap_down.simps [of lt h i n] j_def)
  qed
qed

lemma heap_root_least: "heap_upto lt h n \<Longrightarrow> x < n \<Longrightarrow> \<not> lt (h ! x) (h ! 0)"
proof (induction x rule: less_induct)
  case (less x)
  show ?case
  proof (cases "x = 0")
    case True
    then show ?thesis using lt_irrefl by simp
  next
    case False
    then have "\<not> lt (h ! x) (h ! parent x)" "\<not> lt (h ! parent x) (h ! 0)"
      using less parent_less [of x] by (auto simp: heap_upto_def)
    then show ?thesis using lt_negtrans by blast
  qed
qed

theorem heap_Push_correct:
  assumes "heap_upto lt h (length h)"
  shows "heap_upto lt (heap_Push lt x h) (Suc (length h))"
    and "mset (heap_Push lt x h) = add_mset x (mset h)"
proof -
  have "broken_up lt (h @ [x]) (length (h @ [x])) (length h)"
    unfolding broken_up_def
  proof (intro allI impI)
    fix y assume y: "y < length (h @ [x])" "0 < y"
    have "parent y < length h" using y parent_less [of y] by (simp del: parent_less)
    then show "(y \<noteq> length h \<longrightarrow> \<not> lt ((h @ [x]) ! y) ((h @ [x]) ! parent y)) \<and>
      (parent y = length h \<longrightarrow> 0 < length h \<longrightarrow> \<not> lt ((h @ [x]) ! y) ((h @ [x]) ! parent (length h)))"
      using y assms by (auto simp: heap_upto_def nth_append)
  qed
  from heap_up_correct [OF _ this] show "heap_upto lt (heap_Push lt x h) (Suc (length h))"
    by (simp add: heap_Push_def)
  show "mset (heap_Push lt x h) = add_mset x (mset h)"
    by (simp add: heap_Push_def mset_heap_up)
qed

theorem heap_Pop_correct:
  assumes heap: "heap_upto lt h (length h)" and ne: "h \<noteq> []" and pop: "heap_Pop lt h = (x, h')"
  shows "heap_upto lt h' (length h')" and "mset h = add_mset x (mset h')"
    and "y \<in> set h \<Longrightarrow> \<not> lt y x"
proof -
  define n where "n = length h - 1"
  define s where "s = swap 0 n h"
  define d where "d = heap_down lt s 0 n"
  have n: "n < length h" "Suc n = length h" using ne by (auto simp: n_def)
  have s: "k < length h \<Longrightarrow> s ! k = (if k = 0 then h ! n else if k = n then h ! 0 else h ! k)" for k
    unfolding s_def using n by (intro swap_nth) auto
  have len: "length s = length h" "length d = length h" by (simp_all add: s_def d_def)
  have x: "x = d ! n" and h': "h' = take n d"
    using pop by (auto simp: heap_Pop_def Let_def n_def s_def d_def)
  have "d ! n = h ! 0" unfolding d_def using n s [of n] len by (auto simp: heap_down_above)
  then have x0: "x = h ! 0" using x by simp
  have "broken_down lt s n 0"
    unfolding broken_down_def
  proof (intro allI impI)
    fix x assume x: "x < n" "0 < x"
    then have "parent x < n" by (simp add: parent_less_trans)
    then show "(parent x \<noteq> 0 \<longrightarrow> \<not> lt (s ! x) (s ! parent x)) \<and>
      (parent x = 0 \<longrightarrow> (0::nat) < 0 \<longrightarrow> \<not> lt (s ! x) (s ! parent 0))"
      using x heap n by (simp add: heap_upto_def s)
  qed
  then have "heap_upto lt d n" unfolding d_def using n len by (intro heap_down_correct) auto
  then show "heap_upto lt h' (length h')"
    using n len by (auto simp: heap_upto_def h' min_def parent_less_trans)
  have "mset d = mset h" using n ne by (simp add: d_def s_def mset_heap_down n_def)
  moreover have "d = h' @ [x]" using n len by (simp add: h' x take_Suc_conv_app_nth [symmetric])
  ultimately show "mset h = add_mset x (mset h')" by simp
  show "\<not> lt y x" if "y \<in> set h"
    using that heap_root_least [OF heap] by (auto simp: x0 in_set_conv_nth)
qed

lemma heap_Pop_length: "h \<noteq> [] \<Longrightarrow> length (snd (heap_Pop lt h)) = length h - 1"
  by (simp add: heap_Pop_def Let_def)

end

end
