(* ===== verification/Agent_Types.thy ===== *)
theory Agent_Types
  imports Prelude
begin

text \<open>
  The shared domain types of \<^verbatim>\<open>internal/types/types.go\<close> and their conversions to and from the
  protobuf messages of \<^verbatim>\<open>proto/agentgpu/v1\<close>.

  A pointer is an \<open>option\<close> (\<open>None\<close> is nil). A slice whose nil and empty values the code tells
  apart (\<^verbatim>\<open>Heartbeat.AvailableModels\<close>, \<^verbatim>\<open>Register.Models\<close>) is a \<open>slice\<close>; every other slice is
  only measured, ranged over and appended to, where nil and empty agree, and is a list. The
  elements of a repeated protobuf field are pointers.

  The lemmas show that every conversion pair is a round trip; the one field that is dropped is
  \<^verbatim>\<open>Job.SessionID\<close>, which never crosses the wire.
\<close>

section \<open>Domain types\<close>

type_synonym 'a slice = "'a list option"

definition slice_elems :: "'a slice \<Rightarrow> 'a list" where
  "slice_elems s = (case s of None \<Rightarrow> [] | Some xs \<Rightarrow> xs)"

record Model =
  Model_Name :: string
  Model_Digest :: string

record ToolCall =
  ToolCall_ID :: string
  ToolCall_Type :: string
  ToolCall_FunctionName :: string
  ToolCall_Arguments :: string

record Message =
  Message_Role :: string
  Message_Content :: string
  Message_ToolCallID :: string
  Message_Name :: string
  Message_ToolCalls :: "ToolCall list"

record ToolFunction =
  ToolFunction_Name :: string
  ToolFunction_Description :: string
  ToolFunction_Parameters :: string

record Tool =
  Tool_Type :: string
  Tool_Function :: ToolFunction

record Job =
  Job_ID :: string
  Job_Model :: string
  Job_Prompt :: string
  Job_Messages :: "Message list"
  Job_Tools :: "Tool list"
  Job_SessionID :: string
  Job_KeepAliveSeconds :: int

record JobError =
  JobError_Code :: string
  JobError_Message :: string

record JobResult =
  JobResult_JobID :: string
  JobResult_Output :: string
  JobResult_Err :: "JobError option"
  JobResult_Tokens :: uint64
  JobResult_ToolCalls :: "ToolCall list"
  JobResult_FinishReason :: string
  JobResult_PromptTokens :: uint64
  JobResult_CompletionTokens :: uint64

record JobChunk =
  JobChunk_JobID :: string
  JobChunk_Delta :: string
  JobChunk_Done :: bool
  JobChunk_Err :: "JobError option"
  JobChunk_Tokens :: uint64
  JobChunk_ToolCalls :: "ToolCall list"
  JobChunk_FinishReason :: string
  JobChunk_PromptTokens :: uint64
  JobChunk_CompletionTokens :: uint64

record Heartbeat =
  Heartbeat_WorkerID :: string
  Heartbeat_ActiveJobs :: uint32
  Heartbeat_TotalVRAM :: uint64
  Heartbeat_FreeVRAM :: uint64
  Heartbeat_Load :: uint32
  Heartbeat_GPUType :: string
  Heartbeat_AvailableModels :: "Model slice"

datatype WorkerStatus = WorkerOnline | WorkerDraining | WorkerStale

record Worker =
  Worker_ID :: string
  Worker_Models :: "Model list"
  Worker_LastSeen :: gotime
  Worker_ActiveJobs :: uint32
  Worker_TotalVRAM :: uint64
  Worker_FreeVRAM :: uint64
  Worker_Load :: uint32
  Worker_GPUType :: string
  Worker_Status :: WorkerStatus
  Worker_RegisteredAt :: gotime

fun WorkerStatus_String :: "WorkerStatus \<Rightarrow> string" where
  "WorkerStatus_String WorkerOnline = ''online''"
| "WorkerStatus_String WorkerDraining = ''draining''"
| "WorkerStatus_String WorkerStale = ''stale''"

definition JobError_Error :: "JobError option \<Rightarrow> string" where
  "JobError_Error e =
     (case e of
        None \<Rightarrow> ''''
      | Some e \<Rightarrow>
          if JobError_Code e = '''' then JobError_Message e
          else JobError_Code e @ '': '' @ JobError_Message e)"

datatype InvalidJob = MissingID | MissingModel

definition Job_Validate :: "Job \<Rightarrow> InvalidJob option" where
  "Job_Validate j =
     (if Job_ID j = '''' then Some MissingID
      else if Job_Model j = '''' then Some MissingModel
      else None)"

text \<open>The zero values the conversions return for a nil message.\<close>

definition zero_Model :: Model where
  "zero_Model = \<lparr>Model_Name = '''', Model_Digest = ''''\<rparr>"

definition zero_ToolCall :: ToolCall where
  "zero_ToolCall = \<lparr>ToolCall_ID = '''', ToolCall_Type = '''', ToolCall_FunctionName = '''',
     ToolCall_Arguments = ''''\<rparr>"

definition zero_Message :: Message where
  "zero_Message = \<lparr>Message_Role = '''', Message_Content = '''', Message_ToolCallID = '''',
     Message_Name = '''', Message_ToolCalls = []\<rparr>"

definition zero_Tool :: Tool where
  "zero_Tool = \<lparr>Tool_Type = '''', Tool_Function = \<lparr>ToolFunction_Name = '''',
     ToolFunction_Description = '''', ToolFunction_Parameters = ''''\<rparr>\<rparr>"

definition zero_Job :: Job where
  "zero_Job = \<lparr>Job_ID = '''', Job_Model = '''', Job_Prompt = '''', Job_Messages = [],
     Job_Tools = [], Job_SessionID = '''', Job_KeepAliveSeconds = 0\<rparr>"

definition zero_JobResult :: JobResult where
  "zero_JobResult = \<lparr>JobResult_JobID = '''', JobResult_Output = '''', JobResult_Err = None,
     JobResult_Tokens = 0, JobResult_ToolCalls = [], JobResult_FinishReason = '''',
     JobResult_PromptTokens = 0, JobResult_CompletionTokens = 0\<rparr>"

definition zero_JobChunk :: JobChunk where
  "zero_JobChunk = \<lparr>JobChunk_JobID = '''', JobChunk_Delta = '''', JobChunk_Done = False,
     JobChunk_Err = None, JobChunk_Tokens = 0, JobChunk_ToolCalls = [],
     JobChunk_FinishReason = '''', JobChunk_PromptTokens = 0, JobChunk_CompletionTokens = 0\<rparr>"

definition zero_Heartbeat :: Heartbeat where
  "zero_Heartbeat = \<lparr>Heartbeat_WorkerID = '''', Heartbeat_ActiveJobs = 0,
     Heartbeat_TotalVRAM = 0, Heartbeat_FreeVRAM = 0, Heartbeat_Load = 0,
     Heartbeat_GPUType = '''', Heartbeat_AvailableModels = None\<rparr>"

section \<open>Protobuf messages\<close>

record pb_Model =
  pb_Model_Name :: string
  pb_Model_Digest :: string

record pb_ToolCall =
  pb_ToolCall_Id :: string
  pb_ToolCall_Type :: string
  pb_ToolCall_FunctionName :: string
  pb_ToolCall_ArgumentsJson :: string

record pb_ChatMessage =
  pb_ChatMessage_Role :: string
  pb_ChatMessage_Content :: string
  pb_ChatMessage_ToolCallId :: string
  pb_ChatMessage_Name :: string
  pb_ChatMessage_ToolCalls :: "pb_ToolCall option list"

record pb_ToolFunction =
  pb_ToolFunction_Name :: string
  pb_ToolFunction_Description :: string
  pb_ToolFunction_ParametersJson :: string

record pb_Tool =
  pb_Tool_Type :: string
  pb_Tool_Function :: "pb_ToolFunction option"

record pb_Job =
  pb_Job_Id :: string
  pb_Job_Model :: string
  pb_Job_Prompt :: string
  pb_Job_Messages :: "pb_ChatMessage option list"
  pb_Job_Tools :: "pb_Tool option list"
  pb_Job_KeepAliveSeconds :: int

record pb_Error =
  pb_Error_Code :: string
  pb_Error_Message :: string

record pb_JobResult =
  pb_JobResult_JobId :: string
  pb_JobResult_Output :: string
  pb_JobResult_Error :: "pb_Error option"
  pb_JobResult_Tokens :: uint64
  pb_JobResult_ToolCalls :: "pb_ToolCall option list"
  pb_JobResult_FinishReason :: string
  pb_JobResult_PromptTokens :: uint64
  pb_JobResult_CompletionTokens :: uint64

record pb_JobChunk =
  pb_JobChunk_JobId :: string
  pb_JobChunk_Delta :: string
  pb_JobChunk_Done :: bool
  pb_JobChunk_Error :: "pb_Error option"
  pb_JobChunk_Tokens :: uint64
  pb_JobChunk_ToolCalls :: "pb_ToolCall option list"
  pb_JobChunk_FinishReason :: string
  pb_JobChunk_PromptTokens :: uint64
  pb_JobChunk_CompletionTokens :: uint64

record pb_Heartbeat =
  pb_Heartbeat_WorkerId :: string
  pb_Heartbeat_ActiveJobs :: uint32
  pb_Heartbeat_TotalVramBytes :: uint64
  pb_Heartbeat_FreeVramBytes :: uint64
  pb_Heartbeat_Load :: uint32
  pb_Heartbeat_GpuType :: string
  pb_Heartbeat_AvailableModels :: "pb_Model option slice"

section \<open>Conversions\<close>

definition Model_Proto :: "Model \<Rightarrow> pb_Model" where
  "Model_Proto m = \<lparr>pb_Model_Name = Model_Name m, pb_Model_Digest = Model_Digest m\<rparr>"

definition ModelFromProto :: "pb_Model option \<Rightarrow> Model" where
  "ModelFromProto p =
     (case p of
        None \<Rightarrow> zero_Model
      | Some p \<Rightarrow> \<lparr>Model_Name = pb_Model_Name p, Model_Digest = pb_Model_Digest p\<rparr>)"

definition ModelsFromProto :: "pb_Model option slice \<Rightarrow> Model slice" where
  "ModelsFromProto ps =
     (case ps of None \<Rightarrow> None | Some ps \<Rightarrow> Some (map ModelFromProto ps))"

definition ModelsToProto :: "Model slice \<Rightarrow> pb_Model option slice" where
  "ModelsToProto ms =
     (case ms of None \<Rightarrow> None | Some ms \<Rightarrow> Some (map (\<lambda>m. Some (Model_Proto m)) ms))"

definition ToolCall_Proto :: "ToolCall \<Rightarrow> pb_ToolCall" where
  "ToolCall_Proto t =
     \<lparr>pb_ToolCall_Id = ToolCall_ID t, pb_ToolCall_Type = ToolCall_Type t,
      pb_ToolCall_FunctionName = ToolCall_FunctionName t,
      pb_ToolCall_ArgumentsJson = ToolCall_Arguments t\<rparr>"

definition ToolCallFromProto :: "pb_ToolCall option \<Rightarrow> ToolCall" where
  "ToolCallFromProto p =
     (case p of
        None \<Rightarrow> zero_ToolCall
      | Some p \<Rightarrow>
          \<lparr>ToolCall_ID = pb_ToolCall_Id p, ToolCall_Type = pb_ToolCall_Type p,
           ToolCall_FunctionName = pb_ToolCall_FunctionName p,
           ToolCall_Arguments = pb_ToolCall_ArgumentsJson p\<rparr>)"

definition ToolCallsToProto :: "ToolCall list \<Rightarrow> pb_ToolCall option list" where
  "ToolCallsToProto ts = map (\<lambda>t. Some (ToolCall_Proto t)) ts"

definition ToolCallsFromProto :: "pb_ToolCall option list \<Rightarrow> ToolCall list" where
  "ToolCallsFromProto ps = map ToolCallFromProto ps"

definition Message_Proto :: "Message \<Rightarrow> pb_ChatMessage" where
  "Message_Proto m =
     \<lparr>pb_ChatMessage_Role = Message_Role m, pb_ChatMessage_Content = Message_Content m,
      pb_ChatMessage_ToolCallId = Message_ToolCallID m, pb_ChatMessage_Name = Message_Name m,
      pb_ChatMessage_ToolCalls = ToolCallsToProto (Message_ToolCalls m)\<rparr>"

definition MessageFromProto :: "pb_ChatMessage option \<Rightarrow> Message" where
  "MessageFromProto p =
     (case p of
        None \<Rightarrow> zero_Message
      | Some p \<Rightarrow>
          \<lparr>Message_Role = pb_ChatMessage_Role p, Message_Content = pb_ChatMessage_Content p,
           Message_ToolCallID = pb_ChatMessage_ToolCallId p, Message_Name = pb_ChatMessage_Name p,
           Message_ToolCalls = ToolCallsFromProto (pb_ChatMessage_ToolCalls p)\<rparr>)"

definition messagesToProto :: "Message list \<Rightarrow> pb_ChatMessage option list" where
  "messagesToProto ms = map (\<lambda>m. Some (Message_Proto m)) ms"

definition messagesFromProto :: "pb_ChatMessage option list \<Rightarrow> Message list" where
  "messagesFromProto ps = map MessageFromProto ps"

definition Tool_Proto :: "Tool \<Rightarrow> pb_Tool" where
  "Tool_Proto t =
     \<lparr>pb_Tool_Type = Tool_Type t,
      pb_Tool_Function = Some
        \<lparr>pb_ToolFunction_Name = ToolFunction_Name (Tool_Function t),
         pb_ToolFunction_Description = ToolFunction_Description (Tool_Function t),
         pb_ToolFunction_ParametersJson = ToolFunction_Parameters (Tool_Function t)\<rparr>\<rparr>"

text \<open>The getters of a nil \<^verbatim>\<open>ToolFunction\<close> return empty strings.\<close>

definition ToolFromProto :: "pb_Tool option \<Rightarrow> Tool" where
  "ToolFromProto p =
     (case p of
        None \<Rightarrow> zero_Tool
      | Some p \<Rightarrow>
          \<lparr>Tool_Type = pb_Tool_Type p,
           Tool_Function =
             (case pb_Tool_Function p of
                None \<Rightarrow> \<lparr>ToolFunction_Name = '''', ToolFunction_Description = '''',
                         ToolFunction_Parameters = ''''\<rparr>
              | Some fn \<Rightarrow>
                  \<lparr>ToolFunction_Name = pb_ToolFunction_Name fn,
                   ToolFunction_Description = pb_ToolFunction_Description fn,
                   ToolFunction_Parameters = pb_ToolFunction_ParametersJson fn\<rparr>)\<rparr>)"

definition toolsToProto :: "Tool list \<Rightarrow> pb_Tool option list" where
  "toolsToProto ts = map (\<lambda>t. Some (Tool_Proto t)) ts"

definition toolsFromProto :: "pb_Tool option list \<Rightarrow> Tool list" where
  "toolsFromProto ps = map ToolFromProto ps"

definition Job_Proto :: "Job \<Rightarrow> pb_Job" where
  "Job_Proto j =
     \<lparr>pb_Job_Id = Job_ID j, pb_Job_Model = Job_Model j, pb_Job_Prompt = Job_Prompt j,
      pb_Job_Messages = messagesToProto (Job_Messages j),
      pb_Job_Tools = toolsToProto (Job_Tools j),
      pb_Job_KeepAliveSeconds = Job_KeepAliveSeconds j\<rparr>"

definition JobFromProto :: "pb_Job option \<Rightarrow> Job" where
  "JobFromProto p =
     (case p of
        None \<Rightarrow> zero_Job
      | Some p \<Rightarrow>
          \<lparr>Job_ID = pb_Job_Id p, Job_Model = pb_Job_Model p, Job_Prompt = pb_Job_Prompt p,
           Job_Messages = messagesFromProto (pb_Job_Messages p),
           Job_Tools = toolsFromProto (pb_Job_Tools p),
           Job_SessionID = '''',
           Job_KeepAliveSeconds = pb_Job_KeepAliveSeconds p\<rparr>)"

definition JobError_Proto :: "JobError option \<Rightarrow> pb_Error option" where
  "JobError_Proto e =
     (case e of
        None \<Rightarrow> None
      | Some e \<Rightarrow>
          Some \<lparr>pb_Error_Code = JobError_Code e, pb_Error_Message = JobError_Message e\<rparr>)"

definition JobErrorFromProto :: "pb_Error option \<Rightarrow> JobError option" where
  "JobErrorFromProto p =
     (case p of
        None \<Rightarrow> None
      | Some p \<Rightarrow>
          Some \<lparr>JobError_Code = pb_Error_Code p, JobError_Message = pb_Error_Message p\<rparr>)"

definition JobResult_Proto :: "JobResult \<Rightarrow> pb_JobResult" where
  "JobResult_Proto r =
     \<lparr>pb_JobResult_JobId = JobResult_JobID r, pb_JobResult_Output = JobResult_Output r,
      pb_JobResult_Error = JobError_Proto (JobResult_Err r),
      pb_JobResult_Tokens = JobResult_Tokens r,
      pb_JobResult_ToolCalls = ToolCallsToProto (JobResult_ToolCalls r),
      pb_JobResult_FinishReason = JobResult_FinishReason r,
      pb_JobResult_PromptTokens = JobResult_PromptTokens r,
      pb_JobResult_CompletionTokens = JobResult_CompletionTokens r\<rparr>"

definition JobResultFromProto :: "pb_JobResult option \<Rightarrow> JobResult" where
  "JobResultFromProto p =
     (case p of
        None \<Rightarrow> zero_JobResult
      | Some p \<Rightarrow>
          \<lparr>JobResult_JobID = pb_JobResult_JobId p, JobResult_Output = pb_JobResult_Output p,
           JobResult_Err = JobErrorFromProto (pb_JobResult_Error p),
           JobResult_Tokens = pb_JobResult_Tokens p,
           JobResult_ToolCalls = ToolCallsFromProto (pb_JobResult_ToolCalls p),
           JobResult_FinishReason = pb_JobResult_FinishReason p,
           JobResult_PromptTokens = pb_JobResult_PromptTokens p,
           JobResult_CompletionTokens = pb_JobResult_CompletionTokens p\<rparr>)"

definition JobChunk_Proto :: "JobChunk \<Rightarrow> pb_JobChunk" where
  "JobChunk_Proto c =
     \<lparr>pb_JobChunk_JobId = JobChunk_JobID c, pb_JobChunk_Delta = JobChunk_Delta c,
      pb_JobChunk_Done = JobChunk_Done c,
      pb_JobChunk_Error = JobError_Proto (JobChunk_Err c),
      pb_JobChunk_Tokens = JobChunk_Tokens c,
      pb_JobChunk_ToolCalls = ToolCallsToProto (JobChunk_ToolCalls c),
      pb_JobChunk_FinishReason = JobChunk_FinishReason c,
      pb_JobChunk_PromptTokens = JobChunk_PromptTokens c,
      pb_JobChunk_CompletionTokens = JobChunk_CompletionTokens c\<rparr>"

definition JobChunkFromProto :: "pb_JobChunk option \<Rightarrow> JobChunk" where
  "JobChunkFromProto p =
     (case p of
        None \<Rightarrow> zero_JobChunk
      | Some p \<Rightarrow>
          \<lparr>JobChunk_JobID = pb_JobChunk_JobId p, JobChunk_Delta = pb_JobChunk_Delta p,
           JobChunk_Done = pb_JobChunk_Done p,
           JobChunk_Err = JobErrorFromProto (pb_JobChunk_Error p),
           JobChunk_Tokens = pb_JobChunk_Tokens p,
           JobChunk_ToolCalls = ToolCallsFromProto (pb_JobChunk_ToolCalls p),
           JobChunk_FinishReason = pb_JobChunk_FinishReason p,
           JobChunk_PromptTokens = pb_JobChunk_PromptTokens p,
           JobChunk_CompletionTokens = pb_JobChunk_CompletionTokens p\<rparr>)"

definition Heartbeat_Proto :: "Heartbeat \<Rightarrow> pb_Heartbeat" where
  "Heartbeat_Proto h =
     \<lparr>pb_Heartbeat_WorkerId = Heartbeat_WorkerID h,
      pb_Heartbeat_ActiveJobs = Heartbeat_ActiveJobs h,
      pb_Heartbeat_TotalVramBytes = Heartbeat_TotalVRAM h,
      pb_Heartbeat_FreeVramBytes = Heartbeat_FreeVRAM h,
      pb_Heartbeat_Load = Heartbeat_Load h,
      pb_Heartbeat_GpuType = Heartbeat_GPUType h,
      pb_Heartbeat_AvailableModels = ModelsToProto (Heartbeat_AvailableModels h)\<rparr>"

definition HeartbeatFromProto :: "pb_Heartbeat option \<Rightarrow> Heartbeat" where
  "HeartbeatFromProto p =
     (case p of
        None \<Rightarrow> zero_Heartbeat
      | Some p \<Rightarrow>
          \<lparr>Heartbeat_WorkerID = pb_Heartbeat_WorkerId p,
           Heartbeat_ActiveJobs = pb_Heartbeat_ActiveJobs p,
           Heartbeat_TotalVRAM = pb_Heartbeat_TotalVramBytes p,
           Heartbeat_FreeVRAM = pb_Heartbeat_FreeVramBytes p,
           Heartbeat_Load = pb_Heartbeat_Load p,
           Heartbeat_GPUType = pb_Heartbeat_GpuType p,
           Heartbeat_AvailableModels = ModelsFromProto (pb_Heartbeat_AvailableModels p)\<rparr>)"

section \<open>Round trips\<close>

named_theorems wire_simps \<open>a value converted to the wire and back\<close>

lemma Model_wire [wire_simps]: "ModelFromProto (Some (Model_Proto m)) = m"
  by (simp add: ModelFromProto_def Model_Proto_def)

lemma Models_wire [wire_simps]: "ModelsFromProto (ModelsToProto ms) = ms"
  by (simp add: ModelsFromProto_def ModelsToProto_def wire_simps comp_def split: option.splits)

lemma ToolCall_wire [wire_simps]: "ToolCallFromProto (Some (ToolCall_Proto t)) = t"
  by (simp add: ToolCallFromProto_def ToolCall_Proto_def)

lemma ToolCalls_wire [wire_simps]: "ToolCallsFromProto (ToolCallsToProto ts) = ts"
  by (simp add: ToolCallsFromProto_def ToolCallsToProto_def wire_simps comp_def)

lemma Message_wire [wire_simps]: "MessageFromProto (Some (Message_Proto m)) = m"
  by (simp add: MessageFromProto_def Message_Proto_def wire_simps)

lemma messages_wire [wire_simps]: "messagesFromProto (messagesToProto ms) = ms"
  by (simp add: messagesFromProto_def messagesToProto_def wire_simps comp_def)

lemma Tool_wire [wire_simps]: "ToolFromProto (Some (Tool_Proto t)) = t"
  by (simp add: ToolFromProto_def Tool_Proto_def)

lemma tools_wire [wire_simps]: "toolsFromProto (toolsToProto ts) = ts"
  by (simp add: toolsFromProto_def toolsToProto_def wire_simps comp_def)

lemma JobError_wire [wire_simps]: "JobErrorFromProto (JobError_Proto e) = e"
  by (simp add: JobErrorFromProto_def JobError_Proto_def split: option.splits)

lemma Job_wire [wire_simps]: "JobFromProto (Some (Job_Proto j)) = j\<lparr>Job_SessionID := ''''\<rparr>"
  by (simp add: JobFromProto_def Job_Proto_def wire_simps)

lemma JobChunk_wire [wire_simps]: "JobChunkFromProto (Some (JobChunk_Proto c)) = c"
  by (simp add: JobChunkFromProto_def JobChunk_Proto_def wire_simps)

lemma JobResult_wire [wire_simps]: "JobResultFromProto (Some (JobResult_Proto r)) = r"
  by (simp add: JobResultFromProto_def JobResult_Proto_def wire_simps)

lemma Heartbeat_wire [wire_simps]: "HeartbeatFromProto (Some (Heartbeat_Proto h)) = h"
  by (simp add: HeartbeatFromProto_def Heartbeat_Proto_def wire_simps)

lemma Job_Validate_None_iff: "Job_Validate j = None \<longleftrightarrow> Job_ID j \<noteq> '''' \<and> Job_Model j \<noteq> ''''"
  by (simp add: Job_Validate_def)

end
