(* ===== verification/Job_Queue.thy ===== *)
theory Job_Queue
  imports Container_Heap Agent_Types "HOL-Library.Product_Lexorder"
begin

text \<open>
  The global job queue, \<^verbatim>\<open>internal/queue/queue.go\<close>. A \<open>Queue\<close> holds the array of the item heap, the
  sequence counter, the depth bound and the closed flag; the injected clock is an argument of
  \<open>Enqueue\<close>. Every operation of the source runs under the queue's mutex, so each is one function
  on the state.

  The served order \<open>served q\<close> (items sorted by priority, then sequence number) abstracts the heap
  array; \<open>Enqueue\<close> and \<open>Dequeue\<close> refine list operations on it. The last section models the
  blocking \<^verbatim>\<open>DequeueWait\<close> with its condition variable as a step relation over the goroutines that
  run it.
\<close>

section \<open>State and operations\<close>

definition PriorityLow :: int where "PriorityLow = 0"
definition PriorityNormal :: int where "PriorityNormal = 1"
definition PriorityHigh :: int where "PriorityHigh = 2"

datatype QueueError = ErrQueueFull | ErrClosed | CtxErr

record Item =
  Item_Job :: Job
  Item_Key :: string
  Item_Priority :: int
  Item_Seq :: uint64
  Item_EnqueuedAt :: gotime

record Stats =
  Stats_Total :: nat
  Stats_ByPriority :: "(int, nat) gomap"

record Queue =
  Queue_items :: "Item list"
  Queue_seq :: uint64
  Queue_maxDepth :: int
  Queue_closed :: bool

definition WithMaxDepth :: "int \<Rightarrow> Queue \<Rightarrow> Queue" where
  "WithMaxDepth n q = q\<lparr>Queue_maxDepth := (if n < 0 then 0 else n)\<rparr>"

definition New :: "(Queue \<Rightarrow> Queue) list \<Rightarrow> Queue" where
  "New opts = fold (\<lambda>opt q. opt q) opts
     \<lparr>Queue_items = [], Queue_seq = 0, Queue_maxDepth = 0, Queue_closed = False\<rparr>"

definition item_Less :: "Item \<Rightarrow> Item \<Rightarrow> bool" where
  "item_Less a b =
     (if Item_Priority a \<noteq> Item_Priority b then Item_Priority a > Item_Priority b
      else Item_Seq a < Item_Seq b)"

definition Enqueue ::
  "gotime \<Rightarrow> Job \<Rightarrow> string \<Rightarrow> int \<Rightarrow> Queue \<Rightarrow> QueueError option \<times> Queue" where
  "Enqueue now job key p q =
     (if Queue_closed q then (Some ErrClosed, q)
      else if Queue_maxDepth q > 0 \<and> int (length (Queue_items q)) \<ge> Queue_maxDepth q
      then (Some ErrQueueFull, q)
      else
        let it = \<lparr>Item_Job = job, Item_Key = key, Item_Priority = p, Item_Seq = Queue_seq q,
                  Item_EnqueuedAt = now\<rparr>
        in (None, q\<lparr>Queue_seq := Queue_seq q + 1,
                    Queue_items := heap_Push item_Less it (Queue_items q)\<rparr>))"

definition popLocked :: "Queue \<Rightarrow> Item option \<times> Queue" where
  "popLocked q =
     (if length (Queue_items q) = 0 then (None, q)
      else let (it, rest) = heap_Pop item_Less (Queue_items q)
           in (Some it, q\<lparr>Queue_items := rest\<rparr>))"

definition Dequeue :: "Queue \<Rightarrow> Item option \<times> Queue" where
  "Dequeue q = popLocked q"

definition Queue_Len :: "Queue \<Rightarrow> nat" where
  "Queue_Len q = length (Queue_items q)"

definition Queue_Stats :: "Queue \<Rightarrow> Stats" where
  "Queue_Stats q =
     \<lparr>Stats_Total = length (Queue_items q),
      Stats_ByPriority =
        foldl (\<lambda>m it. AList.update (Item_Priority it) (gomap_get 0 m (Item_Priority it) + 1) m)
          [] (Queue_items q)\<rparr>"

definition Queue_Close :: "Queue \<Rightarrow> Queue" where
  "Queue_Close q = (if Queue_closed q then q else q\<lparr>Queue_closed := True\<rparr>)"

text \<open>One turn of the loop of \<^verbatim>\<open>DequeueWait\<close>: it returns, or goes on to \<^verbatim>\<open>cond.Wait\<close>.\<close>

datatype WaitTurn = TurnReturn "QueueError + Item" | TurnWait

definition DequeueWait_turn :: "bool \<Rightarrow> Queue \<Rightarrow> WaitTurn \<times> Queue" where
  "DequeueWait_turn ctxDone q =
     (case popLocked q of
        (Some it, q') \<Rightarrow> (TurnReturn (Inr it), q')
      | (None, q') \<Rightarrow>
          if Queue_closed q' then (TurnReturn (Inl ErrClosed), q')
          else if ctxDone then (TurnReturn (Inl CtxErr), q')
          else (TurnWait, q'))"

section \<open>Served order\<close>

definition rank :: "Item \<Rightarrow> int \<times> int" where
  "rank it = (- Item_Priority it, uint (Item_Seq it))"

definition served :: "Queue \<Rightarrow> Item list" where
  "served q = sort_key rank (Queue_items q)"

definition insert_served :: "Item \<Rightarrow> Item list \<Rightarrow> Item list" where
  "insert_served it xs =
     takeWhile (\<lambda>x. Item_Priority it \<le> Item_Priority x) xs @ it #
     dropWhile (\<lambda>x. Item_Priority it \<le> Item_Priority x) xs"

definition queue_inv :: "Queue \<Rightarrow> bool" where
  "queue_inv q \<longleftrightarrow>
     heap_upto item_Less (Queue_items q) (length (Queue_items q)) \<and>
     distinct (map Item_Seq (Queue_items q)) \<and>
     (\<forall>it\<in>set (Queue_items q). Item_Seq it < Queue_seq q) \<and>
     0 \<le> Queue_maxDepth q \<and>
     (0 < Queue_maxDepth q \<longrightarrow> int (length (Queue_items q)) \<le> Queue_maxDepth q)"

lemma item_Less_rank: "item_Less a b \<longleftrightarrow> rank a < rank b"
  by (auto simp: item_Less_def rank_def word_less_def)

interpretation item_heap: heap_order item_Less
  by unfold_locales (auto simp: item_Less_rank)

lemma set_served [simp]: "set (served q) = set (Queue_items q)"
  by (simp add: served_def)

lemma length_served [simp]: "length (served q) = length (Queue_items q)"
  by (simp add: served_def)

lemma served_eq_Nil_iff [simp]: "served q = [] \<longleftrightarrow> Queue_items q = []"
  by (simp add: served_def sort_Nil_iff)

lemma sorted_served [simp]: "sorted (map rank (served q))"
  by (simp add: served_def)

lemma rank_inj: "distinct (map Item_Seq xs) \<Longrightarrow> inj_on rank (set xs)"
  by (auto simp: inj_on_def rank_def distinct_map word_uint_eq_iff)

text \<open>Any sorted rearrangement of the stored items is the served order.\<close>

lemma served_unique:
  assumes "distinct (map Item_Seq (Queue_items q))" and "mset ys = mset (Queue_items q)"
    and "sorted (map rank ys)"
  shows "served q = ys"
  unfolding served_def
  using assms rank_inj by (intro sort_key_inj_key_eq) auto

lemma mset_insert_served: "mset (insert_served it xs) = add_mset it (mset xs)"
  by (simp add: insert_served_def) (metis mset_append takeWhile_dropWhile_id)

lemma sorted_insert_served:
  assumes "sorted (map rank xs)" and "\<forall>x\<in>set xs. Item_Seq x < Item_Seq it"
  shows "sorted (map rank (insert_served it xs))"
proof -
  let ?P = "\<lambda>x. Item_Priority it \<le> Item_Priority x"
  have before: "rank x \<le> rank it" if "x \<in> set (takeWhile ?P xs)" for x
    using that assms(2) set_takeWhileD [OF that]
    by (auto simp: rank_def word_less_def)
  have "rank it < rank (dropWhile ?P xs ! 0)" if "dropWhile ?P xs \<noteq> []"
    using that hd_dropWhile [of ?P xs] by (simp add: hd_conv_nth rank_def)
  moreover have "sorted (map rank (dropWhile ?P xs))"
    using assms(1) sorted_dropWhile [of "map rank xs" "\<lambda>r. fst r \<le> - Item_Priority it"]
    by (simp add: dropWhile_map comp_def rank_def)
  ultimately have after: "rank it \<le> rank x" if "x \<in> set (dropWhile ?P xs)" for x
    using that by (cases "dropWhile ?P xs") (auto intro: less_imp_le order.trans)
  have "sorted (map rank (takeWhile ?P xs @ dropWhile ?P xs))" using assms(1) by simp
  then show ?thesis
    unfolding insert_served_def map_append sorted_append
    using before after by (auto simp: sorted_append)
qed

section \<open>Each operation keeps the invariant and refines the served order\<close>

lemma queue_inv_New: "queue_inv (New (map WithMaxDepth ns))"
proof -
  have "queue_inv (fold (\<lambda>opt q. opt q) (map WithMaxDepth ns) q)"
    if "queue_inv q" "Queue_items q = []" for q
    using that
    by (induction ns arbitrary: q) (auto simp: queue_inv_def WithMaxDepth_def heap_upto_def)
  then show ?thesis
    by (simp add: New_def queue_inv_def heap_upto_def)
qed

lemma Enqueue_ok:
  assumes inv: "queue_inv q" and room: "Queue_seq q + 1 \<noteq> 0"
    and ok: "Enqueue now job key p q = (None, q')"
  defines "it \<equiv> \<lparr>Item_Job = job, Item_Key = key, Item_Priority = p, Item_Seq = Queue_seq q,
    Item_EnqueuedAt = now\<rparr>"
  shows "queue_inv q'" and "served q' = insert_served it (served q)"
    and "mset (Queue_items q') = add_mset it (mset (Queue_items q))"
proof -
  have q': "q' = q\<lparr>Queue_seq := Queue_seq q + 1,
      Queue_items := heap_Push item_Less it (Queue_items q)\<rparr>"
    and depth: "0 < Queue_maxDepth q \<longrightarrow> int (length (Queue_items q)) < Queue_maxDepth q"
    using ok by (auto simp: Enqueue_def Let_def it_def split: if_splits)
  have push: "heap_upto item_Less (Queue_items q') (Suc (length (Queue_items q)))"
    "mset (Queue_items q') = add_mset it (mset (Queue_items q))"
    using item_heap.heap_Push_correct [of "Queue_items q" it] inv by (auto simp: queue_inv_def q')
  then have len: "length (Queue_items q') = Suc (length (Queue_items q))"
    and set: "set (Queue_items q') = insert it (set (Queue_items q))"
    by (metis size_add_mset size_mset, metis set_mset_add_mset_insert set_mset_mset)
  have seq: "Queue_seq q < Queue_seq q + 1"
    using room by (rule word_less_Suc)
  show "mset (Queue_items q') = add_mset it (mset (Queue_items q))" by (fact push(2))
  have new: "\<forall>x\<in>set (Queue_items q). Item_Seq x < Item_Seq it" 
    using inv by (auto simp: queue_inv_def it_def)
  have "mset (map Item_Seq (Queue_items q')) = mset (map Item_Seq (it # Queue_items q))"
    using push(2) by simp
  from mset_eq_imp_distinct_iff [OF this] have dist: "distinct (map Item_Seq (Queue_items q'))"
    using inv new by (auto simp: queue_inv_def)
  show "queue_inv q'"
    using push inv dist depth new seq len set by (force simp: queue_inv_def q' it_def)
  have "mset (insert_served it (served q)) = mset (Queue_items q')"
    by (simp add: mset_insert_served push(2) served_def)
  moreover have "sorted (map rank (insert_served it (served q)))"
    by (rule sorted_insert_served) (use new in \<open>auto simp: served_def\<close>)
  ultimately show "served q' = insert_served it (served q)"
    using dist by (intro served_unique) auto
qed

lemma popLocked_some:
  assumes inv: "queue_inv q" and pop: "popLocked q = (Some it, q')"
  shows "queue_inv q'" and "served q = it # served q'"
    and "q' = q\<lparr>Queue_items := Queue_items q'\<rparr>"
    and "length (Queue_items q) = Suc (length (Queue_items q'))"
proof -
  obtain rest where ne: "Queue_items q \<noteq> []" and hp: "heap_Pop item_Less (Queue_items q) = (it, rest)"
    and q': "q' = q\<lparr>Queue_items := rest\<rparr>"
    using pop by (auto simp: popLocked_def split: if_splits prod.splits)
  have heap: "heap_upto item_Less (Queue_items q) (length (Queue_items q))"
    using inv by (simp add: queue_inv_def)
  note P = item_heap.heap_Pop_correct [OF heap ne hp]
  show "q' = q\<lparr>Queue_items := Queue_items q'\<rparr>" by (simp add: q')
  show len: "length (Queue_items q) = Suc (length (Queue_items q'))"
    using P(2) by (metis size_add_mset size_mset q' Queue.select_convs(1) Queue.surjective Queue.update_convs(1))
  have set: "set (Queue_items q) = insert it (set rest)"
    using P(2) by (metis set_mset_add_mset_insert set_mset_mset)
  have "mset (map Item_Seq (Queue_items q)) = mset (map Item_Seq (it # rest))" using P(2) by simp
  from mset_eq_imp_distinct_iff [OF this] have dist: "distinct (map Item_Seq (it # rest))"
    using inv by (simp add: queue_inv_def)
  then show "queue_inv q'" using inv P(1) set len by (auto simp: queue_inv_def q')
  have "rank it \<le> rank y" if "y \<in> set rest" for y
    using P(3) [of y] that set by (auto simp: item_Less_rank not_less)
  then show "served q = it # served q'"
    using inv P(2) by (intro served_unique) (auto simp: queue_inv_def served_def q')
qed

lemma popLocked_none: "popLocked q = (None, q') \<longleftrightarrow> served q = [] \<and> q' = q"
  by (auto simp: popLocked_def split: prod.splits)

section \<open>Order and depth\<close>

lemma dropWhile_lower:
  assumes "sorted (map rank xs)" and "x \<in> set (dropWhile (\<lambda>x. p \<le> Item_Priority x) xs)"
  shows "Item_Priority x < p"
proof -
  obtain y ys where yys: "dropWhile (\<lambda>x. p \<le> Item_Priority x) xs = y # ys"
    using assms(2) by (cases "dropWhile (\<lambda>x. p \<le> Item_Priority x) xs") auto
  then have "Item_Priority y < p"
    using hd_dropWhile [of "\<lambda>x. p \<le> Item_Priority x" xs] by simp
  moreover have "sorted (map rank (y # ys))"
    using assms(1) unfolding yys [symmetric]
    by (metis dropWhile_eq_drop drop_map sorted_wrt_drop)
  ultimately show ?thesis using assms(2) by (auto simp: yys rank_def)
qed

lemma filter_insert_served:
  assumes "sorted (map rank xs)"
  shows "filter (\<lambda>x. Item_Priority x = r) (insert_served it xs) =
    filter (\<lambda>x. Item_Priority x = r) xs @ (if Item_Priority it = r then [it] else [])"
proof -
  let ?L = "\<lambda>x. Item_Priority x = r" and ?P = "\<lambda>x. Item_Priority it \<le> Item_Priority x"
  have "filter ?L xs = filter ?L (takeWhile ?P xs) @ filter ?L (dropWhile ?P xs)"
    by (metis filter_append takeWhile_dropWhile_id)
  moreover have "filter ?L (dropWhile ?P xs) = []" if "Item_Priority it = r"
    using that dropWhile_lower [OF assms] by (fastforce simp: filter_empty_conv)
  ultimately show ?thesis by (simp add: insert_served_def)
qed

text \<open>A client's history: the items it got accepted and those it got back, in order.\<close>

datatype QueueOp = OpEnqueue gotime Job string int | OpDequeue

fun run_ops :: "QueueOp list \<Rightarrow> Queue \<Rightarrow> Item list \<times> Item list \<times> Queue" where
  "run_ops [] q = ([], [], q)"
| "run_ops (OpEnqueue now job key p # ops) q =
     (case Enqueue now job key p q of
        (Some e, q1) \<Rightarrow> run_ops ops q1
      | (None, q1) \<Rightarrow>
          let (acc, out, q2) = run_ops ops q1
          in (\<lparr>Item_Job = job, Item_Key = key, Item_Priority = p, Item_Seq = Queue_seq q,
               Item_EnqueuedAt = now\<rparr> # acc, out, q2))"
| "run_ops (OpDequeue # ops) q =
     (case Dequeue q of
        (None, q1) \<Rightarrow> run_ops ops q1
      | (Some it, q1) \<Rightarrow> let (acc, out, q2) = run_ops ops q1 in (acc, it # out, q2))"

lemma Enqueue_err: "Enqueue now job key p q = (Some e, q') \<Longrightarrow> q' = q"
  by (auto simp: Enqueue_def Let_def split: if_splits)

lemma Enqueue_seq: "Enqueue now job key p q = (None, q') \<Longrightarrow> Queue_seq q' = Queue_seq q + 1"
  by (auto simp: Enqueue_def Let_def split: if_splits)

lemma run_ops_fifo:
  "queue_inv q \<Longrightarrow> unat (Queue_seq q) + length ops < 2 ^ 64 \<Longrightarrow> run_ops ops q = (acc, out, q') \<Longrightarrow>
     queue_inv q' \<and>
     filter (\<lambda>x. Item_Priority x = r) (served q @ acc) =
       filter (\<lambda>x. Item_Priority x = r) (out @ served q')"
proof (induction ops q arbitrary: acc out q' rule: run_ops.induct)
  case (1 q)
  then show ?case by simp
next
  case (2 now job key p ops q)
  have seq: "unat (Queue_seq q + 1) = Suc (unat (Queue_seq q))" "Queue_seq q + 1 \<noteq> 0"
    using 2(4) by (auto simp: unat_word_ariths(1) unat_eq_0 [symmetric] simp del: unat_eq_0)
  obtain e q1 where e: "Enqueue now job key p q = (e, q1)" by (cases "Enqueue now job key p q")
  show ?case
  proof (cases e)
    case None
    obtain acc1 out1 q2 where run: "run_ops ops q1 = (acc1, out1, q2)"
      by (cases "run_ops ops q1") auto
    note ok = Enqueue_ok [OF 2(3) seq(2) e [unfolded None]]
    have "unat (Queue_seq q1) + length ops < 2 ^ 64"
      using 2(4) seq(1) Enqueue_seq [OF e [unfolded None]] by simp
    note IH = 2(1) [OF e [symmetric] None ok(1) this run]
    have "acc = \<lparr>Item_Job = job, Item_Key = key, Item_Priority = p, Item_Seq = Queue_seq q,
        Item_EnqueuedAt = now\<rparr> # acc1" "out = out1" "q' = q2"
      using 2(5) by (simp_all add: e None run)
    with IH show ?thesis by (simp add: ok(2) filter_insert_served split: if_splits)
  next
    case (Some x)
    with e have "q1 = q" using Enqueue_err by blast
    with 2(2) [OF e [symmetric] Some] 2(3-5) e Some show ?thesis by simp
  qed
next
  case (3 ops q)
  obtain d q1 where d: "popLocked q = (d, q1)" by (cases "popLocked q")
  obtain acc1 out1 q2 where run: "run_ops ops q1 = (acc1, out1, q2)"
    by (cases "run_ops ops q1") auto
  show ?case
  proof (cases d)
    case None
    with d have "q1 = q" by (simp add: popLocked_none)
    with 3(1) [OF d [folded Dequeue_def, symmetric] None] 3(3-5) d None show ?thesis
      by (simp add: Dequeue_def)
  next
    case (Some it)
    note pop = popLocked_some [OF 3(3) d [unfolded Some]]
    have "Queue_seq q1 = Queue_seq q" by (subst pop(3)) simp
    with 3(4) have "unat (Queue_seq q1) + length ops < 2 ^ 64" by simp
    note IH = 3(2) [OF d [folded Dequeue_def, symmetric] Some pop(1) this run]
    have "acc = acc1" "out = it # out1" "q' = q2"
      using 3(5) by (simp_all add: Dequeue_def d Some run)
    with IH show ?thesis by (simp add: pop(2))
  qed
qed

lemma Stats_fold:
  "map_of (foldl (\<lambda>m it. AList.update (Item_Priority it) (Suc (gomap_get 0 m (Item_Priority it))) m) m its) p =
     (case map_of m p of
        None \<Rightarrow> (let n = length (filter (\<lambda>it. Item_Priority it = p) its) in if n = 0 then None else Some n)
      | Some k \<Rightarrow> Some (k + length (filter (\<lambda>it. Item_Priority it = p) its)))"
  by (induction its arbitrary: m) (auto simp: gomap_get_def update_conv' Let_def split: option.splits)

lemma Stats_fold_sum:
  "gomap_wf m \<Longrightarrow>
     sum_list (map snd (foldl (\<lambda>m it. AList.update (Item_Priority it)
       (Suc (gomap_get 0 m (Item_Priority it))) m) m its)) = sum_list (map snd m) + length its"
proof (induction its arbitrary: m)
  case Nil
  then show ?case by simp
next
  case (Cons it its)
  have "gomap_wf m \<Longrightarrow> sum_list (map snd (AList.update k (Suc (gomap_get 0 m k)) m)) =
    Suc (sum_list (map snd m))" for k :: int and m :: "(int, nat) gomap"
    by (induction m) (auto simp: gomap_get_def)
  with Cons show ?case by simp
qed

section \<open>Properties of the sequential queue\<close>

text \<open>
  C1. Refinement of \<open>Enqueue\<close>: on a well-formed queue whose sequence counter does not wrap, an
  accepted item is inserted in the served order behind every item of at least its priority and
  before every lower one; a closed queue answers \<open>ErrClosed\<close>, a bounded queue at its depth answers
  \<open>ErrQueueFull\<close>, both without changing the queue; the result is well-formed and never deeper than
  its bound.
\<close>

theorem Enqueue_refines:
  assumes "queue_inv q" and "Queue_seq q + 1 \<noteq> 0" and "Enqueue now job key p q = (err, q')"
  shows "queue_inv q' \<and>
    (case err of
       None \<Rightarrow> \<not> Queue_closed q \<and>
         (Queue_maxDepth q = 0 \<or> int (Queue_Len q') \<le> Queue_maxDepth q') \<and>
         served q' = insert_served \<lparr>Item_Job = job, Item_Key = key, Item_Priority = p,
           Item_Seq = Queue_seq q, Item_EnqueuedAt = now\<rparr> (served q)
     | Some ErrClosed \<Rightarrow> Queue_closed q \<and> q' = q
     | Some ErrQueueFull \<Rightarrow> \<not> Queue_closed q \<and> 0 < Queue_maxDepth q \<and>
         int (Queue_Len q) = Queue_maxDepth q \<and> q' = q
     | Some CtxErr \<Rightarrow> False)"
proof (cases err)
  case None
  with Enqueue_ok [OF assms(1,2) assms(3) [unfolded None]] assms(3) show ?thesis
    by (auto simp: Enqueue_def Let_def queue_inv_def Queue_Len_def split: if_splits)
next
  case (Some e)
  with assms show ?thesis
    by (auto simp: Enqueue_def Let_def queue_inv_def Queue_Len_def split: if_splits)
qed

text \<open>
  Refinement of \<open>Dequeue\<close>: it returns the head of the served order and leaves its tail; it
  reports an empty queue exactly when nothing is pending, and then changes nothing.
\<close>

theorem Dequeue_refines:
  assumes "queue_inv q" and "Dequeue q = (r, q')"
  shows "queue_inv q' \<and>
    (case r of None \<Rightarrow> served q = [] \<and> q' = q | Some it \<Rightarrow> served q = it # served q')"
  using assms popLocked_some [of q _ q'] popLocked_none [of q q']
  by (cases r) (auto simp: Dequeue_def)

text \<open>
  C11. First in, first out within a priority level, over a whole history: from a well-formed queue,
  after any sequence of \<open>Enqueue\<close> and \<open>Dequeue\<close> calls shorter than the sequence counter's room,
  the items of a priority that were pending or accepted, in that order, are those delivered
  followed by those still pending.
\<close>

theorem fifo_within_priority:
  assumes "queue_inv q" and "unat (Queue_seq q) + length ops < 2 ^ 64"
    and "run_ops ops q = (accepted, delivered, q')"
  shows "filter (\<lambda>x. Item_Priority x = r) (served q @ accepted) =
    filter (\<lambda>x. Item_Priority x = r) (delivered @ served q')"
  using run_ops_fifo [OF assms] by blast

text \<open>
  \<open>Stats\<close> counts every pending item once: an entry for a priority exists exactly when an item
  of it is pending and holds their number, and the entries add up to the total.
\<close>

theorem Stats_counts:
  "map_of (Stats_ByPriority (Queue_Stats q)) p =
     (let n = length (filter (\<lambda>it. Item_Priority it = p) (Queue_items q))
      in if n = 0 then None else Some n) \<and>
   sum_list (map snd (Stats_ByPriority (Queue_Stats q))) = Stats_Total (Queue_Stats q) \<and>
   Stats_Total (Queue_Stats q) = Queue_Len q"
  by (simp add: Queue_Stats_def Stats_fold Stats_fold_sum Queue_Len_def)

section \<open>Blocking dequeue: the condition variable\<close>

text \<open>
  The goroutines that run \<^verbatim>\<open>DequeueWait\<close>, by call id. \<open>mon_ready\<close> holds the calls that are about
  to take the mutex and run a turn of the loop, \<open>mon_holder\<close> the call that has decided to wait and
  still holds the mutex on its way into \<^verbatim>\<open>cond.Wait\<close>, \<open>mon_parked\<close> the notify list of the
  condition variable in order of arrival. \<open>EvBridge\<close> is the goroutine that turns cancellation into
  a \<^verbatim>\<open>Broadcast\<close>: it and \<open>EvCancel\<close> are the only events that do not take the mutex.
\<close>

record Monitor =
  mon_q :: Queue
  mon_ready :: "nat list"
  mon_holder :: "nat option"
  mon_parked :: "nat list"
  mon_ctxDone :: "nat list"
  mon_bridged :: "nat list"
  mon_returned :: "(nat \<times> (QueueError + Item)) list"

datatype MonEvent =
    EvCall nat
  | EvTurn nat
  | EvPark
  | EvEnqueue gotime Job string int
  | EvDequeue
  | EvClose
  | EvCancel nat
  | EvBridge nat

definition in_call :: "Monitor \<Rightarrow> nat \<Rightarrow> bool" where
  "in_call s g \<longleftrightarrow> g \<in> set (mon_ready s) \<or> mon_holder s = Some g \<or> g \<in> set (mon_parked s)"

definition cond_Signal :: "Monitor \<Rightarrow> Monitor" where
  "cond_Signal s =
     (case mon_parked s of
        [] \<Rightarrow> s
      | g # gs \<Rightarrow> s\<lparr>mon_ready := mon_ready s @ [g], mon_parked := gs\<rparr>)"

definition cond_Broadcast :: "Monitor \<Rightarrow> Monitor" where
  "cond_Broadcast s = s\<lparr>mon_ready := mon_ready s @ mon_parked s, mon_parked := []\<rparr>"

fun mon_exec :: "MonEvent \<Rightarrow> Monitor \<Rightarrow> Monitor option" where
  "mon_exec (EvCall g) s =
     (if in_call s g \<or> g \<in> fst ` set (mon_returned s) then None
      else Some (s\<lparr>mon_ready := mon_ready s @ [g]\<rparr>))"
| "mon_exec (EvTurn g) s =
     (if mon_holder s \<noteq> None \<or> g \<notin> set (mon_ready s) then None
      else case DequeueWait_turn (g \<in> set (mon_ctxDone s)) (mon_q s) of
          (TurnReturn r, q') \<Rightarrow>
            Some (s\<lparr>mon_q := q', mon_ready := remove1 g (mon_ready s),
                    mon_returned := (g, r) # mon_returned s\<rparr>)
        | (TurnWait, q') \<Rightarrow>
            Some (s\<lparr>mon_q := q', mon_ready := remove1 g (mon_ready s), mon_holder := Some g\<rparr>))"
| "mon_exec EvPark s =
     (case mon_holder s of
        None \<Rightarrow> None
      | Some g \<Rightarrow> Some (s\<lparr>mon_holder := None, mon_parked := mon_parked s @ [g]\<rparr>))"
| "mon_exec (EvEnqueue now job key p) s =
     (if mon_holder s \<noteq> None then None
      else case Enqueue now job key p (mon_q s) of
          (None, q') \<Rightarrow> Some (cond_Signal (s\<lparr>mon_q := q'\<rparr>))
        | (Some e, q') \<Rightarrow> Some (s\<lparr>mon_q := q'\<rparr>))"
| "mon_exec EvDequeue s =
     (if mon_holder s \<noteq> None then None else Some (s\<lparr>mon_q := snd (Dequeue (mon_q s))\<rparr>))"
| "mon_exec EvClose s =
     (if mon_holder s \<noteq> None then None
      else if Queue_closed (mon_q s) then Some s
      else Some (cond_Broadcast (s\<lparr>mon_q := Queue_Close (mon_q s)\<rparr>)))"
| "mon_exec (EvCancel g) s = Some (s\<lparr>mon_ctxDone := g # mon_ctxDone s\<rparr>)"
| "mon_exec (EvBridge g) s =
     (if g \<in> set (mon_ctxDone s) \<and> g \<notin> set (mon_bridged s) \<and> in_call s g
      then Some (cond_Broadcast (s\<lparr>mon_bridged := g # mon_bridged s\<rparr>)) else None)"

fun mon_run :: "MonEvent list \<Rightarrow> Monitor \<Rightarrow> Monitor option" where
  "mon_run [] s = Some s"
| "mon_run (e # es) s = (case mon_exec e s of None \<Rightarrow> None | Some s' \<Rightarrow> mon_run es s')"

definition mon_start :: "int \<Rightarrow> Monitor" where
  "mon_start n = \<lparr>mon_q = New [WithMaxDepth n], mon_ready = [], mon_holder = None, mon_parked = [],
     mon_ctxDone = [], mon_bridged = [], mon_returned = []\<rparr>"

inductive mon_reach :: "int \<Rightarrow> Monitor \<Rightarrow> bool" for n where
  start: "mon_reach n (mon_start n)"
| step: "mon_reach n s \<Longrightarrow> mon_exec e s = Some s' \<Longrightarrow> mon_reach n s'"

lemma mon_run_reach: "mon_reach n s \<Longrightarrow> mon_run es s = Some s' \<Longrightarrow> mon_reach n s'"
  by (induction es arbitrary: s) (auto split: option.splits dest: mon_reach.step)

definition mon_inv :: "Monitor \<Rightarrow> bool" where
  "mon_inv s \<longleftrightarrow>
     (mon_parked s = [] \<or> length (Queue_items (mon_q s)) \<le> length (mon_ready s)) \<and>
     (mon_holder s \<noteq> None \<longrightarrow> Queue_items (mon_q s) = []) \<and>
     (Queue_closed (mon_q s) \<longrightarrow> mon_parked s = [] \<and> mon_holder s = None)"

lemma popLocked_length:
  "popLocked q = (r, q') \<Longrightarrow>
     Queue_closed q' = Queue_closed q \<and> length (Queue_items q') = length (Queue_items q) - 1 \<and>
     (r = None \<longleftrightarrow> Queue_items q = [])"
  using item_heap.heap_Pop_length [of "Queue_items q"]
  by (auto simp: popLocked_def split: if_splits prod.splits)

lemma Enqueue_length:
  "Enqueue now job key p q = (None, q') \<Longrightarrow>
     Queue_closed q' = Queue_closed q \<and> \<not> Queue_closed q \<and>
     length (Queue_items q') = Suc (length (Queue_items q))"
  by (auto simp: Enqueue_def Let_def heap_Push_def split: if_splits)

lemma DequeueWait_turn_cases:
  assumes "DequeueWait_turn c q = (t, q')"
  shows "(\<exists>it. t = TurnReturn (Inr it) \<and> popLocked q = (Some it, q')) \<or>
    (Queue_items q = [] \<and> q' = q \<and>
      t = (if Queue_closed q then TurnReturn (Inl ErrClosed)
           else if c then TurnReturn (Inl CtxErr) else TurnWait))"
  using assms
  by (auto simp: DequeueWait_turn_def popLocked_none split: prod.splits option.splits if_splits)

lemma mon_inv_start: "mon_inv (mon_start n)"
  by (simp add: mon_inv_def mon_start_def New_def WithMaxDepth_def)

lemma mon_inv_turn:
  assumes inv: "mon_inv s" and ev: "mon_exec (EvTurn g) s = Some s'"
  shows "mon_inv s'"
proof -
  obtain t q' where t: "DequeueWait_turn (g \<in> set (mon_ctxDone s)) (mon_q s) = (t, q')"
    by (cases "DequeueWait_turn (g \<in> set (mon_ctxDone s)) (mon_q s)")
  have g: "mon_holder s = None" "g \<in> set (mon_ready s)"
    using ev by (auto split: if_splits)
  then have len: "length (remove1 g (mon_ready s)) = length (mon_ready s) - 1"
    by (simp add: length_remove1)
  show ?thesis
  proof (cases "Queue_items (mon_q s) = []")
    case True
    with DequeueWait_turn_cases [OF t]
    have q': "q' = mon_q s" and t': "t = TurnWait \<longrightarrow> \<not> Queue_closed (mon_q s)"
      by (auto simp: popLocked_def)
    from inv ev True g show ?thesis
      by (cases t) (use t' in \<open>auto simp: mon_inv_def t q'\<close>)
  next
    case False
    with DequeueWait_turn_cases [OF t] obtain it where
      it: "t = TurnReturn (Inr it)" "popLocked (mon_q s) = (Some it, q')" by auto
    with inv ev g len popLocked_length [OF it(2)] show ?thesis
      by (auto simp: mon_inv_def t)
  qed
qed

lemma mon_inv_enqueue:
  assumes "mon_inv s" and "mon_exec (EvEnqueue now job key p) s = Some s'"
  shows "mon_inv s'"
proof -
  obtain e q' where e: "Enqueue now job key p (mon_q s) = (e, q')"
    by (cases "Enqueue now job key p (mon_q s)")
  have free: "mon_holder s = None" using assms(2) by (simp split: if_splits)
  show ?thesis
  proof (cases e)
    case None
    with assms e free Enqueue_length [of now job key p "mon_q s" q'] show ?thesis
      by (cases "mon_parked s") (auto simp: mon_inv_def cond_Signal_def)
  next
    case (Some x)
    with assms e free Enqueue_err [of now job key p "mon_q s" x q'] show ?thesis
      by (auto simp: mon_inv_def)
  qed
qed

lemma mon_inv_dequeue:
  assumes "mon_inv s" and "mon_exec EvDequeue s = Some s'"
  shows "mon_inv s'"
proof -
  obtain r q' where r: "popLocked (mon_q s) = (r, q')" by (cases "popLocked (mon_q s)")
  with assms popLocked_length [OF r] show ?thesis
    by (auto simp: mon_inv_def Dequeue_def split: if_splits)
qed

lemma mon_inv_step:
  assumes "mon_inv s" and "mon_exec e s = Some s'"
  shows "mon_inv s'"
proof (cases e)
  case (EvTurn g)
  with assms mon_inv_turn show ?thesis by blast
next
  case (EvEnqueue now job key p)
  with assms mon_inv_enqueue show ?thesis by blast
next
  case EvDequeue
  with assms mon_inv_dequeue show ?thesis by blast
next
  case EvClose
  with assms show ?thesis
    by (auto simp: mon_inv_def cond_Broadcast_def Queue_Close_def split: if_splits)
qed (use assms in \<open>auto simp: mon_inv_def cond_Broadcast_def split: if_splits option.splits\<close>)

lemma mon_reach_inv: "mon_reach n s \<Longrightarrow> mon_inv s"
  by (induction rule: mon_reach.induct) (auto intro: mon_inv_start mon_inv_step)

lemma closed_turn_returns:
  assumes "Queue_closed (mon_q s)" and "mon_holder s = None" and "mon_ready s = g # gs"
  shows "\<exists>s' r. mon_exec (EvTurn g) s = Some s' \<and> Queue_closed (mon_q s') \<and> mon_holder s' = None \<and>
    mon_parked s' = mon_parked s \<and> mon_ready s' = gs \<and> mon_returned s' = (g, r) # mon_returned s"
proof -
  obtain t q' where t: "DequeueWait_turn (g \<in> set (mon_ctxDone s)) (mon_q s) = (t, q')"
    by (cases "DequeueWait_turn (g \<in> set (mon_ctxDone s)) (mon_q s)")
  from DequeueWait_turn_cases [OF t] assms(1)
  obtain r where r: "t = TurnReturn r" and "Queue_closed q'"
    by (auto dest: popLocked_length)
  then show ?thesis using assms t by simp
qed

lemma closed_run_returns:
  "Queue_closed (mon_q s) \<Longrightarrow> mon_holder s = None \<Longrightarrow> mon_ready s = gs \<Longrightarrow>
     \<exists>s'. mon_run (map EvTurn gs) s = Some s' \<and> mon_ready s' = [] \<and> mon_holder s' = None \<and>
       mon_parked s' = mon_parked s \<and>
       fst ` set (mon_returned s') = set gs \<union> fst ` set (mon_returned s)"
proof (induction gs arbitrary: s)
  case Nil
  then show ?case by simp
next
  case (Cons g gs)
  from closed_turn_returns [OF Cons.prems] obtain s1 r where
    s1: "mon_exec (EvTurn g) s = Some s1" "Queue_closed (mon_q s1)" "mon_holder s1 = None"
      "mon_parked s1 = mon_parked s" "mon_ready s1 = gs"
      "mon_returned s1 = (g, r) # mon_returned s" by blast
  from Cons.IH [OF s1(2,3,5)] obtain s' where
    "mon_run (map EvTurn gs) s1 = Some s'" "mon_ready s' = []" "mon_holder s' = None"
    "mon_parked s' = mon_parked s" "fst ` set (mon_returned s') = set (g # gs) \<union> fst ` set (mon_returned s)"
    by (auto simp: s1)
  then show ?case by (auto simp: s1(1) simp del: mon_exec.simps)
qed

section \<open>Properties of the blocking dequeue\<close>

text \<open>
  C12. No wakeup of \<^verbatim>\<open>DequeueWait\<close> is lost to an \<open>Enqueue\<close> or a \<open>Close\<close>: in every reachable state of
  the queue's monitor, while some call is parked every pending item has a call of its own that
  is awake to take it, a call on its way into \<^verbatim>\<open>cond.Wait\<close> leaves nothing pending, and on a closed
  queue no call is parked or about to park.
\<close>

theorem no_lost_wakeup:
  assumes "mon_reach n s"
  shows "(mon_parked s \<noteq> [] \<longrightarrow> length (Queue_items (mon_q s)) \<le> length (mon_ready s)) \<and>
    (mon_holder s \<noteq> None \<longrightarrow> Queue_items (mon_q s) = []) \<and>
    (Queue_closed (mon_q s) \<longrightarrow> mon_parked s = [] \<and> mon_holder s = None)"
  using mon_reach_inv [OF assms] by (auto simp: mon_inv_def)

text \<open>
  \<open>Close\<close> releases every blocked caller: in every reachable state with a closed queue, one turn
  of each call that is awake is possible and returns, and then no call is left waiting.
\<close>

theorem close_releases_waiters:
  assumes "mon_reach n s" and "Queue_closed (mon_q s)"
  shows "\<exists>s'. mon_run (map EvTurn (mon_ready s)) s = Some s' \<and>
    (\<forall>g. \<not> in_call s' g) \<and> (\<forall>g. in_call s g \<longrightarrow> g \<in> fst ` set (mon_returned s'))"
proof -
  have "mon_parked s = []" "mon_holder s = None"
    using mon_reach_inv [OF assms(1)] assms(2) by (auto simp: mon_inv_def)
  with closed_run_returns [OF assms(2) _ refl] show ?thesis
    by (fastforce simp: in_call_def)
qed


section \<open>Witnesses\<close>

definition wit_job :: "string \<Rightarrow> Job" where
  "wit_job i = zero_Job\<lparr>Job_ID := i, Job_Model := ''m''\<rparr>"

definition wit_queue :: Queue where
  "wit_queue = snd (Enqueue 7 (wit_job ''b'') ''k'' PriorityHigh
     (snd (Enqueue 5 (wit_job ''a'') ''k'' PriorityNormal (New [WithMaxDepth 2]))))"

lemma wit_queue_inv: "queue_inv wit_queue"
  by code_simp

theorem Enqueue_refines_witness:
  "\<exists>q'. Enqueue 9 (wit_job ''c'') ''k'' PriorityLow wit_queue = (Some ErrQueueFull, q') \<and> q' = wit_queue"
proof -
  have e: "Enqueue 9 (wit_job ''c'') ''k'' PriorityLow wit_queue = (Some ErrQueueFull, wit_queue)"
    and s: "Queue_seq wit_queue + 1 \<noteq> 0" by code_simp+
  show ?thesis using Enqueue_refines [OF wit_queue_inv s e] e by auto
qed

theorem Dequeue_refines_witness:
  "\<exists>it. fst (Dequeue wit_queue) = Some it \<and> Job_ID (Item_Job it) = ''b'' \<and>
     served wit_queue = it # served (snd (Dequeue wit_queue))"
proof -
  have "fst (Dequeue wit_queue) \<noteq> None \<and>
    Job_ID (Item_Job (the (fst (Dequeue wit_queue)))) = ''b''" by code_simp
  then show ?thesis using Dequeue_refines [OF wit_queue_inv surjective_pairing] by auto
qed

theorem fifo_within_priority_witness:
  "map (\<lambda>x. Job_ID (Item_Job x)) (filter (\<lambda>x. Item_Priority x = PriorityNormal)
     (served (New []) @ fst (run_ops [OpEnqueue 1 (wit_job ''a'') ''k'' PriorityNormal,
        OpEnqueue 2 (wit_job ''b'') ''k'' PriorityNormal, OpDequeue] (New [])))) = [''a'', ''b'']"
proof -
  let ?ops = "[OpEnqueue 1 (wit_job ''a'') ''k'' PriorityNormal,
    OpEnqueue 2 (wit_job ''b'') ''k'' PriorityNormal, OpDequeue]"
  let ?r = "run_ops ?ops (New [])"
  have inv: "queue_inv (New [])" "unat (Queue_seq (New [])) + length ?ops < 2 ^ 64"
    using queue_inv_New [of "[]"] by (simp_all add: New_def)
  have "map (\<lambda>x. Job_ID (Item_Job x)) (filter (\<lambda>x. Item_Priority x = PriorityNormal)
     (fst (snd ?r) @ served (snd (snd ?r)))) = [''a'', ''b'']" by code_simp
  then show ?thesis
    using fifo_within_priority [OF inv, of "fst ?r" "fst (snd ?r)" "snd (snd ?r)"] by simp
qed

theorem no_lost_wakeup_witness:
  "\<exists>s. mon_run [EvCall 0, EvTurn 0, EvPark, EvEnqueue 1 (wit_job ''a'') ''k'' 1] (mon_start 0) = Some s \<and>
     length (Queue_items (mon_q s)) = 1 \<and>
     (mon_parked s \<noteq> [] \<longrightarrow> length (Queue_items (mon_q s)) \<le> length (mon_ready s))"
proof -
  let ?s = "the (mon_run [EvCall 0, EvTurn 0, EvPark, EvEnqueue 1 (wit_job ''a'') ''k'' 1] (mon_start 0))"
  have "mon_run [EvCall 0, EvTurn 0, EvPark, EvEnqueue 1 (wit_job ''a'') ''k'' 1] (mon_start 0) = Some ?s"
    and "length (Queue_items (mon_q ?s)) = 1" by code_simp+
  with no_lost_wakeup [OF mon_run_reach [OF mon_reach.start]] show ?thesis by blast
qed

theorem close_releases_waiters_witness:
  "\<exists>s s'. mon_run [EvCall 0, EvTurn 0, EvPark, EvClose] (mon_start 0) = Some s \<and> in_call s 0 \<and>
     mon_run [EvTurn 0] s = Some s' \<and> \<not> in_call s' 0"
proof -
  let ?s = "the (mon_run [EvCall 0, EvTurn 0, EvPark, EvClose] (mon_start 0))"
  have s: "mon_run [EvCall 0, EvTurn 0, EvPark, EvClose] (mon_start 0) = Some ?s"
    and c: "Queue_closed (mon_q ?s)" "in_call ?s 0" "mon_ready ?s = [0]" by code_simp+
  from close_releases_waiters [OF mon_run_reach [OF mon_reach.start s] c(1)]
  obtain s' where "mon_run [EvTurn 0] ?s = Some s'" "\<not> in_call s' 0"
    unfolding c(3) list.map by blast
  with s c(2) show ?thesis by blast
qed

end
