(* ===== verification/Key_Store.thy ===== *)
theory Key_Store
  imports Prelude
begin

text \<open>
  The persistence seam of the control plane, \<^verbatim>\<open>internal/store/store.go\<close> and
  \<^verbatim>\<open>internal/store/file.go\<close>: the API key record, the in-memory store and the JSON-file store.

  \<open>StoreOps\<close> is the Go interface \<^verbatim>\<open>Store\<close>: a record of the operations over a state type, which the
  authentication service takes as an argument. The locale \<open>key_store\<close> states what its clients rely
  on; both backends are interpretations of it.

  The file store keeps, next to its in-memory key set, the content of its file (\<open>File_disk\<close>, the
  decoded JSON document) and the outcomes of the coming writes (\<open>File_faults\<close>: which step of a flush
  fails, if any). A flush writes a temporary file and renames it over the target, so a failure at
  any step leaves the target as it was.
\<close>

section \<open>Keys\<close>

record Limits =
  Limits_RPM :: uint64
  Limits_TPM :: uint64
  Limits_DailyTokens :: uint64
  Limits_MonthlyTokens :: uint64

record APIKey =
  APIKey_ID :: string
  APIKey_Name :: string
  APIKey_Prefix :: string
  APIKey_SecretHash :: bytes
  APIKey_Salt :: bytes
  APIKey_CreatedAt :: gotime
  APIKey_LastUsedAt :: gotime
  APIKey_UsageCount :: uint64
  APIKey_RevokedAt :: "gotime option"
  APIKey_Owner :: string
  APIKey_Team :: string
  APIKey_ExpiresAt :: "gotime option"
  APIKey_CreatedBy :: string
  APIKey_Roles :: "string list"
  APIKey_AdminScopes :: "string list"
  APIKey_AllowModels :: "string list"
  APIKey_DenyModels :: "string list"
  APIKey_Limits :: "Limits option"

definition zero_APIKey :: APIKey where
  "zero_APIKey =
     \<lparr>APIKey_ID = [], APIKey_Name = [], APIKey_Prefix = [], APIKey_SecretHash = [], APIKey_Salt = [],
      APIKey_CreatedAt = zero_time, APIKey_LastUsedAt = zero_time, APIKey_UsageCount = 0,
      APIKey_RevokedAt = None, APIKey_Owner = [], APIKey_Team = [], APIKey_ExpiresAt = None,
      APIKey_CreatedBy = [], APIKey_Roles = [], APIKey_AdminScopes = [], APIKey_AllowModels = [],
      APIKey_DenyModels = [], APIKey_Limits = None\<rparr>"

definition APIKey_Revoked :: "APIKey \<Rightarrow> bool" where
  "APIKey_Revoked k \<longleftrightarrow> APIKey_RevokedAt k \<noteq> None"

definition APIKey_Expired :: "APIKey \<Rightarrow> gotime \<Rightarrow> bool" where
  "APIKey_Expired k now = (case APIKey_ExpiresAt k of None \<Rightarrow> False | Some t \<Rightarrow> now > t)"

text \<open>What a log call on a key prints: id, name, roles and whether it is revoked.\<close>

definition APIKey_LogValue :: "APIKey \<Rightarrow> string \<times> string \<times> string list \<times> bool" where
  "APIKey_LogValue k = (APIKey_ID k, APIKey_Name k, APIKey_Roles k, APIKey_Revoked k)"

definition cloneAPIKey :: "APIKey \<Rightarrow> APIKey" where
  "cloneAPIKey k =
     k\<lparr>APIKey_SecretHash := map id (APIKey_SecretHash k), APIKey_Salt := map id (APIKey_Salt k),
       APIKey_RevokedAt := map_option id (APIKey_RevokedAt k),
       APIKey_ExpiresAt := map_option id (APIKey_ExpiresAt k),
       APIKey_Roles := map id (APIKey_Roles k), APIKey_AdminScopes := map id (APIKey_AdminScopes k),
       APIKey_AllowModels := map id (APIKey_AllowModels k),
       APIKey_DenyModels := map id (APIKey_DenyModels k),
       APIKey_Limits := map_option id (APIKey_Limits k)\<rparr>"

section \<open>The store interface\<close>

datatype FlushStep = StepMarshal | StepCreateTemp | StepChmod | StepWrite | StepClose | StepRename

datatype StoreError =
    ErrNotFound
  | ErrEmptyPath
  | ErrCreateDir
  | ErrRead
  | ErrParse
  | ErrFlush FlushStep

record 's StoreOps =
  PutAPIKey :: "APIKey \<Rightarrow> 's \<Rightarrow> StoreError option \<times> 's"
  GetAPIKey :: "string \<Rightarrow> 's \<Rightarrow> StoreError + APIKey"
  ListAPIKeys :: "'s \<Rightarrow> APIKey list"
  DeleteAPIKey :: "string \<Rightarrow> 's \<Rightarrow> StoreError option \<times> 's"

section \<open>In-memory store\<close>

record Memory =
  Memory_keys :: "(string, APIKey) gomap"

definition NewMemory :: Memory where
  "NewMemory = \<lparr>Memory_keys = []\<rparr>"

definition Memory_PutAPIKey :: "APIKey \<Rightarrow> Memory \<Rightarrow> StoreError option \<times> Memory" where
  "Memory_PutAPIKey key m =
     (None, m\<lparr>Memory_keys := AList.update (APIKey_ID key) (cloneAPIKey key) (Memory_keys m)\<rparr>)"

definition Memory_GetAPIKey :: "string \<Rightarrow> Memory \<Rightarrow> StoreError + APIKey" where
  "Memory_GetAPIKey i m =
     (case map_of (Memory_keys m) i of
        None \<Rightarrow> Inl ErrNotFound
      | Some k \<Rightarrow> Inr (cloneAPIKey k))"

definition Memory_ListAPIKeys :: "Memory \<Rightarrow> APIKey list" where
  "Memory_ListAPIKeys m = map (\<lambda>e. cloneAPIKey (snd e)) (Memory_keys m)"

definition Memory_DeleteAPIKey :: "string \<Rightarrow> Memory \<Rightarrow> StoreError option \<times> Memory" where
  "Memory_DeleteAPIKey i m = (None, m\<lparr>Memory_keys := AList.delete i (Memory_keys m)\<rparr>)"

definition Memory_ops :: "Memory StoreOps" where
  "Memory_ops = \<lparr>PutAPIKey = Memory_PutAPIKey, GetAPIKey = Memory_GetAPIKey,
     ListAPIKeys = Memory_ListAPIKeys, DeleteAPIKey = Memory_DeleteAPIKey\<rparr>"

section \<open>File store\<close>

datatype FileContent = FileMissing | FileUnreadable | FileEmpty | FileMalformed | FileRecords "APIKey list"

record File =
  File_path :: string
  File_keys :: "(string, APIKey) gomap"
  File_disk :: FileContent
  File_faults :: "FlushStep option list"

definition File_load :: "File \<Rightarrow> StoreError option \<times> File" where
  "File_load f =
     (case File_disk f of
        FileMissing \<Rightarrow> (None, f)
      | FileUnreadable \<Rightarrow> (Some ErrRead, f)
      | FileEmpty \<Rightarrow> (None, f)
      | FileMalformed \<Rightarrow> (Some ErrParse, f)
      | FileRecords records \<Rightarrow>
          (None, f\<lparr>File_keys := foldl (\<lambda>m k. AList.update (APIKey_ID k) k m) (File_keys f) records\<rparr>))"

definition NewFile ::
  "string \<Rightarrow> bool \<Rightarrow> FileContent \<Rightarrow> FlushStep option list \<Rightarrow> StoreError + File" where
  "NewFile path mkdirOK disk faults =
     (if path = [] then Inl ErrEmptyPath
      else if \<not> mkdirOK then Inl ErrCreateDir
      else case File_load \<lparr>File_path = path, File_keys = [], File_disk = disk, File_faults = faults\<rparr> of
          (Some err, _) \<Rightarrow> Inl err
        | (None, f) \<Rightarrow> Inr f)"

definition File_flush :: "File \<Rightarrow> StoreError option \<times> File" where
  "File_flush f =
     (let records = map snd (File_keys f);
          f' = f\<lparr>File_faults := tl (File_faults f)\<rparr>
      in case File_faults f of
           Some step # _ \<Rightarrow> (Some (ErrFlush step), f')
         | _ \<Rightarrow> (None, f'\<lparr>File_disk := FileRecords records\<rparr>))"

definition File_PutAPIKey :: "APIKey \<Rightarrow> File \<Rightarrow> StoreError option \<times> File" where
  "File_PutAPIKey key f =
     File_flush (f\<lparr>File_keys := AList.update (APIKey_ID key) (cloneAPIKey key) (File_keys f)\<rparr>)"

definition File_GetAPIKey :: "string \<Rightarrow> File \<Rightarrow> StoreError + APIKey" where
  "File_GetAPIKey i f =
     (case map_of (File_keys f) i of
        None \<Rightarrow> Inl ErrNotFound
      | Some k \<Rightarrow> Inr (cloneAPIKey k))"

definition File_ListAPIKeys :: "File \<Rightarrow> APIKey list" where
  "File_ListAPIKeys f = map (\<lambda>e. cloneAPIKey (snd e)) (File_keys f)"

definition File_DeleteAPIKey :: "string \<Rightarrow> File \<Rightarrow> StoreError option \<times> File" where
  "File_DeleteAPIKey i f =
     (if map_of (File_keys f) i = None then (None, f)
      else File_flush (f\<lparr>File_keys := AList.delete i (File_keys f)\<rparr>))"

definition File_ops :: "File StoreOps" where
  "File_ops = \<lparr>PutAPIKey = File_PutAPIKey, GetAPIKey = File_GetAPIKey,
     ListAPIKeys = File_ListAPIKeys, DeleteAPIKey = File_DeleteAPIKey\<rparr>"

section \<open>The contract of a store\<close>

definition get_key :: "'s StoreOps \<Rightarrow> 's \<Rightarrow> string \<Rightarrow> APIKey option" where
  "get_key ops s i = (case GetAPIKey ops i s of Inl _ \<Rightarrow> None | Inr k \<Rightarrow> Some k)"

text \<open>A sequence of writes by a client, and its effect on a finite map.\<close>

datatype StoreOp = OpPut APIKey | OpDelete string

fun run_store :: "'s StoreOps \<Rightarrow> StoreOp list \<Rightarrow> 's \<Rightarrow> 's" where
  "run_store ops [] s = s"
| "run_store ops (x # xs) s =
     run_store ops xs (case x of OpPut k \<Rightarrow> snd (PutAPIKey ops k s) | OpDelete i \<Rightarrow> snd (DeleteAPIKey ops i s))"

fun apply_store :: "StoreOp list \<Rightarrow> (string \<rightharpoonup> APIKey) \<Rightarrow> (string \<rightharpoonup> APIKey)" where
  "apply_store [] m = m"
| "apply_store (x # xs) m =
     apply_store xs (case x of OpPut k \<Rightarrow> m(APIKey_ID k \<mapsto> k) | OpDelete i \<Rightarrow> m(i := None))"

text \<open>
  A write takes effect for the readers of the process even when it reports an error: the file
  store changes its key set before it flushes.
\<close>

locale key_store =
  fixes ops :: "'s StoreOps" and inv :: "'s \<Rightarrow> bool"
  assumes inv_put: "inv s \<Longrightarrow> inv (snd (PutAPIKey ops k s))"
    and inv_delete: "inv s \<Longrightarrow> inv (snd (DeleteAPIKey ops i s))"
    and get_put: "inv s \<Longrightarrow>
      get_key ops (snd (PutAPIKey ops k s)) i = (if i = APIKey_ID k then Some k else get_key ops s i)"
    and get_delete: "inv s \<Longrightarrow>
      get_key ops (snd (DeleteAPIKey ops j s)) i = (if i = j then None else get_key ops s i)"
    and get_error: "GetAPIKey ops i s = Inl e \<Longrightarrow> e = ErrNotFound"
    and get_id: "inv s \<Longrightarrow> get_key ops s i = Some k \<Longrightarrow> APIKey_ID k = i"
    and list_iff: "inv s \<Longrightarrow> k \<in> set (ListAPIKeys ops s) \<longleftrightarrow> get_key ops s (APIKey_ID k) = Some k"
begin

lemma run_store_inv: "inv s \<Longrightarrow> inv (run_store ops xs s)"
  by (induction xs arbitrary: s) (auto simp: inv_put inv_delete split: StoreOp.splits)

lemma get_run_store: "inv s \<Longrightarrow> get_key ops (run_store ops xs s) i = apply_store xs (get_key ops s) i"
proof (induction xs arbitrary: s)
  case Nil
  then show ?case by simp
next
  case (Cons x xs)
  show ?case
  proof (cases x)
    case (OpPut k)
    have upd: "get_key ops (snd (PutAPIKey ops k s)) = (get_key ops s)(APIKey_ID k \<mapsto> k)"
      using Cons.prems by (simp add: fun_eq_iff get_put)
    from Cons.IH [OF inv_put [OF Cons.prems, of k]] show ?thesis
      unfolding OpPut upd by (simp add: fun_upd_def)
  next
    case (OpDelete j)
    have upd: "get_key ops (snd (DeleteAPIKey ops j s)) = (get_key ops s)(j := None)"
      using Cons.prems by (simp add: fun_eq_iff get_delete)
    from Cons.IH [OF inv_delete [OF Cons.prems, of j]] show ?thesis
      unfolding OpDelete upd by (simp add: fun_upd_def)
  qed
qed

lemma list_put: "inv s \<Longrightarrow> set (ListAPIKeys ops (snd (PutAPIKey ops k s))) =
  insert k {k' \<in> set (ListAPIKeys ops s). APIKey_ID k' \<noteq> APIKey_ID k}"
  by (auto simp: list_iff inv_put get_put split: if_splits)

lemma list_delete: "inv s \<Longrightarrow> set (ListAPIKeys ops (snd (DeleteAPIKey ops i s))) =
  {k \<in> set (ListAPIKeys ops s). APIKey_ID k \<noteq> i}"
  by (auto simp: list_iff inv_delete get_delete split: if_splits)

end

named_theorems store_simps \<open>the stores' operations and the interface that names them\<close>

lemma cloneAPIKey_id [simp]: "cloneAPIKey k = k"
  by (simp add: cloneAPIKey_def option.map_id)

lemmas [store_simps] = get_key_def
  Memory_ops_def Memory_PutAPIKey_def Memory_GetAPIKey_def Memory_ListAPIKeys_def Memory_DeleteAPIKey_def
  File_ops_def File_PutAPIKey_def File_GetAPIKey_def File_ListAPIKeys_def File_DeleteAPIKey_def

definition keys_inv :: "(string, APIKey) gomap \<Rightarrow> bool" where
  "keys_inv m \<longleftrightarrow> gomap_wf m \<and> (\<forall>e\<in>set m. APIKey_ID (snd e) = fst e)"

definition Memory_inv :: "Memory \<Rightarrow> bool" where
  "Memory_inv m \<longleftrightarrow> keys_inv (Memory_keys m)"

definition File_inv :: "File \<Rightarrow> bool" where
  "File_inv f \<longleftrightarrow> keys_inv (File_keys f)"

lemma keys_inv_iff:
  "keys_inv m \<longleftrightarrow> gomap_wf m \<and> (\<forall>i k. map_of m i = Some k \<longrightarrow> APIKey_ID k = i)"
  using gomap_ball_iff [of m "\<lambda>i k. APIKey_ID k = i"] by (auto simp: keys_inv_def)

lemma keys_inv_Nil [simp]: "keys_inv []"
  by (simp add: keys_inv_def)

lemma keys_inv_update [simp]: "keys_inv m \<Longrightarrow> keys_inv (AList.update (APIKey_ID k) k m)"
  by (simp add: keys_inv_iff update_conv')

lemma keys_inv_delete [simp]: "keys_inv m \<Longrightarrow> keys_inv (AList.delete i m)"
  by (simp add: keys_inv_iff delete_conv')

lemma keys_inv_values:
  "keys_inv m \<Longrightarrow> k \<in> snd ` set m \<longleftrightarrow> map_of m (APIKey_ID k) = Some k"
  by (force simp: keys_inv_def gomap_mem_iff [symmetric] image_iff)

lemma File_flush_keys [simp]: "File_keys (snd (File_flush f)) = File_keys f"
  by (simp add: File_flush_def Let_def split: list.splits option.splits)

interpretation mem_store: key_store Memory_ops Memory_inv
proof unfold_locales
  fix s :: Memory and k
  assume "Memory_inv s"
  then show "k \<in> set (ListAPIKeys Memory_ops s) \<longleftrightarrow> get_key Memory_ops s (APIKey_ID k) = Some k"
    using keys_inv_values [of "Memory_keys s" k]
    by (auto simp: Memory_inv_def store_simps split: option.splits)
qed (auto simp: Memory_inv_def store_simps update_conv' delete_conv' keys_inv_iff
  split: option.splits if_splits)

interpretation file_store: key_store File_ops File_inv
proof unfold_locales
  fix s :: File and k
  assume "File_inv s"
  then show "k \<in> set (ListAPIKeys File_ops s) \<longleftrightarrow> get_key File_ops s (APIKey_ID k) = Some k"
    using keys_inv_values [of "File_keys s" k]
    by (auto simp: File_inv_def store_simps split: option.splits)
qed (auto simp: File_inv_def store_simps update_conv' delete_conv' keys_inv_iff
  split: option.splits if_splits)

section \<open>Durability of the file store\<close>

text \<open>The keys a file holds, later records winning over earlier ones.\<close>

definition disk_lookup :: "FileContent \<Rightarrow> string \<Rightarrow> APIKey option" where
  "disk_lookup d i =
     (case d of
        FileRecords records \<Rightarrow> map_of (rev (map (\<lambda>k. (APIKey_ID k, k)) records)) i
      | _ \<Rightarrow> None)"

definition synced :: "File \<Rightarrow> bool" where
  "synced f \<longleftrightarrow> File_inv f \<and> disk_lookup (File_disk f) = map_of (File_keys f) \<and>
     File_disk f \<noteq> FileUnreadable \<and> File_disk f \<noteq> FileMalformed"

lemma load_lookup:
  "map_of (foldl (\<lambda>m k. AList.update (APIKey_ID k) k m) m records) i =
     (case map_of (rev (map (\<lambda>k. (APIKey_ID k, k)) records)) i of
        None \<Rightarrow> map_of m i | Some k \<Rightarrow> Some k)"
  by (induction records arbitrary: m)
    (auto simp: update_conv' map_add_def split: option.splits)

lemma load_keys_inv:
  "keys_inv m \<Longrightarrow> keys_inv (foldl (\<lambda>m k. AList.update (APIKey_ID k) k m) m records)"
  by (induction records arbitrary: m) auto

lemma records_lookup:
  assumes "keys_inv m"
  shows "map_of (rev (map (\<lambda>k. (APIKey_ID k, k)) (map snd m))) = map_of m"
proof -
  have "map (\<lambda>k. (APIKey_ID k, k)) (map snd m) = m"
    unfolding map_map using assms by (intro map_idI) (auto simp: keys_inv_def)
  moreover have "map_of (rev m) = map_of m"
    using assms by (subst map_of_inject_set) (auto simp: keys_inv_def gomap_wf_def rev_map [symmetric])
  ultimately show ?thesis by simp
qed

text \<open>Opening a file yields a store in step with it, unless it cannot be read.\<close>

lemma NewFile_synced: "NewFile path ok d fs = Inr f \<Longrightarrow> synced f"
  by (auto simp: NewFile_def File_load_def synced_def File_inv_def disk_lookup_def load_lookup
      load_keys_inv fun_eq_iff split: if_splits FileContent.splits option.splits prod.splits)

lemma flush_synced:
  assumes "keys_inv (File_keys f)" and "File_flush f = (None, f')"
  shows "synced f'"
  using assms records_lookup [OF assms(1)]
  by (auto simp: File_flush_def Let_def synced_def File_inv_def disk_lookup_def
      split: list.splits option.splits)

lemma flush_error: "File_flush f = (Some e, f') \<Longrightarrow> File_disk f' = File_disk f"
  by (auto simp: File_flush_def Let_def split: list.splits option.splits)

lemma reopen:
  assumes "synced f" and "path \<noteq> []"
  shows "\<exists>g. NewFile path True (File_disk f) fs = Inr g \<and> (\<forall>i. get_key File_ops g i = get_key File_ops f i)"
proof -
  obtain g where g: "NewFile path True (File_disk f) fs = Inr g"
    using assms by (cases "File_disk f") (auto simp: NewFile_def File_load_def synced_def)
  have "File_disk g = File_disk f"
    using g by (auto simp: NewFile_def File_load_def
        split: if_splits FileContent.splits option.splits prod.splits)
  then have "map_of (File_keys g) = map_of (File_keys f)"
    using assms(1) NewFile_synced [OF g] by (simp add: synced_def)
  with g show ?thesis by (auto simp: store_simps)
qed

section \<open>Properties\<close>


text \<open>
  The two backends are interchangeable: after the same sequence of writes a fresh in-memory
  store and a fresh file store answer every lookup alike, whatever writes to disk failed.
\<close>

theorem stores_agree:
  assumes "NewFile path True FileMissing faults = Inr f"
  shows "get_key File_ops (run_store File_ops xs f) i = get_key Memory_ops (run_store Memory_ops xs NewMemory) i"
proof -
  have "File_inv f" "get_key File_ops f = (\<lambda>i. None)"
    using assms by (auto simp: NewFile_def File_load_def File_inv_def store_simps split: if_splits)
  moreover have "Memory_inv NewMemory" "get_key Memory_ops NewMemory = (\<lambda>i. None)"
    by (auto simp: NewMemory_def Memory_inv_def store_simps)
  ultimately show ?thesis
    by (simp add: file_store.get_run_store mem_store.get_run_store)
qed

section \<open>Witnesses\<close>

definition wit_key :: APIKey where
  "wit_key = zero_APIKey\<lparr>APIKey_ID := ''id1'', APIKey_Roles := [''user'']\<rparr>"

definition wit_file :: "FlushStep option list \<Rightarrow> File" where
  "wit_file fs = \<lparr>File_path = ''p'', File_keys = [], File_disk = FileMissing, File_faults = fs\<rparr>"

lemma wit_file_synced: "synced (wit_file fs)"
  by (simp add: wit_file_def synced_def File_inv_def disk_lookup_def fun_eq_iff)


theorem stores_agree_witness:
  "get_key File_ops (run_store File_ops [OpPut wit_key] (wit_file [Some StepWrite])) ''id1'' =
   get_key Memory_ops (run_store Memory_ops [OpPut wit_key] NewMemory) ''id1''"
proof -
  have "NewFile ''p'' True FileMissing [Some StepWrite] = Inr (wit_file [Some StepWrite])"
    by (simp add: NewFile_def File_load_def wit_file_def)
  then show ?thesis by (rule stores_agree)
qed

end
