(* ===== verification/Authz.thy ===== *)
theory Authz
  imports Key_Store
begin

text \<open>
  The authorization engine, \<^verbatim>\<open>internal/authz/authz.go\<close>: the precedence ladder \<open>decide\<close>, the audited
  \<open>Authorize\<close>, the admin-API scopes and the table of assignable roles. The audit log is a value: each
  \<open>Authorize\<close> returns the record it writes.
\<close>

section \<open>Actions, roles and scopes\<close>

datatype Action = Pull | Load | Infer

fun Action_op :: "Action \<Rightarrow> string" where
  "Action_op Pull = ''pull''"
| "Action_op Load = ''load''"
| "Action_op Infer = ''infer''"

definition RoleAdmin :: string where "RoleAdmin = ''admin''"
definition RoleUser :: string where "RoleUser = ''user''"
definition RoleReadOnly :: string where "RoleReadOnly = ''read-only''"

definition allScopes :: "string list" where
  "allScopes =
     [''config:read'', ''config:write'', ''workers:read'', ''workers:write'', ''models:read'',
      ''models:write'', ''keys:read'', ''keys:write'', ''logs:read'', ''logs:write'',
      ''telemetry:read'', ''telemetry:write'', ''audit:read'', ''audit:write'']"

primrec contains :: "string list \<Rightarrow> string \<Rightarrow> bool" where
  "contains [] s = False"
| "contains (x # xs) s = (if x = s then True else contains xs s)"

definition ValidScope :: "string \<Rightarrow> bool" where
  "ValidScope scope = (scope \<in> set allScopes)"

definition AllScopes :: "string list" where
  "AllScopes = sort allScopes"

definition HasScope :: "APIKey \<Rightarrow> string \<Rightarrow> bool" where
  "HasScope key scope =
     (if contains (APIKey_Roles key) RoleAdmin then True else contains (APIKey_AdminScopes key) scope)"

record RoleInfo =
  RoleInfo_Name :: string
  RoleInfo_Description :: string
  RoleInfo_InferenceActions :: "string list"
  RoleInfo_ModelScope :: string
  RoleInfo_GrantsAllAdminScopes :: bool

definition ModelScopeAll :: string where "ModelScopeAll = ''all''"
definition ModelScopeAllowListed :: string where "ModelScopeAllowListed = ''allow-listed''"

definition allRoles :: "RoleInfo list" where
  "allRoles =
     [\<lparr>RoleInfo_Name = RoleAdmin,
       RoleInfo_Description =
         ''Superuser: every inference action on every model (ignoring allow/deny) and every admin scope.'',
       RoleInfo_InferenceActions = [Action_op Pull, Action_op Load, Action_op Infer],
       RoleInfo_ModelScope = ModelScopeAll, RoleInfo_GrantsAllAdminScopes = True\<rparr>,
      \<lparr>RoleInfo_Name = RoleUser,
       RoleInfo_Description = ''Pull, load, and infer, but only on allow-listed models (deny-list wins).'',
       RoleInfo_InferenceActions = [Action_op Pull, Action_op Load, Action_op Infer],
       RoleInfo_ModelScope = ModelScopeAllowListed, RoleInfo_GrantsAllAdminScopes = False\<rparr>,
      \<lparr>RoleInfo_Name = RoleReadOnly,
       RoleInfo_Description = ''Infer only (never pull or load), on allow-listed models (deny-list wins).'',
       RoleInfo_InferenceActions = [Action_op Infer],
       RoleInfo_ModelScope = ModelScopeAllowListed, RoleInfo_GrantsAllAdminScopes = False\<rparr>]"

definition AllRoles :: "RoleInfo list" where
  "AllRoles = map (\<lambda>r. r\<lparr>RoleInfo_InferenceActions := map id (RoleInfo_InferenceActions r)\<rparr>) allRoles"

definition ValidRole :: "string \<Rightarrow> bool" where
  "ValidRole name = list_ex (\<lambda>r. RoleInfo_Name r = name) allRoles"

section \<open>Decisions\<close>

definition decide :: "APIKey \<Rightarrow> string \<Rightarrow> Action \<Rightarrow> string \<times> string \<times> bool" where
  "decide key model action =
     (if contains (APIKey_DenyModels key) model then ([], ''model in deny-list'', False)
      else if contains (APIKey_Roles key) RoleAdmin then (RoleAdmin, ''role admin'', True)
      else if contains (APIKey_Roles key) RoleReadOnly \<and> (action = Pull \<or> action = Load)
      then (RoleReadOnly, ''role read-only forbids '' @ Action_op action, False)
      else if contains (APIKey_AllowModels key) model then
        (if contains (APIKey_Roles key) RoleUser
         then (RoleUser, ''model in allow-list (role user)'', True)
         else if contains (APIKey_Roles key) RoleReadOnly
         then (RoleReadOnly, ''model in allow-list (role read-only)'', True)
         else ([], ''model in allow-list but no granting role'', False))
      else ([], ''deny by default'', False))"

datatype AuthzError = ErrForbidden
datatype LogLevel = LevelInfo | LevelWarn

record AuditRecord =
  Audit_level :: LogLevel
  Audit_result :: string
  Audit_key_id :: string
  Audit_model :: string
  Audit_op :: string
  Audit_reason :: string
  Audit_role :: "string option"

definition audit ::
  "LogLevel \<Rightarrow> string \<Rightarrow> string \<Rightarrow> string \<Rightarrow> Action \<Rightarrow> string \<Rightarrow> string \<Rightarrow> AuditRecord" where
  "audit level result keyID model action reason role =
     \<lparr>Audit_level = level, Audit_result = result, Audit_key_id = keyID, Audit_model = model,
      Audit_op = Action_op action, Audit_reason = reason,
      Audit_role = (if role \<noteq> [] then Some role else None)\<rparr>"

definition Authorize :: "APIKey \<Rightarrow> string \<Rightarrow> Action \<Rightarrow> AuthzError option \<times> AuditRecord" where
  "Authorize key model action =
     (let (role, reason, allowed) = decide key model action
      in if allowed
         then (None, audit LevelInfo ''granted'' (APIKey_ID key) model action reason role)
         else (Some ErrForbidden, audit LevelWarn ''denied'' (APIKey_ID key) model action reason role))"

section \<open>Lemmas\<close>

lemma contains_iff [simp]: "contains xs s \<longleftrightarrow> s \<in> set xs"
  by (induction xs) auto

lemma role_distinct [simp]:
  "RoleAdmin \<noteq> RoleUser" "RoleAdmin \<noteq> RoleReadOnly" "RoleUser \<noteq> RoleReadOnly"
  "RoleUser \<noteq> RoleAdmin" "RoleReadOnly \<noteq> RoleAdmin" "RoleReadOnly \<noteq> RoleUser"
  by (simp_all add: RoleAdmin_def RoleUser_def RoleReadOnly_def)

lemma Authorize_iff:
  "fst (Authorize key model action) = None \<longleftrightarrow>
     model \<notin> set (APIKey_DenyModels key) \<and>
     (RoleAdmin \<in> set (APIKey_Roles key) \<or>
      model \<in> set (APIKey_AllowModels key) \<and>
      (if RoleReadOnly \<in> set (APIKey_Roles key) then action = Infer
       else RoleUser \<in> set (APIKey_Roles key)))"
  by (cases action) (auto simp: Authorize_def decide_def Let_def)

lemma Authorize_error: "fst (Authorize key model action) \<noteq> None \<Longrightarrow> fst (Authorize key model action) = Some ErrForbidden"
  by (metis AuthzError.exhaust not_None_eq)

lemma sorted_AllScopes: "sorted AllScopes \<and> distinct AllScopes"
  by code_simp

section \<open>Properties\<close>

text \<open>
  C27. The decision of \<open>Authorize\<close>, in full: an action on a model is granted exactly when the model is
  not on the key's deny-list and the key is an admin, or the model is on its allow-list and the
  key holds a role that grants the action, where a read-only role restricts the key to inference
  even beside the user role. Deny wins over every role, admin included.
\<close>

theorem Authorize_spec:
  "(fst (Authorize key model action) = None \<longleftrightarrow>
      model \<notin> set (APIKey_DenyModels key) \<and>
      (RoleAdmin \<in> set (APIKey_Roles key) \<or>
       model \<in> set (APIKey_AllowModels key) \<and>
       (if RoleReadOnly \<in> set (APIKey_Roles key) then action = Infer
        else RoleUser \<in> set (APIKey_Roles key)))) \<and>
   Audit_result (snd (Authorize key model action)) =
     (if fst (Authorize key model action) = None then ''granted'' else ''denied'') \<and>
   Audit_key_id (snd (Authorize key model action)) = APIKey_ID key"
  unfolding Authorize_iff
  by (cases action) (auto simp: Authorize_def decide_def Let_def audit_def)

text \<open>
  The published role table is the engine's behaviour: for a key holding exactly one of the roles
  of \<open>AllRoles\<close>, an action on a model that is allow-listed and not deny-listed is granted exactly
  when the role lists its operation; on a model that is on neither list, exactly when moreover the
  role's model scope is \<open>all\<close>; and the role grants every admin scope exactly when the table says so.
\<close>

theorem AllRoles_match_decide:
  assumes "r \<in> set AllRoles" and "APIKey_Roles key = [RoleInfo_Name r]"
    and "model \<notin> set (APIKey_DenyModels key)"
  shows "(fst (Authorize key model action) = None \<longleftrightarrow>
      Action_op action \<in> set (RoleInfo_InferenceActions r) \<and>
      (RoleInfo_ModelScope r = ModelScopeAll \<or> model \<in> set (APIKey_AllowModels key))) \<and>
    (APIKey_AdminScopes key = [] \<longrightarrow> (HasScope key s \<longleftrightarrow> RoleInfo_GrantsAllAdminScopes r))"
proof -
  have "r = AllRoles ! 0 \<or> r = AllRoles ! 1 \<or> r = AllRoles ! 2"
    using assms(1) by (simp add: AllRoles_def allRoles_def)
  then show ?thesis
    using assms(2,3)
    by (cases action; elim disjE)
      (simp_all add: Authorize_iff AllRoles_def allRoles_def ModelScopeAll_def
        ModelScopeAllowListed_def HasScope_def)
qed

text \<open>
  \<open>AllScopes\<close> enumerates the scope vocabulary: it is sorted, without repetitions, has the fourteen
  read and write scopes of the seven resources, and holds exactly the strings \<open>ValidScope\<close> accepts;
  an admin key has every scope, any other key exactly those it lists.
\<close>

theorem AllScopes_complete:
  "sorted AllScopes \<and> distinct AllScopes \<and> length AllScopes = 14 \<and>
   (ValidScope s \<longleftrightarrow> s \<in> set AllScopes) \<and>
   (HasScope key s \<longleftrightarrow> RoleAdmin \<in> set (APIKey_Roles key) \<or> s \<in> set (APIKey_AdminScopes key))"
  using sorted_AllScopes
  by (auto simp: AllScopes_def ValidScope_def HasScope_def) (simp add: allScopes_def)

section \<open>Witnesses\<close>

theorem AllRoles_match_decide_witness:
  "\<not> fst (Authorize (wit_key\<lparr>APIKey_Roles := [RoleReadOnly], APIKey_AllowModels := [''m'']\<rparr>) ''m'' Pull) = None"
proof -
  let ?r = "AllRoles ! 2" and ?k = "wit_key\<lparr>APIKey_Roles := [RoleReadOnly], APIKey_AllowModels := [''m'']\<rparr>"
  have "?r \<in> set AllRoles" "APIKey_Roles ?k = [RoleInfo_Name ?r]" "''m'' \<notin> set (APIKey_DenyModels ?k)"
    by (simp_all add: AllRoles_def allRoles_def wit_key_def zero_APIKey_def)
  from AllRoles_match_decide [OF this, of Pull] show ?thesis
    by (simp add: AllRoles_def allRoles_def)
qed

end
