(* ===== verification/Scheduler.thy ===== *)
theory Scheduler
  imports Job_Queue Authz
begin

text \<open>
  Placement, \<^verbatim>\<open>internal/scheduler/scheduler.go\<close>: \<open>Score\<close> is computed on signed 64-bit words as in the
  source and shown not to overflow for any worker; \<open>PickPreferring\<close> indexes the runnable workers by
  id, sorts the ids and keeps the first maximum. The main theorem characterises the choice by its
  optimality alone, from which the order of the input drops out.
\<close>

section \<open>Definitions\<close>

type_synonym int64 = "64 word"

definition weightModelLoaded :: int64 where "weightModelLoaded = 1000000000"
definition freeVRAMUnit :: uint64 where "freeVRAMUnit = push_bit 30 1"
definition weightFreeVRAMPerGiB :: int64 where "weightFreeVRAMPerGiB = 10000"
definition weightLoadPenalty :: int64 where "weightLoadPenalty = 50"
definition weightActiveJobPenalty :: int64 where "weightActiveJobPenalty = 1"
definition weightBoundWorkerBonus :: int64 where "weightBoundWorkerBonus = 100000000"

definition zero_Worker :: Worker where
  "zero_Worker = \<lparr>Worker_ID = [], Worker_Models = [], Worker_LastSeen = zero_time, Worker_ActiveJobs = 0,
     Worker_TotalVRAM = 0, Worker_FreeVRAM = 0, Worker_Load = 0, Worker_GPUType = [],
     Worker_Status = WorkerOnline, Worker_RegisteredAt = zero_time\<rparr>"

definition hasModel :: "Worker \<Rightarrow> string \<Rightarrow> bool" where
  "hasModel w model = list_ex (\<lambda>m. Model_Name m = model) (Worker_Models w)"

definition runnable :: "Worker \<Rightarrow> string \<Rightarrow> bool" where
  "runnable w model =
     (if Worker_Status w \<noteq> WorkerOnline then False
      else if hasModel w model then True
      else Worker_FreeVRAM w > 0)"

definition Score :: "Worker \<Rightarrow> string \<Rightarrow> int64" where
  "Score w model =
     (let score = 0;
          score = (if hasModel w model then score + weightModelLoaded else score);
          score = score + (Worker_FreeVRAM w div freeVRAMUnit) * weightFreeVRAMPerGiB;
          score = score - ucast (Worker_Load w) * weightLoadPenalty;
          score = score - ucast (Worker_ActiveJobs w) * weightActiveJobPenalty
      in score)"

fun index_candidates :: "string \<Rightarrow> Worker list \<Rightarrow> (string, Worker) gomap \<Rightarrow> string list
    \<Rightarrow> (string, Worker) gomap \<times> string list" where
  "index_candidates model [] byID ids = (byID, ids)"
| "index_candidates model (w # ws) byID ids =
     (if \<not> runnable w model then index_candidates model ws byID ids
      else index_candidates model ws (AList.update (Worker_ID w) w byID) (ids @ [Worker_ID w]))"

definition scoreFor :: "string \<Rightarrow> string \<Rightarrow> (string, Worker) gomap \<Rightarrow> string \<Rightarrow> int64" where
  "scoreFor model preferredWorkerID byID i =
     (let s = Score (gomap_get zero_Worker byID i) model
      in if preferredWorkerID \<noteq> [] \<and> i = preferredWorkerID then s + weightBoundWorkerBonus else s)"

fun best_of :: "('a \<Rightarrow> int64) \<Rightarrow> 'a list \<Rightarrow> 'a \<Rightarrow> int64 \<Rightarrow> 'a" where
  "best_of f [] bestID bestScore = bestID"
| "best_of f (i # ids) bestID bestScore =
     (if sint (f i) > sint bestScore then best_of f ids i (f i) else best_of f ids bestID bestScore)"

definition PickPreferring :: "Worker list \<Rightarrow> string \<Rightarrow> string \<Rightarrow> string option" where
  "PickPreferring workers model preferredWorkerID =
     (let (byID, ids) = index_candidates model workers [] []
      in case sort ids of
           [] \<Rightarrow> None
         | i # rest \<Rightarrow>
             Some (best_of (scoreFor model preferredWorkerID byID) rest i
               (scoreFor model preferredWorkerID byID i)))"

definition Pick :: "Worker list \<Rightarrow> string \<Rightarrow> string option" where
  "Pick workers model = PickPreferring workers model []"

primrec PriorityForRoles_loop :: "int \<Rightarrow> string list \<Rightarrow> int" where
  "PriorityForRoles_loop best [] = best"
| "PriorityForRoles_loop best (r # rs) =
     PriorityForRoles_loop
       (if r = RoleAdmin then (if PriorityHigh > best then PriorityHigh else best)
        else if r = RoleUser then (if PriorityNormal > best then PriorityNormal else best)
        else best) rs"

definition PriorityForRoles :: "string list \<Rightarrow> int" where
  "PriorityForRoles roles = PriorityForRoles_loop PriorityLow roles"

section \<open>Scores as integers\<close>

definition free_GiB :: "Worker \<Rightarrow> int" where
  "free_GiB w = uint (Worker_FreeVRAM w) div 2 ^ 30"

definition score_int :: "Worker \<Rightarrow> string \<Rightarrow> int" where
  "score_int w model =
     (if hasModel w model then 10 ^ 9 else 0) + free_GiB w * 10000
       - uint (Worker_Load w) * 50 - uint (Worker_ActiveJobs w)"

definition pref_score :: "string \<Rightarrow> string \<Rightarrow> Worker \<Rightarrow> int" where
  "pref_score model p w = score_int w model + (if p \<noteq> [] \<and> Worker_ID w = p then 10 ^ 8 else 0)"

lemma sint_of_int_64: "- (2 ^ 63) \<le> k \<Longrightarrow> k < 2 ^ 63 \<Longrightarrow> sint (word_of_int k :: int64) = k"
  by (simp add: signed_take_bit_int_eq_self_iff signed_of_int)

lemma free_GiB_bounds: "0 \<le> free_GiB w" "free_GiB w < 2 ^ 34"
  using uint_bounded [of "Worker_FreeVRAM w"] by (auto simp: free_GiB_def pos_imp_zdiv_nonneg_iff)

lemma Score_word: "Score w model = word_of_int (score_int w model)"
proof -
  have "uint (Worker_FreeVRAM w div freeVRAMUnit) = free_GiB w"
    by (simp add: uint_div free_GiB_def freeVRAMUnit_def)
  then have v: "Worker_FreeVRAM w div freeVRAMUnit = word_of_int (free_GiB w)"
    by (metis word_of_int_uint)
  have l: "(ucast (Worker_Load w) :: int64) = word_of_int (uint (Worker_Load w))"
    and a: "(ucast (Worker_ActiveJobs w) :: int64) = word_of_int (uint (Worker_ActiveJobs w))"
    by simp_all
  show ?thesis
    unfolding Score_def v l a
    by (simp add: Let_def score_int_def weightModelLoaded_def weightFreeVRAMPerGiB_def
        weightLoadPenalty_def weightActiveJobPenalty_def)
qed

lemma score_int_range: "- (2 ^ 62) < score_int w model" "score_int w model + 10 ^ 8 < 2 ^ 62"
proof -
  define l where "l = uint (Worker_Load w)"
  define a where "a = uint (Worker_ActiveJobs w)"
  have "0 \<le> l" "l < 2 ^ 32" "0 \<le> a" "a < 2 ^ 32"
    using uint_bounded [of "Worker_Load w"] uint_bounded [of "Worker_ActiveJobs w"]
    by (auto simp: l_def a_def)
  with free_GiB_bounds [of w]
  show "- (2 ^ 62) < score_int w model" "score_int w model + 10 ^ 8 < 2 ^ 62"
    unfolding score_int_def l_def [symmetric] a_def [symmetric] by (auto split: if_splits)
qed

lemma sint_Score: "sint (Score w model) = score_int w model"
  unfolding Score_word using score_int_range [of w model] by (intro sint_of_int_64) auto

lemma sint_scoreFor:
  assumes "gomap_get zero_Worker byID i = w" and "Worker_ID w = i"
  shows "sint (scoreFor model p byID i) = pref_score model p w"
proof -
  have "Score w model + weightBoundWorkerBonus = word_of_int (score_int w model + 10 ^ 8)"
    by (simp add: Score_word weightBoundWorkerBonus_def)
  moreover have "sint (word_of_int (score_int w model + 10 ^ 8) :: int64) = score_int w model + 10 ^ 8"
    using score_int_range [of w model] by (intro sint_of_int_64) auto
  ultimately show ?thesis
    using assms by (auto simp: scoreFor_def pref_score_def sint_Score Let_def)
qed

section \<open>The choice\<close>

lemma index_candidates_ids:
  "snd (index_candidates model ws byID ids) = ids @ map Worker_ID (filter (\<lambda>w. runnable w model) ws)"
  by (induction model ws byID ids rule: index_candidates.induct) auto

lemma index_candidates_other:
  "i \<notin> Worker_ID ` set ws \<Longrightarrow> gomap_get z (fst (index_candidates model ws byID ids)) i = gomap_get z byID i"
  by (induction model ws byID ids rule: index_candidates.induct) (auto simp: gomap_get_update)

lemma index_candidates_get:
  "distinct (map Worker_ID ws) \<Longrightarrow> w \<in> set ws \<Longrightarrow> runnable w model \<Longrightarrow>
     gomap_get z (fst (index_candidates model ws byID ids)) (Worker_ID w) = w"
  by (induction model ws byID ids rule: index_candidates.induct)
    (auto simp: index_candidates_other gomap_get_update)

text \<open>The loop keeps the first element with the greatest value.\<close>

lemma best_of_in: "best_of f ids b (f b) \<in> set (b # ids)"
  by (induction ids arbitrary: b) auto

lemma best_of_first_max:
  assumes "sorted (b # ids)" and "distinct (b # ids)" and "i \<in> set (b # ids)"
  shows "sint (f i) < sint (f (best_of f ids b (f b))) \<or>
    sint (f i) = sint (f (best_of f ids b (f b))) \<and> best_of f ids b (f b) \<le> (i :: string)"
  using assms
proof (induction ids arbitrary: b i)
  case Nil
  then show ?case by simp
next
  case (Cons j ids)
  show ?case
  proof (cases "sint (f j) > sint (f b)")
    case True
    have "k \<in> set (j # ids) \<Longrightarrow>
      sint (f k) < sint (f (best_of f ids j (f j))) \<or>
      sint (f k) = sint (f (best_of f ids j (f j))) \<and> best_of f ids j (f j) \<le> k" for k
      using Cons.IH [of j k] Cons.prems by auto
    from this [of i] this [of j] True Cons.prems(3) show ?thesis by auto
  next
    case False
    have IH: "k \<in> set (b # ids) \<Longrightarrow>
      sint (f k) < sint (f (best_of f ids b (f b))) \<or>
      sint (f k) = sint (f (best_of f ids b (f b))) \<and> best_of f ids b (f b) \<le> k" for k
      using Cons.IH [of b k] Cons.prems by auto
    from False IH [of b] IH [of i] Cons.prems show ?thesis by (auto intro: order.trans)
  qed
qed

definition better :: "string \<Rightarrow> string \<Rightarrow> Worker \<Rightarrow> Worker \<Rightarrow> bool" where
  "better model p w w' \<longleftrightarrow>
     pref_score model p w' < pref_score model p w \<or>
     pref_score model p w' = pref_score model p w \<and> Worker_ID w \<le> Worker_ID w'"

lemma better_antisym:
  "better model p w w' \<Longrightarrow> better model p w' w \<Longrightarrow> Worker_ID w = Worker_ID w'"
  by (auto simp: better_def)

lemma PickPreferring_some:
  assumes dist: "distinct (map Worker_ID ws)" and pick: "PickPreferring ws model p = Some i"
  obtains w where "w \<in> set ws" "Worker_ID w = i" "runnable w model"
    "\<And>w'. w' \<in> set ws \<Longrightarrow> runnable w' model \<Longrightarrow> better model p w w'"
proof -
  define byID where "byID = fst (index_candidates model ws [] [])"
  define cs where "cs = filter (\<lambda>w. runnable w model) ws"
  define f where "f = scoreFor model p byID"
  have ids: "index_candidates model ws [] [] = (byID, map Worker_ID cs)"
    using index_candidates_ids [of model ws "[]" "[]"] by (simp add: byID_def cs_def prod_eq_iff)
  obtain b rest where sort: "sort (map Worker_ID cs) = b # rest" and i: "i = best_of f rest b (f b)"
    using pick by (auto simp: PickPreferring_def ids f_def split: list.splits)
  have "distinct (map Worker_ID cs)" using dist by (simp add: cs_def distinct_map_filter)
  then have order: "sorted (b # rest)" "distinct (b # rest)"
    by (metis sort sorted_sort, metis sort distinct_sort)
  have set: "set (b # rest) = Worker_ID ` set cs"
    by (metis sort set_sort set_map)
  have f: "sint (f (Worker_ID w)) = pref_score model p w" if "w \<in> set cs" for w
    unfolding f_def using that dist
    by (intro sint_scoreFor) (auto simp: byID_def cs_def index_candidates_get)
  obtain w where w: "w \<in> set cs" "Worker_ID w = i"
    using best_of_in [of f rest b] unfolding set i [symmetric] by auto
  have "better model p w w'" if "w' \<in> set cs" for w'
    using best_of_first_max [OF order, of "Worker_ID w'" f] set that w f [of w'] f [of w]
    by (auto simp: better_def i)
  with w that show ?thesis by (auto simp: cs_def)
qed

lemma PickPreferring_none: "PickPreferring ws model p = None \<longleftrightarrow> (\<forall>w\<in>set ws. \<not> runnable w model)"
proof -
  have "snd (index_candidates model ws [] []) = map Worker_ID (filter (\<lambda>w. runnable w model) ws)"
    using index_candidates_ids [of model ws "[]" "[]"] by simp
  then have "PickPreferring ws model p = None \<longleftrightarrow> sort (map Worker_ID (filter (\<lambda>w. runnable w model) ws)) = []"
    by (cases "index_candidates model ws [] []") (auto simp: PickPreferring_def split: list.splits)
  then show ?thesis by (simp add: sort_Nil_iff filter_empty_conv)
qed

lemma PickPreferring_iff:
  assumes dist: "distinct (map Worker_ID ws)"
  shows "PickPreferring ws model p = Some i \<longleftrightarrow>
    (\<exists>w\<in>set ws. Worker_ID w = i \<and> runnable w model \<and>
       (\<forall>w'\<in>set ws. runnable w' model \<longrightarrow> better model p w w'))"
proof
  assume "PickPreferring ws model p = Some i"
  then show "\<exists>w\<in>set ws. Worker_ID w = i \<and> runnable w model \<and>
       (\<forall>w'\<in>set ws. runnable w' model \<longrightarrow> better model p w w')"
    using PickPreferring_some [OF dist] by metis
next
  assume "\<exists>w\<in>set ws. Worker_ID w = i \<and> runnable w model \<and>
       (\<forall>w'\<in>set ws. runnable w' model \<longrightarrow> better model p w w')"
  then obtain w where w: "w \<in> set ws" "Worker_ID w = i" "runnable w model"
    "\<And>w'. w' \<in> set ws \<Longrightarrow> runnable w' model \<Longrightarrow> better model p w w'" by blast
  then obtain j where j: "PickPreferring ws model p = Some j"
    using PickPreferring_none [of ws model p] by (cases "PickPreferring ws model p") auto
  then show "PickPreferring ws model p = Some i"
    using PickPreferring_some [OF dist j] w better_antisym by metis
qed

lemma pref_score_bounds:
  assumes "uint (Worker_Load w) \<le> 100" and "uint (Worker_ActiveJobs w) \<le> 10 ^ 6"
  shows "(if hasModel w model then 10 ^ 9 else 0) + (if p \<noteq> [] \<and> Worker_ID w = p then 10 ^ 8 else 0) - 1005000
    \<le> pref_score model p w"
  using assms free_GiB_bounds(1) [of w] by (auto simp: pref_score_def score_int_def)

lemma pref_score_le:
  "pref_score model p w \<le> (if hasModel w model then 10 ^ 9 else 0) +
     (if p \<noteq> [] \<and> Worker_ID w = p then 10 ^ 8 else 0) + free_GiB w * 10000"
proof -
  have "0 \<le> uint (Worker_Load w) * 50 + uint (Worker_ActiveJobs w)"
    by (intro add_nonneg_nonneg mult_nonneg_nonneg uint_ge_0) simp
  then show ?thesis unfolding pref_score_def score_int_def by linarith
qed

section \<open>Properties\<close>

text \<open>
  C14. Placement is optimal and deterministic: on a fleet without duplicate ids, \<open>PickPreferring\<close>
  returns an id exactly when it is that of a runnable worker whose integer score, with the affinity
  bonus, is the highest of all runnable workers, the smallest id among equals; it returns nothing
  exactly when no worker is runnable. The 64-bit score never overflows.
\<close>

theorem PickPreferring_optimal:
  assumes "distinct (map Worker_ID ws)"
  shows "(PickPreferring ws model p = Some i \<longleftrightarrow>
      (\<exists>w\<in>set ws. Worker_ID w = i \<and> runnable w model \<and>
         (\<forall>w'\<in>set ws. runnable w' model \<longrightarrow>
            pref_score model p w' < pref_score model p w \<or>
            pref_score model p w' = pref_score model p w \<and> i \<le> Worker_ID w'))) \<and>
    (PickPreferring ws model p = None \<longleftrightarrow> (\<forall>w\<in>set ws. \<not> runnable w model)) \<and>
    (\<forall>w. sint (Score w model) = score_int w model)"
  using PickPreferring_iff [OF assms, of model p i] PickPreferring_none [of ws model p]
  by (auto simp: better_def sint_Score)

text \<open>
  The choice does not depend on the order of the fleet snapshot: two snapshots with the same
  workers and no duplicate ids give the same answer.
\<close>

theorem PickPreferring_order_independent:
  assumes "set ws = set ws'" and "distinct (map Worker_ID ws)" and "distinct (map Worker_ID ws')"
  shows "PickPreferring ws model p = PickPreferring ws' model p"
proof (cases "PickPreferring ws model p")
  case None
  with assms(1) show ?thesis by (metis PickPreferring_none)
next
  case (Some i)
  then show ?thesis
    using PickPreferring_iff [OF assms(2), of model p i] PickPreferring_iff [OF assms(3), of model p i]
    unfolding assms(1) by simp
qed

text \<open>
  Affinity is a preference and not a pin: when no runnable worker has the preferred id (it is gone,
  draining, stale or out of memory, or the id is empty), \<open>PickPreferring\<close> answers as \<open>Pick\<close> does.
\<close>

theorem PickPreferring_without_candidate:
  assumes "distinct (map Worker_ID ws)" and "\<forall>w\<in>set ws. runnable w model \<longrightarrow> Worker_ID w \<noteq> p \<or> p = []"
  shows "PickPreferring ws model p = Pick ws model"
proof (cases "Pick ws model")
  case None
  then show ?thesis unfolding Pick_def by (metis PickPreferring_none)
next
  case (Some i)
  have same: "better model p w w' = better model [] w w'"
    if "w \<in> set ws" "runnable w model" "w' \<in> set ws" "runnable w' model" for w w'
    using assms(2) that by (auto simp: better_def pref_score_def)
  have "PickPreferring ws model p = Some i"
    using Some same unfolding Pick_def PickPreferring_iff [OF assms(1)] by blast
  with Some show ?thesis by simp
qed

text \<open>
  Model locality dominates: within the expected ranges (load at most 100, at most a million active
  jobs, at most 80,000 GiB free on any worker), if a runnable worker has the model loaded then the
  chosen worker has it loaded, even against the affinity bonus.
\<close>

theorem model_locality_dominates:
  assumes "distinct (map Worker_ID ws)" and "PickPreferring ws model p = Some i"
    and "\<forall>w\<in>set ws. uint (Worker_Load w) \<le> 100 \<and> uint (Worker_ActiveJobs w) \<le> 10 ^ 6 \<and> free_GiB w \<le> 80000"
    and "\<exists>w\<in>set ws. runnable w model \<and> hasModel w model"
  shows "\<exists>w\<in>set ws. Worker_ID w = i \<and> runnable w model \<and> hasModel w model"
proof -
  obtain w where w: "w \<in> set ws" "Worker_ID w = i" "runnable w model"
    "\<And>w'. w' \<in> set ws \<Longrightarrow> runnable w' model \<Longrightarrow> better model p w w'"
    using PickPreferring_some [OF assms(1,2)] by metis
  obtain v where v: "v \<in> set ws" "runnable v model" "hasModel v model" using assms(4) by blast
  have "pref_score model p v \<le> pref_score model p w" using w(4) [OF v(1,2)] by (auto simp: better_def)
  then have "hasModel w model"
    using pref_score_bounds [of v model p] pref_score_le [of model p w] assms(3) v w(1)
    by (fastforce split: if_splits)
  with w show ?thesis by blast
qed

text \<open>
  A warm bound worker is reused: within the expected ranges (load at most 100, at most a million
  active jobs, at most 9,000 GiB free on any worker), if the preferred worker is runnable and has
  the model loaded, or no runnable worker has it, the preferred worker is chosen.
\<close>

theorem bound_worker_wins:
  assumes "distinct (map Worker_ID ws)" and "v \<in> set ws" and "Worker_ID v = p" and "p \<noteq> []"
    and "runnable v model"
    and "\<forall>w\<in>set ws. uint (Worker_Load w) \<le> 100 \<and> uint (Worker_ActiveJobs w) \<le> 10 ^ 6 \<and> free_GiB w \<le> 9000"
    and "hasModel v model \<or> (\<forall>w\<in>set ws. runnable w model \<longrightarrow> \<not> hasModel w model)"
  shows "PickPreferring ws model p = Some p"
proof -
  have "pref_score model p w < pref_score model p v" if "w \<in> set ws" "runnable w model" "Worker_ID w \<noteq> p" for w
    using pref_score_bounds [of v model p] pref_score_le [of model p w] assms that
    by (fastforce split: if_splits)
  then have "better model p v w" if "w \<in> set ws" "runnable w model" for w
    using that assms(1-3) by (auto simp: better_def distinct_map inj_on_def)
  then show ?thesis
    unfolding PickPreferring_iff [OF assms(1)] using assms by blast
qed

text \<open>
  \<open>PriorityForRoles\<close> gives the highest priority any of the roles implies: high exactly for a list
  with the admin role, else normal exactly with the user role, else low.
\<close>

theorem PriorityForRoles_spec:
  "PriorityForRoles roles =
     (if RoleAdmin \<in> set roles then PriorityHigh
      else if RoleUser \<in> set roles then PriorityNormal else PriorityLow)"
proof -
  have "PriorityForRoles_loop b roles =
     (if RoleAdmin \<in> set roles then max b PriorityHigh
      else if RoleUser \<in> set roles then max b PriorityNormal else b)" for b
    by (induction roles arbitrary: b) (auto simp: PriorityHigh_def PriorityNormal_def)
  then show ?thesis
    by (simp add: PriorityForRoles_def PriorityLow_def PriorityNormal_def PriorityHigh_def)
qed

section \<open>Witnesses\<close>

definition wit_worker :: "string \<Rightarrow> string list \<Rightarrow> uint64 \<Rightarrow> Worker" where
  "wit_worker i ms gib = zero_Worker\<lparr>Worker_ID := i, Worker_Models := map (\<lambda>m. zero_Model\<lparr>Model_Name := m\<rparr>) ms,
     Worker_FreeVRAM := gib * freeVRAMUnit\<rparr>"

definition wit_fleet :: "Worker list" where
  "wit_fleet = [wit_worker ''w2'' [] 80, wit_worker ''w1'' [''llama''] 8]"

lemma wit_fleet_facts:
  "distinct (map Worker_ID wit_fleet)"
  "\<forall>w\<in>set wit_fleet. uint (Worker_Load w) \<le> 100 \<and> uint (Worker_ActiveJobs w) \<le> 10 ^ 6 \<and> free_GiB w \<le> 9000"
  by code_simp+

theorem PickPreferring_optimal_witness:
  "PickPreferring wit_fleet ''llama'' [] = Some ''w1'' \<and>
   (\<exists>w\<in>set wit_fleet. Worker_ID w = ''w1'' \<and> runnable w ''llama'')"
proof -
  have "PickPreferring wit_fleet ''llama'' [] = Some ''w1''" by code_simp
  with PickPreferring_optimal [OF wit_fleet_facts(1), of "''llama''" "[]" "''w1''"] show ?thesis by blast
qed

theorem PickPreferring_order_independent_witness:
  "PickPreferring wit_fleet ''x'' [] = PickPreferring (rev wit_fleet) ''x'' []"
  using PickPreferring_order_independent [of wit_fleet "rev wit_fleet" "''x''" "[]"] wit_fleet_facts(1)
  by (simp add: rev_map [symmetric])

theorem PickPreferring_without_candidate_witness:
  "PickPreferring wit_fleet ''x'' ''w9'' = Some ''w2''"
proof -
  have "Pick wit_fleet ''x'' = Some ''w2''"
    and "\<forall>w\<in>set wit_fleet. runnable w ''x'' \<longrightarrow> Worker_ID w \<noteq> ''w9'' \<or> ''w9'' = []" by code_simp+
  with PickPreferring_without_candidate [OF wit_fleet_facts(1)] show ?thesis by metis
qed

theorem model_locality_dominates_witness:
  "\<exists>w\<in>set wit_fleet. Worker_ID w = ''w1'' \<and> runnable w ''llama'' \<and> hasModel w ''llama''"
proof -
  have "PickPreferring wit_fleet ''llama'' ''w2'' = Some ''w1''"
    and "\<exists>w\<in>set wit_fleet. runnable w ''llama'' \<and> hasModel w ''llama''" by code_simp+
  moreover have "\<forall>w\<in>set wit_fleet. uint (Worker_Load w) \<le> 100 \<and> uint (Worker_ActiveJobs w) \<le> 10 ^ 6 \<and>
    free_GiB w \<le> 80000" using wit_fleet_facts(2) by auto
  ultimately show ?thesis using model_locality_dominates [OF wit_fleet_facts(1)] by blast
qed

theorem bound_worker_wins_witness: "PickPreferring wit_fleet ''x'' ''w1'' = Some ''w1''"
proof -
  have "wit_worker ''w1'' [''llama''] 8 \<in> set wit_fleet" by (simp add: wit_fleet_def)
  moreover have "Worker_ID (wit_worker ''w1'' [''llama''] 8) = ''w1''"
    "runnable (wit_worker ''w1'' [''llama''] 8) ''x''"
    "\<forall>w\<in>set wit_fleet. runnable w ''x'' \<longrightarrow> \<not> hasModel w ''x''" by code_simp+
  ultimately show ?thesis
    using bound_worker_wins [OF wit_fleet_facts(1) _ _ _ _ wit_fleet_facts(2)] by blast
qed

end
