(* ===== verification/Sha256.thy ===== *)
theory Sha256
  imports Prelude
begin

unbundle bit_operations_syntax

text \<open>
  SHA-256 as Go's \<^verbatim>\<open>crypto/sha256\<close> computes it (FIPS 180-4), for \<^verbatim>\<open>hashSecret\<close> of
  \<^verbatim>\<open>internal/auth/auth.go\<close>: padding, message schedule and compression on 32-bit words. The test
  vector at the end pins the constants and the byte order.
\<close>

text \<open>
  The round constants are the first 32 bits of the fractional parts of the cube roots of the first
  64 primes, the initial hash value those of the square roots of the first eight.
\<close>

definition sha_primes :: "int list" where
  "sha_primes =
     [2, 3, 5, 7, 11, 13, 17, 19, 23, 29, 31, 37, 41, 43, 47, 53, 59, 61, 67, 71, 73, 79, 83, 89,
      97, 101, 103, 107, 109, 113, 127, 131, 137, 139, 149, 151, 157, 163, 167, 173, 179, 181,
      191, 193, 197, 199, 211, 223, 227, 229, 233, 239, 241, 251, 257, 263, 269, 271, 277, 281,
      283, 293, 307, 311]"

text \<open>The largest \<open>r\<close> with \<open>r ^ k \<le> x\<close> that extends \<open>acc\<close> by \<open>n\<close> low bits.\<close>

primrec root_bits :: "nat \<Rightarrow> int \<Rightarrow> nat \<Rightarrow> int \<Rightarrow> int" where
  "root_bits k x 0 acc = acc"
| "root_bits k x (Suc n) acc = root_bits k x n (if (acc + 2 ^ n) ^ k \<le> x then acc + 2 ^ n else acc)"

definition frac_root :: "nat \<Rightarrow> int \<Rightarrow> uint32" where
  "frac_root k p = word_of_int (root_bits k (p * 2 ^ (32 * k)) 36 0)"

definition sha_K :: "uint32 list" where
  "sha_K = map (frac_root 3) sha_primes"

definition sha_H :: "uint32 list" where
  "sha_H = map (frac_root 2) (take 8 sha_primes)"

definition sha_pad :: "bytes \<Rightarrow> bytes" where
  "sha_pad m =
     m @ [0x80] @ replicate (nat ((55 - int (length m)) mod 64)) 0 @
     map (\<lambda>i. word_of_int (8 * int (length m) div 256 ^ (7 - i))) [0..<8]"

fun be32 :: "bytes \<Rightarrow> uint32 list" where
  "be32 (a # b # c # d # bs) =
     (push_bit 24 (ucast a) + push_bit 16 (ucast b) + push_bit 8 (ucast c) + ucast d) # be32 bs"
| "be32 _ = []"

definition sig0 :: "uint32 \<Rightarrow> uint32" where
  "sig0 x = word_rotr 7 x XOR word_rotr 18 x XOR drop_bit 3 x"

definition sig1 :: "uint32 \<Rightarrow> uint32" where
  "sig1 x = word_rotr 17 x XOR word_rotr 19 x XOR drop_bit 10 x"

definition Sig0 :: "uint32 \<Rightarrow> uint32" where
  "Sig0 x = word_rotr 2 x XOR word_rotr 13 x XOR word_rotr 22 x"

definition Sig1 :: "uint32 \<Rightarrow> uint32" where
  "Sig1 x = word_rotr 6 x XOR word_rotr 11 x XOR word_rotr 25 x"

text \<open>The schedule is built backwards: the newest word is at the head.\<close>

primrec sha_extend :: "nat \<Rightarrow> uint32 list \<Rightarrow> uint32 list" where
  "sha_extend 0 ws = ws"
| "sha_extend (Suc n) ws =
     sha_extend n ((sig1 (ws ! 1) + ws ! 6 + sig0 (ws ! 14) + ws ! 15) # ws)"

definition sha_schedule :: "uint32 list \<Rightarrow> uint32 list" where
  "sha_schedule block = rev (sha_extend 48 (rev block))"

fun sha_round :: "uint32 list \<Rightarrow> uint32 \<times> uint32 \<Rightarrow> uint32 list" where
  "sha_round [a, b, c, d, e, f, g, h] (k, w) =
     (let t1 = h + Sig1 e + ((e AND f) XOR (NOT e AND g)) + k + w;
          t2 = Sig0 a + ((a AND b) XOR (a AND c) XOR (b AND c))
      in [t1 + t2, a, b, c, d + t1, e, f, g])"
| "sha_round st _ = st"

definition sha_block :: "uint32 list \<Rightarrow> uint32 list \<Rightarrow> uint32 list" where
  "sha_block st block =
     map2 (+) st (foldl sha_round st (zip sha_K (sha_schedule block)))"

function sha_blocks :: "uint32 list \<Rightarrow> uint32 list \<Rightarrow> uint32 list" where
  "sha_blocks st ws =
     (if length ws < 16 then st else sha_blocks (sha_block st (take 16 ws)) (drop 16 ws))"
  by pat_completeness auto
termination
  by (relation "measure (\<lambda>(st, ws). length ws)") auto

definition sha256 :: "bytes \<Rightarrow> bytes" where
  "sha256 m =
     concat (map (\<lambda>w. [ucast (drop_bit 24 w), ucast (drop_bit 16 w), ucast (drop_bit 8 w), ucast w])
       (sha_blocks sha_H (be32 (sha_pad m))))"

declare sha_blocks.simps [simp del]

text \<open>The first test vector of FIPS 180-4: the digest of the three bytes \<open>abc\<close>.\<close>

lemma sha256_abc:
  "sha256 [0x61, 0x62, 0x63] =
     [0xba, 0x78, 0x16, 0xbf, 0x8f, 0x01, 0xcf, 0xea, 0x41, 0x41, 0x40, 0xde, 0x5d, 0xae, 0x22, 0x23,
      0xb0, 0x03, 0x61, 0xa3, 0x96, 0x17, 0x7a, 0x9c, 0xb4, 0x10, 0xff, 0x61, 0xf2, 0x00, 0x15, 0xad]"
  by code_simp

end
