(* ===== verification/Auth.thy ===== *)
theory Auth
  imports Key_Store Sha256
begin

text \<open>
  The API-key lifecycle and authentication, \<^verbatim>\<open>internal/auth/auth.go\<close>. The service holds a store behind
  the \<^verbatim>\<open>Store\<close> interface, so every operation takes a \<open>StoreOps\<close> and the store's state; it runs under
  the service mutex, so it is one function on that state. The clock readings are arguments, and the
  entropy source is the list of its coming answers: \<open>None\<close> is a failed read.

  The lemmas are proved once over the contract \<open>key_store\<close> and used for the file-backed store the
  server runs on.
\<close>

section \<open>Tokens\<close>

definition Prefix :: string where "Prefix = ''agpu''"
definition keyIDBytes :: nat where "keyIDBytes = 8"
definition secretBytes :: nat where "secretBytes = 32"
definition saltBytes :: nat where "saltBytes = 32"

text \<open>\<^verbatim>\<open>strings.SplitN\<close> with a one-character separator and a positive count.\<close>

fun SplitN :: "string \<Rightarrow> char \<Rightarrow> nat \<Rightarrow> string list" where
  "SplitN s sep (Suc (Suc n)) =
     (case dropWhile (\<lambda>c. c \<noteq> sep) s of
        [] \<Rightarrow> [s]
      | _ # rest \<Rightarrow> takeWhile (\<lambda>c. c \<noteq> sep) s # SplitN rest sep (Suc n))"
| "SplitN s sep n = [s]"

definition hexDigit :: "nat \<Rightarrow> char" where
  "hexDigit n = ''0123456789abcdef'' ! n"

definition EncodeToString :: "bytes \<Rightarrow> string" where
  "EncodeToString bs = concat (map (\<lambda>b. [hexDigit (unat b div 16), hexDigit (unat b mod 16)]) bs)"

definition formatToken :: "string \<Rightarrow> string \<Rightarrow> string" where
  "formatToken i secret = Prefix @ ''_'' @ i @ ''_'' @ secret"

definition parseToken :: "string \<Rightarrow> (string \<times> string) option" where
  "parseToken token =
     (let parts = SplitN token (CHR ''_'') 3
      in if length parts \<noteq> 3 then None
         else if parts ! 0 \<noteq> Prefix \<or> parts ! 1 = [] \<or> parts ! 2 = [] then None
         else Some (parts ! 1, parts ! 2))"

definition string_bytes :: "string \<Rightarrow> bytes" where
  "string_bytes s = map of_char s"

definition hashSecret :: "bytes \<Rightarrow> string \<Rightarrow> bytes" where
  "hashSecret salt secret = sha256 (salt @ string_bytes secret)"

text \<open>\<^verbatim>\<open>subtle.ConstantTimeCompare\<close>: the differences of all bytes are collected before the verdict.\<close>

definition ConstantTimeCompare :: "bytes \<Rightarrow> bytes \<Rightarrow> nat" where
  "ConstantTimeCompare x y =
     (if length x \<noteq> length y then 0
      else if foldl (\<lambda>v (a, b). v OR (a XOR b)) 0 (zip x y) = 0 then 1 else 0)"

section \<open>Service operations\<close>

datatype AuthError =
    ErrUnauthenticated
  | ErrRotateRevoked
  | ErrEntropy
  | ErrStore StoreError
  | ErrPersist StoreError
  | ErrLookup StoreError

record Permissions =
  Perm_Roles :: "string list"
  Perm_AdminScopes :: "string list"
  Perm_AllowModels :: "string list"
  Perm_DenyModels :: "string list"
  Perm_Owner :: string
  Perm_Team :: string
  Perm_ExpiresAt :: "gotime option"
  Perm_CreatedBy :: string

type_synonym entropy = "bytes option list"

definition randBytes :: "nat \<Rightarrow> entropy \<Rightarrow> (AuthError + bytes) \<times> entropy" where
  "randBytes n rs =
     (case rs of
        Some b # rs' \<Rightarrow> (Inr (take n (b @ replicate n 0)), rs')
      | _ \<Rightarrow> (Inl ErrEntropy, tl rs))"

definition mintSecret :: "entropy \<Rightarrow> (AuthError + string \<times> bytes \<times> bytes) \<times> entropy" where
  "mintSecret rs =
     (case randBytes secretBytes rs of
        (Inl e, rs1) \<Rightarrow> (Inl e, rs1)
      | (Inr secretBuf, rs1) \<Rightarrow>
          (case randBytes saltBytes rs1 of
             (Inl e, rs2) \<Rightarrow> (Inl e, rs2)
           | (Inr salt, rs2) \<Rightarrow>
               let secret = EncodeToString secretBuf
               in (Inr (secret, salt, hashSecret salt secret), rs2)))"

definition mint :: "entropy \<Rightarrow> (AuthError + string \<times> string \<times> bytes \<times> bytes) \<times> entropy" where
  "mint rs =
     (case randBytes keyIDBytes rs of
        (Inl e, rs1) \<Rightarrow> (Inl e, rs1)
      | (Inr idBytes, rs1) \<Rightarrow>
          (case mintSecret rs1 of
             (Inl e, rs2) \<Rightarrow> (Inl e, rs2)
           | (Inr (secret, salt, hash), rs2) \<Rightarrow>
               (Inr (EncodeToString idBytes, secret, salt, hash), rs2)))"

definition CreateWithPermissions ::
  "'s StoreOps \<Rightarrow> entropy \<Rightarrow> gotime \<Rightarrow> string \<Rightarrow> Permissions \<Rightarrow> 's \<Rightarrow> (AuthError + string \<times> APIKey) \<times> 's" where
  "CreateWithPermissions ops rs now name perms s =
     (case fst (mint rs) of
        Inl e \<Rightarrow> (Inl e, s)
      | Inr (i, secret, salt, hash) \<Rightarrow>
          let rec = zero_APIKey\<lparr>APIKey_ID := i, APIKey_Name := name, APIKey_Prefix := Prefix,
                APIKey_SecretHash := hash, APIKey_Salt := salt, APIKey_CreatedAt := now,
                APIKey_Owner := Perm_Owner perms, APIKey_Team := Perm_Team perms,
                APIKey_CreatedBy := Perm_CreatedBy perms, APIKey_Roles := Perm_Roles perms,
                APIKey_AdminScopes := Perm_AdminScopes perms,
                APIKey_AllowModels := Perm_AllowModels perms,
                APIKey_DenyModels := Perm_DenyModels perms,
                APIKey_ExpiresAt := Perm_ExpiresAt perms\<rparr>
          in case PutAPIKey ops rec s of
               (Some err, s') \<Rightarrow> (Inl (ErrPersist err), s')
             | (None, s') \<Rightarrow> (Inr (formatToken i secret, rec), s'))"

definition no_Permissions :: Permissions where
  "no_Permissions = \<lparr>Perm_Roles = [], Perm_AdminScopes = [], Perm_AllowModels = [], Perm_DenyModels = [],
     Perm_Owner = [], Perm_Team = [], Perm_ExpiresAt = None, Perm_CreatedBy = []\<rparr>"

definition Create ::
  "'s StoreOps \<Rightarrow> entropy \<Rightarrow> gotime \<Rightarrow> string \<Rightarrow> 's \<Rightarrow> (AuthError + string \<times> APIKey) \<times> 's" where
  "Create ops rs now name s = CreateWithPermissions ops rs now name no_Permissions s"

definition Revoke :: "'s StoreOps \<Rightarrow> gotime \<Rightarrow> string \<Rightarrow> 's \<Rightarrow> AuthError option \<times> 's" where
  "Revoke ops now i s =
     (case GetAPIKey ops i s of
        Inl err \<Rightarrow> (Some (ErrStore err), s)
      | Inr rec \<Rightarrow>
          if APIKey_Revoked rec then (None, s)
          else case PutAPIKey ops (rec\<lparr>APIKey_RevokedAt := Some now\<rparr>) s of
              (Some err, s') \<Rightarrow> (Some (ErrPersist err), s')
            | (None, s') \<Rightarrow> (None, s'))"

definition SetPermissions ::
  "'s StoreOps \<Rightarrow> string \<Rightarrow> Permissions \<Rightarrow> 's \<Rightarrow> (AuthError + APIKey) \<times> 's" where
  "SetPermissions ops i perms s =
     (case GetAPIKey ops i s of
        Inl err \<Rightarrow> (Inl (ErrStore err), s)
      | Inr rec \<Rightarrow>
          let rec = rec\<lparr>APIKey_Roles := Perm_Roles perms, APIKey_AdminScopes := Perm_AdminScopes perms,
                APIKey_AllowModels := Perm_AllowModels perms, APIKey_DenyModels := Perm_DenyModels perms\<rparr>
          in case PutAPIKey ops rec s of
               (Some err, s') \<Rightarrow> (Inl (ErrPersist err), s')
             | (None, s') \<Rightarrow> (Inr rec, s'))"

definition SetLimits ::
  "'s StoreOps \<Rightarrow> string \<Rightarrow> Limits option \<Rightarrow> 's \<Rightarrow> (AuthError + APIKey) \<times> 's" where
  "SetLimits ops i limits s =
     (case GetAPIKey ops i s of
        Inl err \<Rightarrow> (Inl (ErrStore err), s)
      | Inr rec \<Rightarrow>
          let rec = rec\<lparr>APIKey_Limits := limits\<rparr>
          in case PutAPIKey ops rec s of
               (Some err, s') \<Rightarrow> (Inl (ErrPersist err), s')
             | (None, s') \<Rightarrow> (Inr rec, s'))"

definition Rotate :: "'s StoreOps \<Rightarrow> entropy \<Rightarrow> string \<Rightarrow> 's \<Rightarrow> (AuthError + string) \<times> 's" where
  "Rotate ops rs i s =
     (case GetAPIKey ops i s of
        Inl err \<Rightarrow> (Inl (ErrStore err), s)
      | Inr rec \<Rightarrow>
          if APIKey_Revoked rec then (Inl ErrRotateRevoked, s)
          else case fst (mintSecret rs) of
              Inl e \<Rightarrow> (Inl e, s)
            | Inr (secret, salt, hash) \<Rightarrow>
                (case PutAPIKey ops (rec\<lparr>APIKey_SecretHash := hash, APIKey_Salt := salt\<rparr>) s of
                   (Some err, s') \<Rightarrow> (Inl (ErrPersist err), s')
                 | (None, s') \<Rightarrow> (Inr (formatToken i secret), s')))"

text \<open>\<^verbatim>\<open>Authenticate\<close> reads the clock twice, for the expiry check and for \<^verbatim>\<open>LastUsedAt\<close>.\<close>

definition Authenticate ::
  "'s StoreOps \<Rightarrow> gotime \<Rightarrow> gotime \<Rightarrow> string \<Rightarrow> 's \<Rightarrow> (AuthError + APIKey) \<times> 's" where
  "Authenticate ops now1 now2 token s =
     (case parseToken token of
        None \<Rightarrow> (Inl ErrUnauthenticated, s)
      | Some (i, secret) \<Rightarrow>
          (case GetAPIKey ops i s of
             Inl err \<Rightarrow> (if err = ErrNotFound then (Inl ErrUnauthenticated, s) else (Inl (ErrLookup err), s))
           | Inr rec \<Rightarrow>
               if ConstantTimeCompare (APIKey_SecretHash rec) (hashSecret (APIKey_Salt rec) secret) \<noteq> 1
               then (Inl ErrUnauthenticated, s)
               else if APIKey_Revoked rec then (Inl ErrUnauthenticated, s)
               else if APIKey_Expired rec now1 then (Inl ErrUnauthenticated, s)
               else
                 let rec = rec\<lparr>APIKey_UsageCount := APIKey_UsageCount rec + 1, APIKey_LastUsedAt := now2\<rparr>
                 in case PutAPIKey ops rec s of
                      (Some err, s') \<Rightarrow> (Inl (ErrPersist err), s')
                    | (None, s') \<Rightarrow> (Inr rec, s')))"

section \<open>Tokens: lemmas\<close>

lemma SplitN_3:
  "SplitN t sep 3 =
     (case dropWhile (\<lambda>c. c \<noteq> sep) t of
        [] \<Rightarrow> [t]
      | _ # r \<Rightarrow>
          takeWhile (\<lambda>c. c \<noteq> sep) t #
          (case dropWhile (\<lambda>c. c \<noteq> sep) r of
             [] \<Rightarrow> [r]
           | _ # r2 \<Rightarrow> [takeWhile (\<lambda>c. c \<noteq> sep) r, r2]))"
  by (simp add: numeral_3_eq_3 cong: list.case_cong)

lemma cut_first:
  "dropWhile (\<lambda>c. c \<noteq> sep) t = x # r \<longleftrightarrow>
     x = sep \<and> t = takeWhile (\<lambda>c. c \<noteq> sep) t @ sep # r"
  by (metis (mono_tags, lifting) append_same_eq dropWhile_eq_Cons_conv list.inject same_append_eq
      takeWhile_dropWhile_id)

lemma cut_append: "sep \<notin> set a \<Longrightarrow> dropWhile (\<lambda>c. c \<noteq> sep) (a @ sep # r) = sep # r"
  by (induction a) auto

lemma take_append: "sep \<notin> set a \<Longrightarrow> takeWhile (\<lambda>c. c \<noteq> sep) (a @ sep # r) = a"
  by (induction a) auto

lemma SplitN_formatToken:
  assumes "CHR ''_'' \<notin> set i"
  shows "SplitN (formatToken i sec) (CHR ''_'') 3 = [Prefix, i, sec]"
proof -
  have P: "CHR ''_'' \<notin> set Prefix" by (simp add: Prefix_def)
  have "formatToken i sec = Prefix @ CHR ''_'' # i @ CHR ''_'' # sec" by (simp add: formatToken_def)
  with assms show ?thesis
    by (simp only: SplitN_3 cut_append [OF P] take_append [OF P] cut_append [OF assms]
        take_append [OF assms] list.case)
qed

lemma parseToken_iff:
  "parseToken t = Some (i, sec) \<longleftrightarrow>
     t = formatToken i sec \<and> i \<noteq> [] \<and> sec \<noteq> [] \<and> CHR ''_'' \<notin> set i"
proof
  assume L: "parseToken t = Some (i, sec)"
  let ?tk = "takeWhile (\<lambda>c. c \<noteq> CHR ''_'')" and ?dr = "dropWhile (\<lambda>c. c \<noteq> CHR ''_'')"
  obtain x r where r: "?dr t = x # r"
    using L by (cases "?dr t") (auto simp: parseToken_def SplitN_3 Let_def)
  obtain y r2 where r2: "?dr r = y # r2"
    using L r by (cases "?dr r") (auto simp: parseToken_def SplitN_3 Let_def)
  have parts: "?tk t = Prefix" "?tk r = i" "r2 = sec" "i \<noteq> []" "sec \<noteq> []"
    using L r r2 by (auto simp: parseToken_def SplitN_3 Let_def split: if_splits)
  have "t = Prefix @ CHR ''_'' # r" "r = i @ CHR ''_'' # sec"
    using r r2 parts unfolding cut_first by auto
  moreover have "CHR ''_'' \<notin> set i" using parts(2) set_takeWhileD by metis
  ultimately show "t = formatToken i sec \<and> i \<noteq> [] \<and> sec \<noteq> [] \<and> CHR ''_'' \<notin> set i"
    using parts by (simp add: formatToken_def)
next
  assume R: "t = formatToken i sec \<and> i \<noteq> [] \<and> sec \<noteq> [] \<and> CHR ''_'' \<notin> set i"
  then show "parseToken t = Some (i, sec)"
    by (simp add: parseToken_def SplitN_formatToken)
qed

lemma hexDigit_no_underscore: "n < 16 \<Longrightarrow> hexDigit n \<noteq> CHR ''_''"
proof -
  have "\<forall>n<16. hexDigit n \<noteq> CHR ''_''" by code_simp
  then show "n < 16 \<Longrightarrow> hexDigit n \<noteq> CHR ''_''" by blast
qed

lemma EncodeToString_no_underscore: "CHR ''_'' \<notin> set (EncodeToString bs)"
proof -
  have "unat b div 16 < 16" "unat b mod 16 < 16" for b :: "8 word"
    using unsigned_less [of b] by (auto intro: less_mult_imp_div_less)
  then have "hexDigit (unat b div 16) \<noteq> CHR ''_''" "hexDigit (unat b mod 16) \<noteq> CHR ''_''" for b :: "8 word"
    by (simp_all add: hexDigit_no_underscore)
  then show ?thesis by (auto simp: EncodeToString_def dest!: sym [of "CHR ''_''"])
qed

lemma length_EncodeToString [simp]: "length (EncodeToString bs) = 2 * length bs"
  by (induction bs) (auto simp: EncodeToString_def)

lemma randBytes_length: "randBytes n rs = (Inr b, rs') \<Longrightarrow> length b = n"
  by (auto simp: randBytes_def split: list.splits option.splits)

lemma mintSecret_spec:
  assumes "fst (mintSecret rs) = Inr (secret, salt, hash)"
  shows "hash = hashSecret salt secret" "secret \<noteq> []" "length secret = 64" "length salt = 32"
proof -
  obtain sb rs1 where 1: "randBytes secretBytes rs = (Inr sb, rs1)" "secret = EncodeToString sb"
    and 2: "\<exists>rs2. randBytes saltBytes rs1 = (Inr salt, rs2)" and 3: "hash = hashSecret salt secret"
    using assms by (auto simp: mintSecret_def Let_def split: prod.splits sum.splits)
  show "hash = hashSecret salt secret" by (fact 3)
  show "length secret = 64" using randBytes_length [OF 1(1)] by (simp add: 1 secretBytes_def)
  then show "secret \<noteq> []" by auto
  show "length salt = 32" using 2 randBytes_length by (auto simp: saltBytes_def)
qed

lemma mint_spec:
  assumes "fst (mint rs) = Inr (i, secret, salt, hash)"
  shows "hash = hashSecret salt secret" "parseToken (formatToken i secret) = Some (i, secret)"
proof -
  obtain ib rs1 where 1: "randBytes keyIDBytes rs = (Inr ib, rs1)" "i = EncodeToString ib"
    and 2: "fst (mintSecret rs1) = Inr (secret, salt, hash)"
    using assms by (auto simp: mint_def split: prod.splits sum.splits)
  show "hash = hashSecret salt secret" using mintSecret_spec [OF 2] by simp
  have "length i = 16" using randBytes_length [OF 1(1)] by (simp add: 1 keyIDBytes_def)
  then have "i \<noteq> []" by auto
  then show "parseToken (formatToken i secret) = Some (i, secret)"
    unfolding parseToken_iff
    using mintSecret_spec [OF 2] EncodeToString_no_underscore by (simp add: 1)
qed

lemma byte_xor_eq_0: "a XOR b = 0 \<longleftrightarrow> a = (b :: 8 word)"
  by (metis xor.assoc xor.right_neutral xor_self_eq)

lemma ConstantTimeCompare_iff: "ConstantTimeCompare x y = Suc 0 \<longleftrightarrow> x = y"
proof -
  have "length x = length y \<Longrightarrow>
    foldl (\<lambda>v (a, b). v OR (a XOR b)) v (zip x y) = 0 \<longleftrightarrow> v = 0 \<and> x = y" for v
    by (induction x y arbitrary: v rule: list_induct2) (auto simp: or_eq_0_iff byte_xor_eq_0)
  then show ?thesis by (auto simp: ConstantTimeCompare_def)
qed

section \<open>What a store of keys accepts\<close>

text \<open>The key a token stands for, as a function of the stored keys.\<close>

definition authentic :: "(string \<Rightarrow> APIKey option) \<Rightarrow> gotime \<Rightarrow> string \<Rightarrow> APIKey option" where
  "authentic keys now t =
     (case parseToken t of
        None \<Rightarrow> None
      | Some (i, sec) \<Rightarrow>
          (case keys i of
             None \<Rightarrow> None
           | Some k \<Rightarrow>
               if APIKey_SecretHash k = hashSecret (APIKey_Salt k) sec \<and> \<not> APIKey_Revoked k \<and>
                  \<not> APIKey_Expired k now
               then Some k else None))"

datatype AuthOp =
    AuCreate entropy gotime string Permissions
  | AuRevoke gotime string
  | AuSetPermissions string Permissions
  | AuSetLimits string "Limits option"
  | AuRotate entropy string
  | AuAuthenticate gotime gotime string

fun auth_step :: "'s StoreOps \<Rightarrow> AuthOp \<Rightarrow> 's \<Rightarrow> 's" where
  "auth_step ops (AuCreate rs now name perms) s = snd (CreateWithPermissions ops rs now name perms s)"
| "auth_step ops (AuRevoke now i) s = snd (Revoke ops now i s)"
| "auth_step ops (AuSetPermissions i perms) s = snd (SetPermissions ops i perms s)"
| "auth_step ops (AuSetLimits i limits) s = snd (SetLimits ops i limits s)"
| "auth_step ops (AuRotate rs i) s = snd (Rotate ops rs i s)"
| "auth_step ops (AuAuthenticate now1 now2 t) s = snd (Authenticate ops now1 now2 t s)"

definition auth_run :: "'s StoreOps \<Rightarrow> AuthOp list \<Rightarrow> 's \<Rightarrow> 's" where
  "auth_run ops xs s = fold (auth_step ops) xs s"

fun mints :: "string \<Rightarrow> AuthOp \<Rightarrow> bool" where
  "mints i (AuCreate rs now name perms) = (case fst (mint rs) of Inl _ \<Rightarrow> False | Inr (j, _) \<Rightarrow> j = i)"
| "mints i _ = False"

lemma snd_put_case [simp]:
  "snd (case p of (r, s') \<Rightarrow> (case r of None \<Rightarrow> (a, s') | Some e \<Rightarrow> (f e, s'))) = snd p"
  by (simp split: prod.split option.split)

definition revoked_in :: "'s StoreOps \<Rightarrow> 's \<Rightarrow> string \<Rightarrow> bool" where
  "revoked_in ops s i = (case get_key ops s i of None \<Rightarrow> False | Some k \<Rightarrow> APIKey_Revoked k)"

lemmas auth_defs = CreateWithPermissions_def Revoke_def SetPermissions_def SetLimits_def Rotate_def

context key_store
begin

lemma GetAPIKey_eq:
  "GetAPIKey ops i s = (case get_key ops s i of None \<Rightarrow> Inl ErrNotFound | Some k \<Rightarrow> Inr k)"
  using get_error [of i s] by (auto simp: get_key_def split: sum.splits)

lemma Authenticate_eq:
  "Authenticate ops now1 now2 t s =
     (case authentic (get_key ops s) now1 t of
        None \<Rightarrow> (Inl ErrUnauthenticated, s)
      | Some k \<Rightarrow>
          let k' = k\<lparr>APIKey_UsageCount := APIKey_UsageCount k + 1, APIKey_LastUsedAt := now2\<rparr>
          in case PutAPIKey ops k' s of
               (Some err, s') \<Rightarrow> (Inl (ErrPersist err), s')
             | (None, s') \<Rightarrow> (Inr k', s'))"
  by (auto simp: Authenticate_def authentic_def GetAPIKey_eq ConstantTimeCompare_iff Let_def
      split: option.splits prod.splits)

lemma get_after_put:
  "inv s \<Longrightarrow> PutAPIKey ops k s = (r, s') \<Longrightarrow>
     inv s' \<and> get_key ops s' = (get_key ops s)(APIKey_ID k \<mapsto> k)"
  using inv_put [of s k] get_put [of s k] by (auto simp: fun_eq_iff)

lemma authentic_stored:
  "inv s \<Longrightarrow> authentic (get_key ops s) now t = Some k \<Longrightarrow>
     get_key ops s (APIKey_ID k) = Some k \<and> \<not> APIKey_Revoked k"
  using get_id [of s] by (auto simp: authentic_def split: option.splits prod.splits if_splits)

lemma auth_step_inv: "inv s \<Longrightarrow> inv (auth_step ops x s)"
  by (cases x) (simp_all add: auth_defs Authenticate_eq Let_def inv_put split: option.split sum.split prod.split)

text \<open>A revoked record stays revoked under every operation, unless its id is minted anew.\<close>

lemma revoked_in_put:
  "inv s \<Longrightarrow> revoked_in ops s i \<Longrightarrow> (APIKey_ID k = i \<longrightarrow> APIKey_Revoked k) \<Longrightarrow>
     revoked_in ops (snd (PutAPIKey ops k s)) i"
  by (auto simp: revoked_in_def get_put)

lemma auth_step_revoked:
  assumes "inv s" and "revoked_in ops s i" and "\<not> mints i x"
  shows "revoked_in ops (auth_step ops x s) i"
proof -
  have stored: "APIKey_Revoked k" if "get_key ops s j = Some k" "APIKey_ID k = i" for j k
    using that get_id [OF assms(1)] assms(2) by (auto simp: revoked_in_def split: option.splits)
  show ?thesis
  proof (cases x)
    case (AuCreate rs now name perms)
    with assms show ?thesis
      by (auto simp: CreateWithPermissions_def Let_def intro!: revoked_in_put split: sum.splits)
  next
    case (AuAuthenticate now1 now2 t)
    have "APIKey_ID k \<noteq> i" if "authentic (get_key ops s) now1 t = Some k" for k
      using authentic_stored [OF assms(1) that] stored by blast
    with AuAuthenticate assms show ?thesis
      by (auto simp: Authenticate_eq Let_def intro!: revoked_in_put split: option.splits)
  next
    case (AuRevoke now j)
    with assms show ?thesis
      by (auto simp: Revoke_def Let_def GetAPIKey_eq APIKey_Revoked_def intro!: revoked_in_put
          split: option.splits)
  next
    case (AuSetPermissions j perms)
    with assms stored [of j] show ?thesis
      by (auto simp: SetPermissions_def Let_def GetAPIKey_eq APIKey_Revoked_def intro!: revoked_in_put
          split: option.splits)
  next
    case (AuSetLimits j limits)
    with assms stored [of j] show ?thesis
      by (auto simp: SetLimits_def Let_def GetAPIKey_eq APIKey_Revoked_def intro!: revoked_in_put
          split: option.splits)
  next
    case (AuRotate rs j)
    with assms stored [of j] show ?thesis
      by (auto simp: Rotate_def Let_def GetAPIKey_eq APIKey_Revoked_def intro!: revoked_in_put
          split: option.splits sum.splits)
  qed
qed

lemma auth_run_revoked:
  "inv s \<Longrightarrow> revoked_in ops s i \<Longrightarrow> list_all (\<lambda>x. \<not> mints i x) xs \<Longrightarrow>
     inv (auth_run ops xs s) \<and> revoked_in ops (auth_run ops xs s) i"
  by (induction xs arbitrary: s) (auto simp: auth_run_def auth_step_inv auth_step_revoked)

lemma revoked_not_authentic:
  "revoked_in ops s i \<Longrightarrow> parseToken t = Some (i, sec) \<Longrightarrow> authentic (get_key ops s) now t = None"
  by (auto simp: authentic_def revoked_in_def split: option.splits)

lemma Revoke_revokes:
  assumes "inv s" and "Revoke ops now i s = (None, s')"
  shows "inv s' \<and> revoked_in ops s' i"
  using assms get_id [OF assms(1)] get_after_put [OF assms(1)]
  by (fastforce simp: Revoke_def GetAPIKey_eq revoked_in_def APIKey_Revoked_def
      split: option.splits prod.splits if_splits)

lemma Create_authentic:
  assumes inv: "inv s" and create: "CreateWithPermissions ops rs now name perms s = (Inr (tok, k), s')"
  shows "inv s' \<and> get_key ops s' = (get_key ops s)(APIKey_ID k \<mapsto> k) \<and> APIKey_UsageCount k = 0 \<and>
    APIKey_ExpiresAt k = Perm_ExpiresAt perms \<and>
    authentic (get_key ops s') t tok = (if APIKey_Expired k t then None else Some k)"
proof -
  obtain i secret salt hash where m: "fst (mint rs) = Inr (i, secret, salt, hash)"
    using create by (cases "fst (mint rs)") (auto simp: CreateWithPermissions_def)
  note m' = mint_spec [OF m]
  have put: "PutAPIKey ops k s = (None, s')" and tok: "tok = formatToken i secret"
    and k: "APIKey_ID k = i" "APIKey_SecretHash k = hash" "APIKey_Salt k = salt" "\<not> APIKey_Revoked k"
      "APIKey_UsageCount k = 0" "APIKey_ExpiresAt k = Perm_ExpiresAt perms"
    using create m
    by (auto simp: CreateWithPermissions_def Let_def zero_APIKey_def APIKey_Revoked_def
        split: prod.splits option.splits)
  show ?thesis
    using get_after_put [OF inv put] k m' by (simp add: tok authentic_def)
qed

lemma Rotate_authentic:
  assumes inv: "inv s" and rot: "Rotate ops rs i s = (Inr tok, s')"
  obtains k secret salt where "get_key ops s i = Some k" "tok = formatToken i secret" "secret \<noteq> []"
    "length salt = 32" "\<not> APIKey_Revoked k"
    "get_key ops s' = (get_key ops s)(i \<mapsto>
       k\<lparr>APIKey_SecretHash := hashSecret salt secret, APIKey_Salt := salt\<rparr>)"
proof -
  obtain k where k: "get_key ops s i = Some k" "\<not> APIKey_Revoked k"
    using rot by (auto simp: Rotate_def GetAPIKey_eq split: option.splits if_splits)
  then obtain secret salt hash where m: "fst (mintSecret rs) = Inr (secret, salt, hash)"
    using rot by (cases "fst (mintSecret rs)") (auto simp: Rotate_def GetAPIKey_eq)
  have tok: "tok = formatToken i secret"
    and put: "PutAPIKey ops (k\<lparr>APIKey_SecretHash := hash, APIKey_Salt := salt\<rparr>) s = (None, s')"
    using rot k m by (auto simp: Rotate_def GetAPIKey_eq split: prod.splits option.splits)
  show ?thesis
    using that [OF k(1) tok] k get_after_put [OF inv put] get_id [OF inv k(1)] mintSecret_spec [OF m]
    by simp
qed

lemma set_keeps_authentic:
  assumes inv: "inv s"
    and set: "(r, s') = SetPermissions ops i perms s \<or> (r, s') = SetLimits ops i limits s"
  shows "authentic (get_key ops s') now t = None \<longleftrightarrow> authentic (get_key ops s) now t = None"
proof -
  consider "get_key ops s' = get_key ops s" |
    k k' where "get_key ops s i = Some k" "get_key ops s' = (get_key ops s)(i \<mapsto> k')"
      "APIKey_SecretHash k' = APIKey_SecretHash k" "APIKey_Salt k' = APIKey_Salt k"
      "APIKey_RevokedAt k' = APIKey_RevokedAt k" "APIKey_ExpiresAt k' = APIKey_ExpiresAt k"
    using set get_id [OF inv, of i] get_after_put [OF inv]
    by (force simp: SetPermissions_def SetLimits_def GetAPIKey_eq Let_def
        split: option.splits prod.splits)
  then show ?thesis
    by cases (auto simp: authentic_def APIKey_Revoked_def APIKey_Expired_def split: option.splits prod.splits)
qed

end

lemma put_File: "PutAPIKey File_ops = File_PutAPIKey"
  by (simp add: File_ops_def)

section \<open>Properties\<close>

text \<open>
  Tokens parse back exactly: \<open>parseToken\<close> accepts a string and returns an id and a secret exactly
  when the string is their \<open>formatToken\<close>, both are non-empty and the id has no underscore. The secret
  may contain underscores.
\<close>

theorem parseToken_formatToken:
  "parseToken t = Some (i, sec) \<longleftrightarrow>
     t = formatToken i sec \<and> i \<noteq> [] \<and> sec \<noteq> [] \<and> CHR ''_'' \<notin> set i"
  by (rule parseToken_iff)


text \<open>
  C3. Authentication is sound and its refusals are alike: \<open>Authenticate\<close> returns a key only for a token
  whose id names a stored key, whose secret has that key's salted hash, and whose key is neither
  revoked nor expired, and then the stored record is that key with its usage count one higher.
  In every other case (malformed, unknown id, wrong secret, revoked, expired) the answer is the
  same \<open>ErrUnauthenticated\<close> and the store is unchanged.
\<close>

theorem Authenticate_sound:
  assumes "File_inv s" and "Authenticate File_ops now1 now2 t s = (r, s')"
  shows "(\<forall>k'. r = Inr k' \<longrightarrow>
      (\<exists>i sec k. t = formatToken i sec \<and> get_key File_ops s i = Some k \<and>
         APIKey_SecretHash k = hashSecret (APIKey_Salt k) sec \<and> \<not> APIKey_Revoked k \<and>
         \<not> APIKey_Expired k now1 \<and>
         k' = k\<lparr>APIKey_UsageCount := APIKey_UsageCount k + 1, APIKey_LastUsedAt := now2\<rparr> \<and>
         get_key File_ops s' = (get_key File_ops s)(i \<mapsto> k'))) \<and>
    (authentic (get_key File_ops s) now1 t = None \<longrightarrow> r = Inl ErrUnauthenticated \<and> s' = s)"
proof (cases "authentic (get_key File_ops s) now1 t")
  case None
  with assms(2) show ?thesis by (auto simp: file_store.Authenticate_eq)
next
  case (Some k)
  then obtain i sec where k: "parseToken t = Some (i, sec)" "get_key File_ops s i = Some k"
    "APIKey_SecretHash k = hashSecret (APIKey_Salt k) sec" "\<not> APIKey_Revoked k" "\<not> APIKey_Expired k now1"
    by (auto simp: authentic_def split: option.splits prod.splits if_splits)
  let ?k = "k\<lparr>APIKey_UsageCount := APIKey_UsageCount k + 1, APIKey_LastUsedAt := now2\<rparr>"
  have "APIKey_ID k = i" using file_store.get_id [OF assms(1) k(2)] .
  with file_store.get_after_put [OF assms(1), of ?k] assms(2) Some k show ?thesis
    unfolding file_store.Authenticate_eq parseToken_iff
    by (auto simp: Let_def split: prod.splits option.splits)
qed

text \<open>
  C33. Revocation is permanent: once \<open>Revoke\<close> has succeeded for an id, no token for that id
  authenticates after any further sequence of service operations (creations, revocations, permission
  and limit changes, rotations, authentications), as long as no creation mints the same id anew.
\<close>

theorem revoked_forever:
  assumes "File_inv s" and "Revoke File_ops now i s = (None, s')"
    and "list_all (\<lambda>x. \<not> mints i x) xs" and "parseToken t = Some (i, sec)"
  shows "Authenticate File_ops now1 now2 t (auth_run File_ops xs s') =
    (Inl ErrUnauthenticated, auth_run File_ops xs s')"
  using file_store.Revoke_revokes [OF assms(1,2)] file_store.auth_run_revoked [OF _ _ assms(3)]
    file_store.revoked_not_authentic [OF _ assms(4)]
  by (simp add: file_store.Authenticate_eq)

text \<open>
  Rotation replaces the secret and nothing else: after a successful \<open>Rotate\<close> the stored key is the
  old one with a fresh salt and the hash of the new secret, the new token is accepted as long as the
  key has not expired, and any other accepted secret for the id is a SHA-256 collision with the new
  one under the new salt.
\<close>

theorem Rotate_replaces_secret:
  assumes "File_inv s" and "Rotate File_ops rs i s = (Inr tok, s')" and "i \<noteq> []" and "CHR ''_'' \<notin> set i"
  shows "\<exists>k secret salt. get_key File_ops s i = Some k \<and> tok = formatToken i secret \<and>
    get_key File_ops s' = (get_key File_ops s)(i \<mapsto>
      k\<lparr>APIKey_SecretHash := hashSecret salt secret, APIKey_Salt := salt\<rparr>) \<and>
    (authentic (get_key File_ops s') t tok \<noteq> None \<longleftrightarrow> \<not> APIKey_Expired k t) \<and>
    (\<forall>sec. authentic (get_key File_ops s') t (formatToken i sec) \<noteq> None \<longrightarrow>
       sec = secret \<or> sha256 (salt @ string_bytes sec) = sha256 (salt @ string_bytes secret))"
proof -
  obtain k secret salt where k: "get_key File_ops s i = Some k" "tok = formatToken i secret" "secret \<noteq> []"
    "\<not> APIKey_Revoked k" and s': "get_key File_ops s' = (get_key File_ops s)(i \<mapsto>
      k\<lparr>APIKey_SecretHash := hashSecret salt secret, APIKey_Salt := salt\<rparr>)"
    using file_store.Rotate_authentic [OF assms(1,2)] by metis
  have parse: "parseToken (formatToken i sec) = (if sec = [] then None else Some (i, sec))" for sec
    using assms(3,4) by (simp add: parseToken_def SplitN_formatToken)
  have "authentic (get_key File_ops s') t tok \<noteq> None \<longleftrightarrow> \<not> APIKey_Expired k t"
    using k by (simp add: authentic_def parse s' APIKey_Revoked_def APIKey_Expired_def)
  moreover have "sha256 (salt @ string_bytes sec) = sha256 (salt @ string_bytes secret)"
    if "authentic (get_key File_ops s') t (formatToken i sec) \<noteq> None" for sec
    using that by (auto simp: authentic_def parse s' hashSecret_def split: if_splits)
  ultimately show ?thesis using k s' by blast
qed

text \<open>
  Changing permissions or limits does not touch authentication: after \<open>SetPermissions\<close> or
  \<open>SetLimits\<close>, successful or not, exactly the same tokens are accepted as before.
\<close>

theorem permissions_keep_tokens:
  assumes "File_inv s"
    and "(r, s') = SetPermissions File_ops i perms s \<or> (r, s') = SetLimits File_ops i limits s"
  shows "authentic (get_key File_ops s') now t = None \<longleftrightarrow> authentic (get_key File_ops s) now t = None"
  by (rule file_store.set_keeps_authentic [OF assms])

section \<open>Witnesses\<close>

definition wit_store :: File where
  "wit_store = snd (File_PutAPIKey wit_key (wit_file []))"

lemma wit_store_facts:
  "File_inv (wit_file fs)" "File_inv wit_store" "get_key File_ops wit_store ''id1'' = Some wit_key"
proof -
  show i: "File_inv (wit_file fs)" for fs using wit_file_synced by (simp add: synced_def)
  show "File_inv wit_store" using file_store.inv_put [OF i] by (simp add: wit_store_def put_File)
  show "get_key File_ops wit_store ''id1'' = Some wit_key"
    using file_store.get_put [OF i, of wit_key "[]" "''id1''"] by (simp add: wit_store_def put_File wit_key_def)
qed

lemma wit_mint:
  "fst (mint [Some [1], Some [2], Some [3]]) =
     (let secret = EncodeToString (take 32 ([2] @ replicate 32 0)); salt = take 32 ([3] @ replicate 32 0)
      in Inr (EncodeToString (take 8 ([1] @ replicate 8 0)), secret, salt, hashSecret salt secret))"
  by (simp add: mint_def mintSecret_def randBytes_def keyIDBytes_def secretBytes_def saltBytes_def Let_def)


theorem Authenticate_sound_witness:
  "Authenticate File_ops 1 2 ''agpu_id1'' wit_store = (Inl ErrUnauthenticated, wit_store)"
proof -
  have "authentic (get_key File_ops wit_store) 1 ''agpu_id1'' = None"
    by (simp add: authentic_def parseToken_def SplitN_3 Let_def)
  with Authenticate_sound [OF wit_store_facts(2) surjective_pairing, of 1 2 "''agpu_id1''"] show ?thesis
    by (simp add: prod_eq_iff)
qed

theorem revoked_forever_witness:
  "\<exists>s'. Revoke File_ops 9 ''id1'' wit_store = (None, s') \<and>
     Authenticate File_ops 1 2 ''agpu_id1_sec'' (auth_run File_ops [AuSetLimits ''id1'' None] s') =
       (Inl ErrUnauthenticated, auth_run File_ops [AuSetLimits ''id1'' None] s')"
proof -
  obtain s' where r: "Revoke File_ops 9 ''id1'' wit_store = (None, s')"
    using wit_store_facts(3)
    by (simp add: Revoke_def file_store.GetAPIKey_eq put_File File_PutAPIKey_def File_flush_def Let_def
        wit_store_def wit_file_def wit_key_def zero_APIKey_def APIKey_Revoked_def)
  have t: "parseToken ''agpu_id1_sec'' = Some (''id1'', ''sec'')"
    unfolding parseToken_iff by (simp add: formatToken_def Prefix_def)
  have "list_all (\<lambda>x. \<not> mints ''id1'' x) [AuSetLimits ''id1'' None]" by simp
  from revoked_forever [OF wit_store_facts(2) r this t] r show ?thesis by blast
qed

theorem Rotate_replaces_secret_witness:
  "\<exists>tok s'. Rotate File_ops [Some [2], Some [3]] ''id1'' wit_store = (Inr tok, s') \<and>
     authentic (get_key File_ops s') 0 tok \<noteq> None"
proof -
  obtain tok s' where r: "Rotate File_ops [Some [2], Some [3]] ''id1'' wit_store = (Inr tok, s')"
    using wit_store_facts(3)
    by (simp add: Rotate_def file_store.GetAPIKey_eq put_File File_PutAPIKey_def File_flush_def Let_def
        wit_store_def wit_file_def wit_key_def zero_APIKey_def APIKey_Revoked_def
        mintSecret_def randBytes_def)
  from Rotate_replaces_secret [OF wit_store_facts(2) r, of 0] r wit_store_facts(3) show ?thesis
    by (auto simp: wit_key_def zero_APIKey_def APIKey_Expired_def)
qed

theorem permissions_keep_tokens_witness:
  "authentic (get_key File_ops (snd (SetLimits File_ops ''id1'' None wit_store))) 0 ''x'' = None \<longleftrightarrow>
   authentic (get_key File_ops wit_store) 0 ''x'' = None"
  using permissions_keep_tokens [OF wit_store_facts(2), of "fst (SetLimits File_ops ''id1'' None wit_store)"
    "snd (SetLimits File_ops ''id1'' None wit_store)" "''id1''" no_Permissions None] by simp

end
