(* ===== verification/Civil_Time.thy ===== *)
theory Civil_Time
  imports Prelude
begin

text \<open>
  The calendar of Go's \<^verbatim>\<open>time\<close> package in UTC, as the quota windows and the usage series use it:
  \<^verbatim>\<open>Truncate\<close>, \<^verbatim>\<open>Date\<close>, the civil date of an instant (the 400/100/4/1-year cycles of the
  package's own algorithm) and \<^verbatim>\<open>AddDate\<close>. Days count from 1 January of year 1, the zero time.

  The lemmas show that the civil date is the inverse of \<^verbatim>\<open>Date\<close> and that days and months partition
  the time line into half-open intervals.
\<close>

section \<open>Definitions\<close>

definition day_ns :: int where
  "day_ns = 24 * hour"

definition Truncate :: "gotime \<Rightarrow> duration \<Rightarrow> gotime" where
  "Truncate t d = t - (t - zero_time) mod d"

definition leap :: "int \<Rightarrow> bool" where
  "leap y \<longleftrightarrow> y mod 4 = 0 \<and> (y mod 100 \<noteq> 0 \<or> y mod 400 = 0)"

text \<open>Days from the zero time to 1 January of a year, and from there to the first of a month.\<close>

definition days_before_year :: "int \<Rightarrow> int" where
  "days_before_year y = 365 * (y - 1) + (y - 1) div 4 - (y - 1) div 100 + (y - 1) div 400"

definition days_before_month :: "int \<Rightarrow> int \<Rightarrow> int" where
  "days_before_month y m =
     (if m \<le> 1 then 0 else if m = 2 then 31 else if m = 3 then 59 else if m = 4 then 90
      else if m = 5 then 120 else if m = 6 then 151 else if m = 7 then 181 else if m = 8 then 212
      else if m = 9 then 243 else if m = 10 then 273 else if m = 11 then 304
      else if m = 12 then 334 else 365)
     + (if leap y \<and> 3 \<le> m then 1 else 0)"

definition day_of :: "gotime \<Rightarrow> int" where
  "day_of t = (t - zero_time) div day_ns"

definition year_yday :: "int \<Rightarrow> int \<times> int" where
  "year_yday n =
     (let a = n div 146097; r = n mod 146097;
          b = min 3 (r div 36524); r = r - 36524 * b;
          c = r div 1461; r = r mod 1461;
          d = min 3 (r div 365)
      in (400 * a + 100 * b + 4 * c + d + 1, r - 365 * d))"

definition month_of_yday :: "int \<Rightarrow> int \<Rightarrow> int" where
  "month_of_yday y yday = int (length (filter (\<lambda>m. days_before_month y m \<le> yday) [1, 2, 3, 4, 5, 6, 7, 8, 9, 10, 11, 12]))"

definition Year :: "gotime \<Rightarrow> int" where
  "Year t = fst (year_yday (day_of t))"

definition Month :: "gotime \<Rightarrow> int" where
  "Month t = month_of_yday (Year t) (snd (year_yday (day_of t)))"

definition Day :: "gotime \<Rightarrow> int" where
  "Day t = snd (year_yday (day_of t)) - days_before_month (Year t) (Month t) + 1"

text \<open>\<^verbatim>\<open>time.Date(y, m, d, 0, 0, 0, 0, time.UTC)\<close>; a month outside 1 to 12 carries into the year.\<close>

definition Date :: "int \<Rightarrow> int \<Rightarrow> int \<Rightarrow> gotime" where
  "Date y m d =
     (let y' = y + (m - 1) div 12; m' = (m - 1) mod 12 + 1
      in zero_time + day_ns * (days_before_year y' + days_before_month y' m' + d - 1))"

text \<open>\<^verbatim>\<open>AddDate\<close> of an instant at midnight.\<close>

definition AddDate :: "gotime \<Rightarrow> int \<Rightarrow> int \<Rightarrow> int \<Rightarrow> gotime" where
  "AddDate t ys ms ds = Date (Year t + ys) (Month t + ms) (Day t + ds)"

section \<open>Years\<close>

lemma div_unique_int: "0 \<le> r \<Longrightarrow> r < k \<Longrightarrow> (k * q + r) div k = (q :: int)"
  by simp

lemma div_pred: "0 < k \<Longrightarrow> y div k = (y - 1) div k + (if y mod k = 0 then 1 else (0 :: int))"
proof -
  assume k: "0 < k"
  define q where "q = y div k"
  define r where "r = y mod k"
  have y: "y = k * q + r" "0 \<le> r" "r < k" using k by (auto simp: q_def r_def)
  show ?thesis
  proof (cases "r = 0")
    case True
    have "y - 1 = k * (q - 1) + (k - 1)" using True y by (simp add: algebra_simps)
    moreover have "(k * (q - 1) + (k - 1)) div k = q - 1" using k by (intro div_unique_int) auto
    ultimately have "(y - 1) div k = q - 1" by metis
    then show ?thesis using True by (simp add: q_def r_def)
  next
    case False
    have "y - 1 = k * q + (r - 1)" using y by simp
    moreover have "(k * q + (r - 1)) div k = q" using k y False by (intro div_unique_int) auto
    ultimately have "(y - 1) div k = q" by metis
    then show ?thesis using False by (simp add: q_def r_def)
  qed
qed

lemma leap_alt: "(if leap y then 1 else 0) =
  (if y mod 4 = 0 then 1 else 0) - (if y mod 100 = 0 then 1 else 0) + (if y mod 400 = 0 then 1 else (0 :: int))"
proof -
  have "400 dvd y \<longrightarrow> 100 dvd y" "100 dvd y \<longrightarrow> 4 dvd y"
    using dvd_trans [of 100 400 y] dvd_trans [of 4 100 y] by simp_all
  then show ?thesis
    unfolding leap_def mod_eq_0_iff_dvd
    by (cases "4 dvd y"; cases "100 dvd y"; cases "400 dvd y"; simp)
qed

lemma days_before_year_Suc:
  "days_before_year (y + 1) = days_before_year y + 365 + (if leap y then 1 else 0)"
proof -
  have sum: "365 * y + (a + i) - (b + j) + (c + k) = 365 * (y - 1) + a - b + c + 365 + (i - j + k)"
    for a b c i j k :: int by simp
  have "y div 4 = (y - 1) div 4 + (if y mod 4 = 0 then 1 else 0)"
    "y div 100 = (y - 1) div 100 + (if y mod 100 = 0 then 1 else 0)"
    "y div 400 = (y - 1) div 400 + (if y mod 400 = 0 then 1 else 0)"
    by (rule div_pred, simp)+
  then show ?thesis
    unfolding days_before_year_def leap_alt add_diff_cancel_right' by (simp only: sum)
qed

lemma days_before_year_mono: "y \<le> y' \<Longrightarrow> days_before_year y + 365 * (y' - y) \<le> days_before_year y'"
proof (induction y' rule: int_ge_induct)
  case base
  then show ?case by simp
next
  case (step i)
  then show ?case using days_before_year_Suc [of i] by auto
qed

text \<open>A count of cycles capped at 3, as the last cycle of four may be a day longer.\<close>

lemma min_cycle:
  assumes "0 \<le> r" and "0 < k" and "r \<le> 4 * k" and b: "b = min 3 (r div k)"
  shows "0 \<le> b" "b \<le> 3" "0 \<le> r - k * b" "r - k * b \<le> k" "b < 3 \<longrightarrow> r - k * b < (k :: int)"
proof -
  have q: "0 \<le> r div k" using assms by (simp add: pos_imp_zdiv_nonneg_iff)
  then show "0 \<le> b" "b \<le> 3" by (auto simp: b)
  have m: "r - k * (r div k) = r mod k" by (simp add: minus_mult_div_eq_mod)
  have "0 \<le> r - k * b \<and> r - k * b \<le> k \<and> (b < 3 \<longrightarrow> r - k * b < k)"
  proof (cases "r div k < 3")
    case True
    then show ?thesis using assms(2) by (simp add: b m less_imp_le)
  next
    case False
    then have "k * 3 \<le> k * (r div k)" using assms(2) by simp
    then have "k * 3 \<le> r" using m pos_mod_sign [OF assms(2), of r] by linarith
    then show ?thesis using False assms(3) by (simp add: b)
  qed
  then show "0 \<le> r - k * b" "r - k * b \<le> k" "b < 3 \<longrightarrow> r - k * b < k" by auto
qed

lemma year_yday_split:
  assumes "year_yday n = (y, k)"
  shows "days_before_year y + k = n \<and> 0 \<le> k \<and> k < 365 + (if leap y then 1 else 0)"
proof -
  define a where "a = n div 146097"
  define r where "r = n mod 146097"
  define b where "b = min 3 (r div 36524)"
  define r2 where "r2 = r - 36524 * b"
  define c where "c = r2 div 1461"
  define r3 where "r3 = r2 mod 1461"
  define d where "d = min 3 (r3 div 365)"
  have y: "y = 400 * a + 100 * b + 4 * c + d + 1" and k: "k = r3 - 365 * d"
    using assms [unfolded year_yday_def Let_def, folded a_def r_def, folded b_def, folded r2_def,
      folded c_def r3_def, folded d_def] by simp_all
  have r: "0 \<le> r" "r \<le> 146096" "n = 146097 * a + r" by (simp_all add: r_def a_def)
  note b = min_cycle [of r 36524 b, folded r2_def, OF r(1) _ _ b_def, simplified, OF r(2)]
  have c: "0 \<le> c" "c \<le> 24" "r2 = 1461 * c + r3" "0 \<le> r3" "r3 \<le> 1460"
    using b(3,4) by (simp_all add: c_def r3_def pos_imp_zdiv_nonneg_iff)
  note d = min_cycle [of r3 365 d, folded k, OF c(4) _ _ d_def, simplified, OF c(5)]
  have q: "(400 * a + 100 * b + 4 * c + d) div 4 = 100 * a + 25 * b + c"
    "(400 * a + 100 * b + 4 * c + d) div 100 = 4 * a + b"
    "(400 * a + 100 * b + 4 * c + d) div 400 = a"
    using div_unique_int [of d 4 "100 * a + 25 * b + c"] div_unique_int [of "4 * c + d" 100 "4 * a + b"]
      div_unique_int [of "100 * b + 4 * c + d" 400 a] b c d by (simp_all add: algebra_simps)
  have dby: "days_before_year y = 146097 * a + 36524 * b + 1461 * c + 365 * d"
    unfolding days_before_year_def y by (simp add: q)
  have "leap y" if "k \<ge> 365"
  proof -
    have d3: "d = 3" using that d(2,5) by auto
    then have d3: "d = 3" "r3 = 1460" using that c(5) by (auto simp: k)
    have y4: "y = 4 * (100 * a + 25 * b + c + 1)" using d3 by (simp add: y)
    show ?thesis
    proof (cases "c = 24")
      case True
      then have "b = 3" using b(2,5) c(3) d3(2) by auto
      then have "y = 400 * (a + 1)" using True d3 by (simp add: y)
      then have "y mod 400 = 0" by (simp only: mod_mult_self1_is_0)
      moreover have "y mod 4 = 0" unfolding y4 by (simp only: mod_mult_self1_is_0)
      ultimately show ?thesis by (simp add: leap_def)
    next
      case False
      then have "y = 100 * (4 * a + b) + (4 * c + 4)" "0 < 4 * c + 4" "4 * c + 4 < 100"
        using c(1,2) d3(1) by (auto simp: y)
      then have "y mod 100 = 4 * c + 4" by (simp only: mod_mult_self4 mod_pos_pos_trivial less_imp_le)
      moreover have "y mod 4 = 0" unfolding y4 by (simp only: mod_mult_self1_is_0)
      ultimately show ?thesis using c(1) by (simp add: leap_def)
    qed
  qed
  then have "k < 365 + (if leap y then 1 else 0)" using d(4) by (cases "k = 365") auto
  moreover have "days_before_year y + k = n" using r(3) c(3) unfolding dby k r2_def by simp
  ultimately show ?thesis using d(3) by simp
qed

lemma year_unique:
  assumes "days_before_year y \<le> n" and "n < days_before_year (y + 1)"
  shows "year_yday n = (y, n - days_before_year y)"
proof -
  obtain y' k where yk: "year_yday n = (y', k)" by (cases "year_yday n")
  note s = year_yday_split [OF yk]
  have "n < days_before_year (y' + 1)" using s by (auto simp: days_before_year_Suc)
  have "\<not> y' < y"
    using days_before_year_mono [of "y' + 1" y] \<open>n < days_before_year (y' + 1)\<close> assms(1) by auto
  moreover have "\<not> y < y'"
    using days_before_year_mono [of "y + 1" y'] assms(2) s by auto
  ultimately show ?thesis using yk s by auto
qed

section \<open>Months\<close>

lemma days_before_month_13: "days_before_month y 13 = 365 + (if leap y then 1 else 0)"
  by (simp add: days_before_month_def)

lemma month_cases: "1 \<le> m \<Longrightarrow> m \<le> 12 \<Longrightarrow> m \<in> {1, 2, 3, 4, 5, 6, 7, 8, 9, 10, 11, 12 :: int}"
  unfolding insert_iff empty_iff by presburger

lemma days_before_month_le:
  assumes "1 \<le> m" and "m \<le> 12"
  shows "days_before_month y (m + 1) \<le> 365 + (if leap y then 1 else 0)"
  using month_cases [OF assms]
  by (cases "leap y"; elim insertE emptyE) (simp_all add: days_before_month_def)

lemma month_unique:
  assumes "1 \<le> m" and "m \<le> 12" and "days_before_month y m \<le> k" and "k < days_before_month y (m + 1)"
  shows "month_of_yday y k = m"
proof -
  note month_cases [OF assms(1,2)]
  then show ?thesis
    using assms(3,4)
    by (cases "leap y"; elim insertE emptyE) (simp_all add: month_of_yday_def days_before_month_def)
qed

lemma month_exists:
  assumes "0 \<le> k" and "k < 365 + (if leap y then 1 else 0)"
  obtains m where "1 \<le> m" "m \<le> 12" "days_before_month y m \<le> k" "k < days_before_month y (m + 1)"
proof -
  let ?P = "\<lambda>m. k < days_before_month y (int m + 1)"
  define m where "m = (LEAST m. ?P m)"
  have "?P 12" using assms(2) days_before_month_13 [of y] by simp
  then have L: "?P m" and "m \<le> 12" unfolding m_def by (rule LeastI, rule Least_le)
  have "m \<noteq> 0" using L assms(1) by (cases "m = 0") (auto simp: days_before_month_def)
  then have "\<not> ?P (m - 1)" unfolding m_def by (intro not_less_Least) simp
  then have "days_before_month y (int m) \<le> k" using \<open>m \<noteq> 0\<close> by (simp add: of_nat_diff)
  then show ?thesis using that [of "int m"] L \<open>m \<noteq> 0\<close> \<open>m \<le> 12\<close> by simp
qed

section \<open>Instants\<close>

lemma day_ns_pos [simp]: "0 < day_ns"
  by (simp add: day_ns_def time_defs)

lemma day_ns_nz [simp]: "day_ns \<noteq> 0"
  using day_ns_pos by linarith

lemma civil_day:
  assumes "day_of t = days_before_year y + days_before_month y m + d - 1"
    and "1 \<le> m" and "m \<le> 12" and "1 \<le> d"
    and "days_before_month y m + d - 1 < days_before_month y (m + 1)"
  shows "Year t = y \<and> Month t = m \<and> Day t = d"
proof -
  let ?k = "days_before_month y m + d - 1"
  have m0: "0 \<le> days_before_month y m" by (simp add: days_before_month_def)
  have "days_before_month y (m + 1) \<le> 365 + (if leap y then 1 else 0)"
    using assms(2,3) by (rule days_before_month_le)
  then have "days_before_year y \<le> day_of t" "day_of t < days_before_year (y + 1)"
    unfolding days_before_year_Suc assms(1) using assms(4,5) m0 by linarith+
  then have "year_yday (day_of t) = (y, ?k)"
    using year_unique [of y "day_of t"] assms(1) by simp
  moreover have "month_of_yday y ?k = m" using assms by (intro month_unique) auto
  ultimately show ?thesis by (simp add: Year_def Month_def Day_def)
qed

lemma civil_bounds:
  obtains y m d where "Year t = y" "Month t = m" "Day t = d" "1 \<le> m" "m \<le> 12" "1 \<le> d"
    "days_before_month y m + d - 1 < days_before_month y (m + 1)"
    "day_of t = days_before_year y + days_before_month y m + d - 1"
proof -
  obtain y k where yk: "year_yday (day_of t) = (y, k)" by (cases "year_yday (day_of t)")
  note s = year_yday_split [OF yk]
  then obtain m where m: "1 \<le> m" "m \<le> 12" "days_before_month y m \<le> k" "k < days_before_month y (m + 1)"
    using month_exists by blast
  then have mo: "month_of_yday y k = m" by (rule month_unique)
  have "Year t = y" "Month t = m" "Day t = k - days_before_month y m + 1"
    by (simp_all add: Year_def Month_def Day_def yk mo)
  from that [OF this m(1,2)] s m(3,4) show ?thesis by linarith
qed

text \<open>The interval of a whole number of days that contains an instant.\<close>

lemma day_of_iff: "day_of t = n \<longleftrightarrow> zero_time + day_ns * n \<le> t \<and> t < zero_time + day_ns * (n + 1)"
proof -
  have "day_ns * day_of t \<le> t - zero_time" "t - zero_time < day_ns * day_of t + day_ns"
    using mult_div_mod_eq [of day_ns "t - zero_time"] pos_mod_sign [OF day_ns_pos, of "t - zero_time"]
      pos_mod_bound [OF day_ns_pos, of "t - zero_time"]
    unfolding day_of_def by linarith+
  note bounds = this
  show ?thesis
  proof
    assume "day_of t = n"
    with bounds show "zero_time + day_ns * n \<le> t \<and> t < zero_time + day_ns * (n + 1)"
      by (simp add: distrib_left)
  next
    assume "zero_time + day_ns * n \<le> t \<and> t < zero_time + day_ns * (n + 1)"
    with bounds have "day_ns * day_of t < day_ns * (n + 1)" "day_ns * n < day_ns * (day_of t + 1)"
      by (simp_all add: distrib_left)
    then show "day_of t = n" by (simp add: mult_less_cancel_left_pos)
  qed
qed

lemma Date_day: "1 \<le> m \<Longrightarrow> m \<le> 12 \<Longrightarrow>
    Date y m d = zero_time + day_ns * (days_before_year y + days_before_month y m + d - 1)"
  by (simp add: Date_def Let_def)

lemma Date_first: "1 \<le> m \<Longrightarrow> m \<le> 12 \<Longrightarrow>
    Date y m 1 = zero_time + day_ns * (days_before_year y + days_before_month y m)"
  by (simp add: Date_day)

lemma Date_13: "Date y 13 1 = zero_time + day_ns * days_before_year (y + 1)"
  by (simp add: Date_def Let_def days_before_month_def)

lemma Date_next_month:
  "1 \<le> m \<Longrightarrow> m \<le> 12 \<Longrightarrow>
     Date y (m + 1) 1 = zero_time + day_ns * (days_before_year y + days_before_month y (m + 1))"
proof (cases "m = 12")
  case True
  then show ?thesis using days_before_month_13 [of y] by (simp add: Date_13 days_before_year_Suc)
next
  case False
  assume "1 \<le> m" "m \<le> 12"
  with False show ?thesis by (simp add: Date_day)
qed

lemma day_of_mono: "t \<le> t' \<Longrightarrow> day_of t \<le> day_of t'"
  by (simp add: day_of_def zdiv_mono1)

text \<open>Midnight and the first of the month, as intervals.\<close>

lemma Date_today: "Date (Year t) (Month t) (Day t) = zero_time + day_ns * day_of t"
  by (rule civil_bounds [of t]) (simp add: Date_day)

lemma day_of_midnight [simp]: "day_of (zero_time + day_ns * n) = n"
  by (simp add: day_of_def)

lemma month_interval:
  assumes "1 \<le> m" and "m \<le> 12"
  shows "Year t = y \<and> Month t = m \<longleftrightarrow> Date y m 1 \<le> t \<and> t < Date y (m + 1) 1"
proof
  assume ym: "Year t = y \<and> Month t = m"
  then obtain d where d: "1 \<le> d" "days_before_month y m + d - 1 < days_before_month y (m + 1)"
    "day_of t = days_before_year y + days_before_month y m + d - 1"
    using civil_bounds [of t] by metis
  have t: "zero_time + day_ns * day_of t \<le> t" "t < zero_time + day_ns * (day_of t + 1)"
    using day_of_iff [of t "day_of t"] by auto
  have "day_ns * (days_before_year y + days_before_month y m) \<le> day_ns * day_of t"
    "day_ns * (day_of t + 1) \<le> day_ns * (days_before_year y + days_before_month y (m + 1))"
    using d by (intro mult_left_mono; simp add: less_imp_le)+
  with t show "Date y m 1 \<le> t \<and> t < Date y (m + 1) 1"
    unfolding Date_first [OF assms] Date_next_month [OF assms] by linarith
next
  let ?a = "days_before_year y + days_before_month y m" and ?b = "days_before_year y + days_before_month y (m + 1)"
  assume "Date y m 1 \<le> t \<and> t < Date y (m + 1) 1"
  then have t: "zero_time + day_ns * ?a \<le> t" "t < zero_time + day_ns * ?b"
    unfolding Date_first [OF assms] Date_next_month [OF assms] by auto
  have a: "?a \<le> day_of t" using day_of_mono [OF t(1)] by simp
  have "zero_time + day_ns * day_of t \<le> t" using day_of_iff [of t "day_of t"] by simp
  with t(2) have "day_ns * day_of t < day_ns * ?b" by linarith
  then have "day_of t < ?b" by (simp add: mult_less_cancel_left_pos)
  with a show "Year t = y \<and> Month t = m"
    using civil_day [of t y m "day_of t - ?a + 1"] assms by simp
qed

end
