(* ===== verification/Checkpoint.thy ===== *)
theory Checkpoint
  imports Prelude
begin

text \<open>
  The checkpoint files of the quota counters, the usage series and the sessions, which all follow
  one discipline: the in-memory value is encoded as one JSON document, written to a temporary file
  and renamed over the target. A document stands for the value it decodes to; \<open>DocNull\<close> is the JSON
  document \<^verbatim>\<open>null\<close>, which decodes to a nil map. \<open>CkptStep\<close> names the step of a save that fails, if any.
\<close>

datatype 'a Doc = DocMissing | DocUnreadable | DocEmpty | DocMalformed | DocNull | DocData 'a

datatype CkptStep = CkMarshal | CkMkdir | CkCreateTemp | CkChmod | CkWrite | CkClose | CkRename

datatype CkptError = CkEmptyPath | CkRead | CkParse | CkSave CkptStep

definition save_doc :: "CkptStep option \<Rightarrow> 'a \<Rightarrow> 'a Doc \<Rightarrow> CkptError option \<times> 'a Doc" where
  "save_doc fault v d = (case fault of Some st \<Rightarrow> (Some (CkSave st), d) | None \<Rightarrow> (None, DocData v))"

text \<open>Reading: \<open>Inr None\<close> is a missing or empty file, \<open>Inr (Some None)\<close> a decoded nil.\<close>

definition load_doc :: "'a Doc \<Rightarrow> CkptError + 'a option option" where
  "load_doc d =
     (case d of
        DocMissing \<Rightarrow> Inr None
      | DocUnreadable \<Rightarrow> Inl CkRead
      | DocEmpty \<Rightarrow> Inr None
      | DocMalformed \<Rightarrow> Inl CkParse
      | DocNull \<Rightarrow> Inr (Some None)
      | DocData v \<Rightarrow> Inr (Some (Some v)))"

lemma load_saved: "save_doc fault v d = (None, d') \<Longrightarrow> load_doc d' = Inr (Some (Some v))"
  by (auto simp: save_doc_def load_doc_def split: option.splits)

lemma save_failed: "save_doc fault v d = (Some e, d') \<Longrightarrow> d' = d"
  by (auto simp: save_doc_def split: option.splits)

end
