(* ===== verification/Quota.thy ===== *)
theory Quota
  imports Key_Store Civil_Time Checkpoint
begin

text \<open>
  Quotas, \<^verbatim>\<open>internal/quota/quota.go\<close>, \<^verbatim>\<open>store.go\<close> and \<^verbatim>\<open>engine.go\<close>: the fixed UTC windows, the counters
  of a key and their roll-over, the in-memory counter store with its checkpoint, and the engine that
  checks a key's and the server's limits. The counters are 64-bit words and wrap as in the source.
  The engine reads its injected clock once per call; the reading is the argument \<open>now\<close>.

  The window lemmas say that each window is a half-open interval that contains the instant; the main
  theorem bounds the requests admitted in a minute over any history of calls.
\<close>

section \<open>Windows\<close>

datatype window = windowMinute | windowDay | windowMonth

fun window_String :: "window \<Rightarrow> string" where
  "window_String windowMinute = ''minute''"
| "window_String windowDay = ''day''"
| "window_String windowMonth = ''month''"

fun windowStart :: "window \<Rightarrow> gotime \<Rightarrow> gotime" where
  "windowStart windowMinute t = Truncate t minute"
| "windowStart windowDay t = Date (Year t) (Month t) (Day t)"
| "windowStart windowMonth t = Date (Year t) (Month t) 1"

fun WindowReset :: "window \<Rightarrow> gotime \<Rightarrow> gotime" where
  "WindowReset windowMinute t = windowStart windowMinute t + minute"
| "WindowReset windowDay t = AddDate (windowStart windowDay t) 0 0 1"
| "WindowReset windowMonth t = AddDate (windowStart windowMonth t) 0 1 0"

section \<open>Counters\<close>

record Counters =
  Counters_MinuteStart :: gotime
  Counters_MinuteRequests :: uint64
  Counters_MinuteTokens :: uint64
  Counters_DayStart :: gotime
  Counters_DayTokens :: uint64
  Counters_MonthStart :: gotime
  Counters_MonthTokens :: uint64

definition zero_Counters :: Counters where
  "zero_Counters = \<lparr>Counters_MinuteStart = zero_time, Counters_MinuteRequests = 0, Counters_MinuteTokens = 0,
     Counters_DayStart = zero_time, Counters_DayTokens = 0, Counters_MonthStart = zero_time,
     Counters_MonthTokens = 0\<rparr>"

definition roll :: "gotime \<Rightarrow> Counters \<Rightarrow> Counters" where
  "roll now c =
     (let ms = windowStart windowMinute now;
          c = (if Counters_MinuteStart c \<noteq> ms
               then c\<lparr>Counters_MinuteStart := ms, Counters_MinuteRequests := 0, Counters_MinuteTokens := 0\<rparr>
               else c);
          ds = windowStart windowDay now;
          c = (if Counters_DayStart c \<noteq> ds then c\<lparr>Counters_DayStart := ds, Counters_DayTokens := 0\<rparr> else c);
          mos = windowStart windowMonth now;
          c = (if Counters_MonthStart c \<noteq> mos
               then c\<lparr>Counters_MonthStart := mos, Counters_MonthTokens := 0\<rparr> else c)
      in c)"

record Snapshot =
  Snapshot_KeyID :: string
  Snapshot_Limits :: Limits
  Snapshot_RequestsThisMinute :: uint64
  Snapshot_TokensThisMinute :: uint64
  Snapshot_TokensToday :: uint64
  Snapshot_TokensThisMonth :: uint64
  Snapshot_MinuteResetsAt :: gotime
  Snapshot_DayResetsAt :: gotime
  Snapshot_MonthResetsAt :: gotime

definition consider_reset :: "gotime \<Rightarrow> gotime \<Rightarrow> gotime option \<Rightarrow> gotime option" where
  "consider_reset now reset best =
     (if \<not> reset > now then best
      else case best of None \<Rightarrow> Some reset | Some b \<Rightarrow> if reset < b then Some reset else best)"

definition RetryAfter :: "Snapshot \<Rightarrow> gotime \<Rightarrow> gotime option" where
  "RetryAfter s now =
     (let lim = Snapshot_Limits s; best = None;
          best = (if Limits_RPM lim \<noteq> 0 \<and> Snapshot_RequestsThisMinute s \<ge> Limits_RPM lim
                  then consider_reset now (Snapshot_MinuteResetsAt s) best else best);
          best = (if Limits_TPM lim \<noteq> 0 \<and> Snapshot_TokensThisMinute s \<ge> Limits_TPM lim
                  then consider_reset now (Snapshot_MinuteResetsAt s) best else best);
          best = (if Limits_DailyTokens lim \<noteq> 0 \<and> Snapshot_TokensToday s \<ge> Limits_DailyTokens lim
                  then consider_reset now (Snapshot_DayResetsAt s) best else best);
          best = (if Limits_MonthlyTokens lim \<noteq> 0 \<and> Snapshot_TokensThisMonth s \<ge> Limits_MonthlyTokens lim
                  then consider_reset now (Snapshot_MonthResetsAt s) best else best)
      in if best \<noteq> None then best
         else consider_reset now (Snapshot_MonthResetsAt s)
                (consider_reset now (Snapshot_DayResetsAt s) (consider_reset now (Snapshot_MinuteResetsAt s) best)))"

section \<open>The counter store\<close>

datatype QuotaError = ErrQuotaExceeded

type_synonym counters_map = "(string, Counters) gomap"

definition Reserve ::
  "string \<Rightarrow> gotime \<Rightarrow> (Counters \<Rightarrow> QuotaError option) \<Rightarrow> counters_map \<Rightarrow> QuotaError option \<times> counters_map" where
  "Reserve keyID now check m =
     (let c = roll now (gomap_get zero_Counters m keyID)
      in case check c of
           Some err \<Rightarrow> (Some err, AList.update keyID c m)
         | None \<Rightarrow>
             (None, AList.update keyID
                (c\<lparr>Counters_MinuteRequests := Counters_MinuteRequests c + 1\<rparr>) m))"

definition AddTokens :: "string \<Rightarrow> gotime \<Rightarrow> uint64 \<Rightarrow> counters_map \<Rightarrow> counters_map" where
  "AddTokens keyID now n m =
     (let c = roll now (gomap_get zero_Counters m keyID)
      in AList.update keyID
           (c\<lparr>Counters_MinuteTokens := Counters_MinuteTokens c + n,
              Counters_DayTokens := Counters_DayTokens c + n,
              Counters_MonthTokens := Counters_MonthTokens c + n\<rparr>) m)"

definition Counter_Get :: "string \<Rightarrow> gotime \<Rightarrow> counters_map \<Rightarrow> Counters \<times> counters_map" where
  "Counter_Get keyID now m =
     (let c = roll now (gomap_get zero_Counters m keyID) in (c, AList.update keyID c m))"

definition Counter_Checkpoint ::
  "string \<Rightarrow> gotime \<Rightarrow> CkptStep option \<Rightarrow> counters_map \<Rightarrow> counters_map Doc \<Rightarrow>
     CkptError option \<times> counters_map \<times> counters_map Doc" where
  "Counter_Checkpoint path now fault m d =
     (if path = [] then (Some CkEmptyPath, m, d)
      else let m' = map (\<lambda>(k, c). (k, roll now c)) m; (err, d') = save_doc fault m' d
           in (err, m', d'))"

definition Counter_LoadCheckpoint :: "counters_map Doc \<Rightarrow> counters_map \<Rightarrow> CkptError option \<times> counters_map" where
  "Counter_LoadCheckpoint d m =
     (case load_doc d of
        Inl err \<Rightarrow> (Some err, m)
      | Inr None \<Rightarrow> (None, m)
      | Inr (Some None) \<Rightarrow> (None, [])
      | Inr (Some (Some loaded)) \<Rightarrow> (None, loaded))"

section \<open>The engine\<close>

record Engine =
  Engine_cs :: counters_map
  Engine_defaults :: Limits
  Engine_global :: Limits

definition zero_Limits :: Limits where
  "zero_Limits = \<lparr>Limits_RPM = 0, Limits_TPM = 0, Limits_DailyTokens = 0, Limits_MonthlyTokens = 0\<rparr>"

definition globalKeyID :: string where
  "globalKeyID = ''__global__''"

definition WithDefaults :: "Limits \<Rightarrow> Engine \<Rightarrow> Engine" where
  "WithDefaults d e = e\<lparr>Engine_defaults := d\<rparr>"

definition WithGlobalLimits :: "uint64 \<Rightarrow> uint64 \<Rightarrow> Engine \<Rightarrow> Engine" where
  "WithGlobalLimits rpm tpm e = e\<lparr>Engine_global := zero_Limits\<lparr>Limits_RPM := rpm, Limits_TPM := tpm\<rparr>\<rparr>"

definition NewEngine :: "counters_map \<Rightarrow> (Engine \<Rightarrow> Engine) list \<Rightarrow> Engine" where
  "NewEngine cs opts =
     fold (\<lambda>o' e. o' e) opts \<lparr>Engine_cs = cs, Engine_defaults = zero_Limits, Engine_global = zero_Limits\<rparr>"

definition SetDefaults :: "Limits \<Rightarrow> Engine \<Rightarrow> Engine" where
  "SetDefaults d e = e\<lparr>Engine_defaults := d\<rparr>"

definition SetGlobalLimits :: "uint64 \<Rightarrow> uint64 \<Rightarrow> Engine \<Rightarrow> Engine" where
  "SetGlobalLimits rpm tpm e = e\<lparr>Engine_global := zero_Limits\<lparr>Limits_RPM := rpm, Limits_TPM := tpm\<rparr>\<rparr>"

definition effectiveLimits :: "Engine \<Rightarrow> APIKey \<Rightarrow> Limits" where
  "effectiveLimits e key = (case APIKey_Limits key of Some l \<Rightarrow> l | None \<Rightarrow> Engine_defaults e)"

definition check_limits :: "Limits \<Rightarrow> Counters \<Rightarrow> QuotaError option" where
  "check_limits lim c =
     (if Limits_RPM lim \<noteq> 0 \<and> Counters_MinuteRequests c + 1 > Limits_RPM lim then Some ErrQuotaExceeded
      else if Limits_TPM lim \<noteq> 0 \<and> Counters_MinuteTokens c \<ge> Limits_TPM lim then Some ErrQuotaExceeded
      else if Limits_DailyTokens lim \<noteq> 0 \<and> Counters_DayTokens c \<ge> Limits_DailyTokens lim
      then Some ErrQuotaExceeded
      else if Limits_MonthlyTokens lim \<noteq> 0 \<and> Counters_MonthTokens c \<ge> Limits_MonthlyTokens lim
      then Some ErrQuotaExceeded
      else None)"

definition CheckAndReserve :: "gotime \<Rightarrow> APIKey \<Rightarrow> Engine \<Rightarrow> QuotaError option \<times> Engine" where
  "CheckAndReserve now key e =
     (let lim = effectiveLimits e key;
          (err, cs) = Reserve (APIKey_ID key) now (check_limits lim) (Engine_cs e)
      in (err, e\<lparr>Engine_cs := cs\<rparr>))"

definition check_global :: "Limits \<Rightarrow> Counters \<Rightarrow> QuotaError option" where
  "check_global lim c =
     (if Limits_RPM lim \<noteq> 0 \<and> Counters_MinuteRequests c + 1 > Limits_RPM lim then Some ErrQuotaExceeded
      else if Limits_TPM lim \<noteq> 0 \<and> Counters_MinuteTokens c \<ge> Limits_TPM lim then Some ErrQuotaExceeded
      else None)"

definition CheckAndReserveGlobal :: "gotime \<Rightarrow> Engine \<Rightarrow> QuotaError option \<times> Engine" where
  "CheckAndReserveGlobal now e =
     (let lim = Engine_global e
      in if Limits_RPM lim = 0 \<and> Limits_TPM lim = 0 then (None, e)
         else let (err, cs) = Reserve globalKeyID now (check_global lim) (Engine_cs e)
              in (err, e\<lparr>Engine_cs := cs\<rparr>))"

definition GlobalMinuteReset :: "gotime \<Rightarrow> gotime" where
  "GlobalMinuteReset now = WindowReset windowMinute now"

definition RecordTokens :: "gotime \<Rightarrow> string \<Rightarrow> uint64 \<Rightarrow> Engine \<Rightarrow> Engine" where
  "RecordTokens now keyID n e =
     (if n = 0 then e else e\<lparr>Engine_cs := AddTokens keyID now n (Engine_cs e)\<rparr>)"

definition RecordGlobalTokens :: "gotime \<Rightarrow> uint64 \<Rightarrow> Engine \<Rightarrow> Engine" where
  "RecordGlobalTokens now n e =
     (if n = 0 then e
      else let g = Engine_global e
           in if Limits_RPM g = 0 \<and> Limits_TPM g = 0 then e
              else e\<lparr>Engine_cs := AddTokens globalKeyID now n (Engine_cs e)\<rparr>)"

definition Usage :: "gotime \<Rightarrow> string \<Rightarrow> Limits \<Rightarrow> Engine \<Rightarrow> Snapshot \<times> Engine" where
  "Usage now keyID lim e =
     (let (c, cs) = Counter_Get keyID now (Engine_cs e)
      in (\<lparr>Snapshot_KeyID = keyID, Snapshot_Limits = lim,
           Snapshot_RequestsThisMinute = Counters_MinuteRequests c,
           Snapshot_TokensThisMinute = Counters_MinuteTokens c,
           Snapshot_TokensToday = Counters_DayTokens c,
           Snapshot_TokensThisMonth = Counters_MonthTokens c,
           Snapshot_MinuteResetsAt = WindowReset windowMinute now,
           Snapshot_DayResetsAt = WindowReset windowDay now,
           Snapshot_MonthResetsAt = WindowReset windowMonth now\<rparr>,
          e\<lparr>Engine_cs := cs\<rparr>))"

definition UsageForKey :: "gotime \<Rightarrow> APIKey \<Rightarrow> Engine \<Rightarrow> Snapshot \<times> Engine" where
  "UsageForKey now key e = Usage now (APIKey_ID key) (effectiveLimits e key) e"

section \<open>Windows: lemmas\<close>

lemma minute_pos [simp]: "0 < minute"
  by (simp add: time_defs)

lemma Truncate_bounds: "0 < d \<Longrightarrow> Truncate t d \<le> t \<and> t < Truncate t d + d"
  using pos_mod_sign [of d "t - zero_time"] pos_mod_bound [of d "t - zero_time"]
  unfolding Truncate_def by linarith

lemma Truncate_div: "Truncate t d = zero_time + d * ((t - zero_time) div d)"
  unfolding Truncate_def using mult_div_mod_eq [of d "t - zero_time"] by linarith

lemma windowStart_day: "windowStart windowDay t = zero_time + day_ns * day_of t"
  by (simp add: Date_today)

lemma WindowReset_day: "WindowReset windowDay t = zero_time + day_ns * (day_of t + 1)"
proof -
  let ?s = "zero_time + day_ns * day_of t"
  have "Date (Year ?s) (Month ?s) (Day ?s) = zero_time + day_ns * day_of t" by (simp add: Date_today)
  moreover have "Date y m (d + 1) = Date y m d + day_ns" for y m d
    by (simp add: Date_def Let_def algebra_simps)
  ultimately show ?thesis by (simp add: windowStart_day [simplified] AddDate_def distrib_left)
qed

lemma Month_bounds: "1 \<le> Month t" "Month t \<le> 12"
  by (rule civil_bounds [of t], simp)+

lemma month_start_civil:
  "Year (Date (Year t) (Month t) 1) = Year t \<and> Month (Date (Year t) (Month t) 1) = Month t \<and>
   Day (Date (Year t) (Month t) 1) = 1"
proof -
  let ?y = "Year t" and ?m = "Month t"
  have "Date ?y ?m 1 < Date ?y (?m + 1) 1"
    using month_interval [OF Month_bounds [of t], of t ?y] by simp
  then have ym: "Year (Date ?y ?m 1) = ?y" "Month (Date ?y ?m 1) = ?m"
    using month_interval [OF Month_bounds [of t], of "Date ?y ?m 1" ?y] by auto
  have "day_of (Date ?y ?m 1) = days_before_year ?y + days_before_month ?y ?m"
    by (simp add: Date_first [OF Month_bounds])
  moreover obtain d where "Day (Date ?y ?m 1) = d"
    "day_of (Date ?y ?m 1) = days_before_year ?y + days_before_month ?y ?m + d - 1"
    using civil_bounds [of "Date ?y ?m 1"] ym by metis
  ultimately show ?thesis using ym by simp
qed

lemma WindowReset_month: "WindowReset windowMonth t = Date (Year t) (Month t + 1) 1"
  using month_start_civil [of t] by (simp add: AddDate_def)

text \<open>An instant lies in the window of another exactly when both windows start together.\<close>

lemma same_window_iff:
  "windowStart w t = windowStart w u \<longleftrightarrow> windowStart w u \<le> t \<and> t < WindowReset w u"
proof (cases w)
  case windowMinute
  have "windowStart windowMinute t = windowStart windowMinute u" if
    "Truncate u minute \<le> t" "t < Truncate u minute + minute"
  proof -
    let ?a = "(t - zero_time) div minute" and ?b = "(u - zero_time) div minute"
    have "minute * ?a < minute * (?b + 1)" "minute * ?b < minute * (?a + 1)"
      using that Truncate_bounds [OF minute_pos, of t] Truncate_div [of t minute] Truncate_div [of u minute]
      unfolding distrib_left by linarith+
    then have "?a = ?b" by (simp add: mult_less_cancel_left_pos)
    then show ?thesis by (simp add: Truncate_div)
  qed
  then show ?thesis using windowMinute Truncate_bounds [of minute t] by auto
next
  case windowDay
  then show ?thesis
    unfolding windowDay windowStart_day WindowReset_day day_of_iff [symmetric] by auto
next
  case windowMonth
  let ?s = "windowStart windowMonth"
  have "?s t = ?s u \<longleftrightarrow> Year t = Year u \<and> Month t = Month u"
    using month_start_civil [of t] month_start_civil [of u] by (metis windowStart.simps(3))
  then show ?thesis
    unfolding windowMonth WindowReset_month using month_interval [OF Month_bounds [of u], of t "Year u"] by simp
qed

lemma window_brackets: "windowStart w t \<le> t \<and> t < WindowReset w t"
  using same_window_iff [of w t t] by simp

lemma windowStart_idem [simp]: "windowStart w (windowStart w t) = windowStart w t"
  unfolding same_window_iff [of w "windowStart w t" t] using window_brackets [of w t] by auto

lemma windowStart_mono: "t \<le> u \<Longrightarrow> windowStart w t \<le> windowStart w u"
proof (rule ccontr)
  assume "t \<le> u" "\<not> windowStart w t \<le> windowStart w u"
  then have "windowStart w u \<le> windowStart w t \<and> windowStart w t < WindowReset w u"
    using window_brackets [of w t] window_brackets [of w u] by linarith
  then have "windowStart w (windowStart w t) = windowStart w u" by (simp only: same_window_iff)
  with \<open>\<not> windowStart w t \<le> windowStart w u\<close> show False by simp
qed

lemma windowStart_WindowReset: "windowStart w (WindowReset w t) = WindowReset w t"
proof (rule ccontr)
  let ?r = "WindowReset w t"
  let ?s = "windowStart w ?r"
  assume "?s \<noteq> ?r"
  then have lt: "?s < ?r" using window_brackets [of w ?r] by linarith
  show False
  proof (cases "?s \<le> t")
    case True
    then have "windowStart w ?r = windowStart w t"
      using same_window_iff [of w t ?r] window_brackets [of w t] window_brackets [of w ?r] by linarith
    then show False using same_window_iff [of w ?r t] by blast
  next
    case False
    then have "windowStart w ?s = windowStart w t"
      using same_window_iff [of w ?s t] window_brackets [of w t] lt by linarith
    then show False using False window_brackets [of w t] by simp
  qed
qed

section \<open>Counters: lemmas\<close>

abbreviation minute_of :: "gotime \<Rightarrow> gotime" where
  "minute_of t \<equiv> windowStart windowMinute t"

named_theorems roll_simps \<open>fields of rolled counters\<close>

lemma roll_fields [roll_simps]:
  "Counters_MinuteStart (roll now c) = windowStart windowMinute now"
  "Counters_DayStart (roll now c) = windowStart windowDay now"
  "Counters_MonthStart (roll now c) = windowStart windowMonth now"
  "Counters_MinuteRequests (roll now c) =
     (if Counters_MinuteStart c = windowStart windowMinute now then Counters_MinuteRequests c else 0)"
  "Counters_MinuteTokens (roll now c) =
     (if Counters_MinuteStart c = windowStart windowMinute now then Counters_MinuteTokens c else 0)"
  "Counters_DayTokens (roll now c) =
     (if Counters_DayStart c = windowStart windowDay now then Counters_DayTokens c else 0)"
  "Counters_MonthTokens (roll now c) =
     (if Counters_MonthStart c = windowStart windowMonth now then Counters_MonthTokens c else 0)"
  by (simp_all add: roll_def Let_def del: windowStart.simps)

lemma roll_idem [simp]: "roll now (roll now c) = roll now c"
  by (rule Counters.equality) (simp_all add: roll_simps del: windowStart.simps)

text \<open>
  What the engine relies on of a counter store: each operation rolls and updates the counters of
  its key, \<open>peek\<close>, and of no other, and a reservation is granted exactly when the check passes on the
  rolled counters.
\<close>

locale counter_store =
  fixes reserve :: "string \<Rightarrow> gotime \<Rightarrow> (Counters \<Rightarrow> QuotaError option) \<Rightarrow> 's \<Rightarrow> QuotaError option \<times> 's"
    and add_tokens :: "string \<Rightarrow> gotime \<Rightarrow> uint64 \<Rightarrow> 's \<Rightarrow> 's"
    and get :: "string \<Rightarrow> gotime \<Rightarrow> 's \<Rightarrow> Counters \<times> 's"
    and peek :: "'s \<Rightarrow> string \<Rightarrow> Counters"
  assumes reserve_result: "fst (reserve k now chk s) = chk (roll now (peek s k))"
    and peek_reserve: "peek (snd (reserve k now chk s)) j =
      (if j \<noteq> k then peek s j
       else let c = roll now (peek s k)
            in if chk c = None then c\<lparr>Counters_MinuteRequests := Counters_MinuteRequests c + 1\<rparr> else c)"
    and peek_add: "peek (add_tokens k now n s) j =
      (if j \<noteq> k then peek s j
       else let c = roll now (peek s k)
            in c\<lparr>Counters_MinuteTokens := Counters_MinuteTokens c + n,
                 Counters_DayTokens := Counters_DayTokens c + n,
                 Counters_MonthTokens := Counters_MonthTokens c + n\<rparr>)"
    and get_result: "fst (get k now s) = roll now (peek s k)"
    and peek_get: "peek (snd (get k now s)) j = (if j \<noteq> k then peek s j else roll now (peek s k))"
begin

text \<open>A denied reservation changes nothing that a later one could see.\<close>

lemma denied_reserve_invisible:
  assumes "fst (reserve k now chk s) = Some e"
  shows "roll now (peek (snd (reserve k now chk s)) j) = roll now (peek s j)"
  using assms unfolding reserve_result peek_reserve by (simp add: Let_def)

lemma granted_reserve_counts:
  assumes "fst (reserve k now chk s) = None"
  shows "Counters_MinuteRequests (peek (snd (reserve k now chk s)) k) =
    Counters_MinuteRequests (roll now (peek s k)) + 1"
  using assms unfolding reserve_result peek_reserve by (simp add: Let_def)

end

interpretation mem_counters: counter_store Reserve AddTokens Counter_Get "gomap_get zero_Counters"
  by unfold_locales
    (auto simp: Reserve_def AddTokens_def Counter_Get_def Let_def gomap_get_update split: option.splits)

abbreviation counters_of :: "Engine \<Rightarrow> string \<Rightarrow> Counters" where
  "counters_of e k \<equiv> gomap_get zero_Counters (Engine_cs e) k"

lemma CheckAndReserve_eq:
  "fst (CheckAndReserve now key e) =
     check_limits (effectiveLimits e key) (roll now (counters_of e (APIKey_ID key)))"
  "Engine_cs (snd (CheckAndReserve now key e)) =
     snd (Reserve (APIKey_ID key) now (check_limits (effectiveLimits e key)) (Engine_cs e))"
  "Engine_defaults (snd (CheckAndReserve now key e)) = Engine_defaults e"
  "Engine_global (snd (CheckAndReserve now key e)) = Engine_global e"
  using mem_counters.reserve_result
    [of "APIKey_ID key" now "check_limits (effectiveLimits e key)" "Engine_cs e"]
  by (cases "Reserve (APIKey_ID key) now (check_limits (effectiveLimits e key)) (Engine_cs e)",
      simp add: CheckAndReserve_def Let_def)+

section \<open>Histories of the engine\<close>

datatype QuotaOp =
    QReserve APIKey gotime
  | QGlobal gotime
  | QRecord string uint64 gotime
  | QRecordGlobal uint64 gotime
  | QUsage string gotime

primrec op_time :: "QuotaOp \<Rightarrow> gotime" where
  "op_time (QReserve key now) = now"
| "op_time (QGlobal now) = now"
| "op_time (QRecord k n now) = now"
| "op_time (QRecordGlobal n now) = now"
| "op_time (QUsage k now) = now"

text \<open>One call: the key and time of the request it admits, if any, and the engine after it.\<close>

primrec quota_step :: "QuotaOp \<Rightarrow> Engine \<Rightarrow> (string \<times> gotime) list \<times> Engine" where
  "quota_step (QReserve key now) e =
     (case CheckAndReserve now key e of
        (None, e') \<Rightarrow> ([(APIKey_ID key, now)], e')
      | (Some err, e') \<Rightarrow> ([], e'))"
| "quota_step (QGlobal now) e = ([], snd (CheckAndReserveGlobal now e))"
| "quota_step (QRecord k n now) e = ([], RecordTokens now k n e)"
| "quota_step (QRecordGlobal n now) e = ([], RecordGlobalTokens now n e)"
| "quota_step (QUsage k now) e = ([], snd (Usage now k zero_Limits e))"

fun quota_run :: "QuotaOp list \<Rightarrow> Engine \<Rightarrow> (string \<times> gotime) list \<times> Engine" where
  "quota_run [] e = ([], e)"
| "quota_run (x # xs) e =
     (let (a, e1) = quota_step x e; (b, e2) = quota_run xs e1 in (a @ b, e2))"

definition admitted_in :: "string \<Rightarrow> gotime \<Rightarrow> (string \<times> gotime) list \<Rightarrow> nat" where
  "admitted_in k W adm = length (filter (\<lambda>(i, t). i = k \<and> minute_of t = W) adm)"

lemma admitted_in_append [simp]: "admitted_in k W (a @ b) = admitted_in k W a + admitted_in k W b"
  by (simp add: admitted_in_def)

lemma quota_step_times: "(i, t) \<in> set (fst (quota_step x e)) \<Longrightarrow> t = op_time x"
  by (cases x) (auto split: prod.splits option.splits)

lemma quota_run_times: "(i, t) \<in> set (fst (quota_run xs e)) \<Longrightarrow> t \<in> op_time ` set xs"
proof (induction xs arbitrary: e)
  case Nil
  then show ?case by simp
next
  case (Cons x xs)
  then have "(i, t) \<in> set (fst (quota_step x e)) \<or> (i, t) \<in> set (fst (quota_run xs (snd (quota_step x e))))"
    by (auto simp: Let_def split: prod.splits)
  then show ?case using Cons.IH quota_step_times by auto
qed

lemma quota_step_limits:
  "Engine_defaults (snd (quota_step x e)) = Engine_defaults e"
  by (cases x)
    (auto simp: CheckAndReserve_def CheckAndReserveGlobal_def RecordTokens_def RecordGlobalTokens_def
      Usage_def Let_def split: prod.splits option.splits)

text \<open>
  One call, seen from a key that is not the global one: its counters stay, or they are rolled to the
  time of the call and count one request more if the call admitted one for the key.
\<close>

lemma check_limits_rpm:
  assumes "check_limits lim c = None" and "Limits_RPM lim \<noteq> 0"
    and "Counters_MinuteRequests c \<le> Limits_RPM lim" and "Limits_RPM lim + 1 \<noteq> 0"
  shows "unat (Counters_MinuteRequests c + 1) = unat (Counters_MinuteRequests c) + 1 \<and>
    Counters_MinuteRequests c + 1 \<le> Limits_RPM lim"
proof -
  have le: "Counters_MinuteRequests c + 1 \<le> Limits_RPM lim"
    using assms(1,2) by (auto simp: check_limits_def not_less split: if_splits)
  moreover have "Counters_MinuteRequests c + 1 \<noteq> 0"
    using assms(3,4) by (metis add.commute antisym max_word_max max_word_wrap word_order.extremum_uniqueI)
  ultimately show ?thesis by (simp add: unatSuc add.commute)
qed

lemma quota_step_reserve:
  "snd (quota_step (QReserve key now) e) = snd (CheckAndReserve now key e)"
  by (simp split: prod.split option.split)

lemma quota_step_effective: "effectiveLimits (snd (quota_step x e)) key = effectiveLimits e key"
  by (simp add: effectiveLimits_def quota_step_limits split: option.split)

lemma quota_step_other:
  assumes "k \<noteq> globalKeyID"
    and "case x of QReserve key now \<Rightarrow> APIKey_ID key \<noteq> k | QRecord j n now \<Rightarrow> j \<noteq> k \<or> n = 0
      | QUsage j now \<Rightarrow> j \<noteq> k | _ \<Rightarrow> True"
  shows "counters_of (snd (quota_step x e)) k = counters_of e k"
    and "admitted_in k W (fst (quota_step x e)) = 0"
proof -
  show "counters_of (snd (quota_step x e)) k = counters_of e k"
  proof (cases x)
    case (QReserve key now)
    have "counters_of (snd (CheckAndReserve now key e)) k = counters_of e k"
      using QReserve assms by (simp add: CheckAndReserve_eq mem_counters.peek_reserve)
    then show ?thesis unfolding QReserve quota_step_reserve .
  next
    case (QGlobal now)
    then show ?thesis
      using assms mem_counters.peek_reserve [of globalKeyID now "check_global (Engine_global e)" "Engine_cs e" k]
      by (cases "Reserve globalKeyID now (check_global (Engine_global e)) (Engine_cs e)")
        (simp add: CheckAndReserveGlobal_def Let_def)
  next
    case (QUsage j now)
    then show ?thesis
      using assms mem_counters.peek_get [of j now "Engine_cs e" k]
      by (cases "Counter_Get j now (Engine_cs e)") (simp add: Usage_def Let_def)
  qed (use assms in \<open>simp_all add: RecordTokens_def RecordGlobalTokens_def Let_def mem_counters.peek_add\<close>)
  show "admitted_in k W (fst (quota_step x e)) = 0"
    using assms by (cases x) (auto simp: admitted_in_def split: prod.splits option.splits)
qed

lemma quota_step_own:
  assumes "k \<noteq> globalKeyID"
    and own: "\<not> (case x of QReserve key now \<Rightarrow> APIKey_ID key \<noteq> k | QRecord j n now \<Rightarrow> j \<noteq> k \<or> n = 0
      | QUsage j now \<Rightarrow> j \<noteq> k | _ \<Rightarrow> True)"
    and lim: "\<forall>key now. x = QReserve key now \<longrightarrow> Limits_RPM (effectiveLimits e key) = R"
    and R: "R \<noteq> 0" "R + 1 \<noteq> 0" and bound: "Counters_MinuteRequests (counters_of e k) \<le> R"
  defines "c \<equiv> counters_of e k" and "c' \<equiv> counters_of (snd (quota_step x e)) k"
    and "b \<equiv> length (fst (quota_step x e))"
  shows "Counters_MinuteStart c' = minute_of (op_time x)"
    and "unat (Counters_MinuteRequests c') =
      (if Counters_MinuteStart c = minute_of (op_time x) then unat (Counters_MinuteRequests c) else 0) + b"
    and "Counters_MinuteRequests c' \<le> R"
    and "admitted_in k W (fst (quota_step x e)) = (if minute_of (op_time x) = W then b else 0)"
proof -
  have "Counters_MinuteStart c' = minute_of (op_time x) \<and>
    unat (Counters_MinuteRequests c') =
      (if Counters_MinuteStart c = minute_of (op_time x) then unat (Counters_MinuteRequests c) else 0) + b \<and>
    Counters_MinuteRequests c' \<le> R \<and>
    admitted_in k W (fst (quota_step x e)) = (if minute_of (op_time x) = W then b else 0)"
  proof (cases x)
    case (QReserve key now)
    let ?lim = "effectiveLimits e key"
    have k: "APIKey_ID key = k" using own QReserve by simp
    have le: "Counters_MinuteRequests (roll now c) \<le> R"
      using bound by (simp add: roll_simps c_def del: windowStart.simps)
    have c': "c' = (if check_limits ?lim (roll now c) = None
        then (roll now c)\<lparr>Counters_MinuteRequests := Counters_MinuteRequests (roll now c) + 1\<rparr>
        else roll now c)"
      using mem_counters.peek_reserve [of k now "check_limits ?lim" "Engine_cs e" k] CheckAndReserve_eq(2) [of now key e]
      unfolding c'_def c_def QReserve quota_step_reserve by (simp add: k Let_def)
    have s: "fst (quota_step x e) = (if check_limits ?lim (roll now c) = None then [(k, now)] else [])"
      using CheckAndReserve_eq(1) [of now key e] by (auto simp: QReserve k c_def dest: sym split: prod.splits option.splits)
    have b: "b = (if check_limits ?lim (roll now c) = None then 1 else 0)"
      and adm: "admitted_in k W (fst (quota_step x e)) =
        (if check_limits ?lim (roll now c) = None \<and> minute_of now = W then 1 else 0)"
      and time: "op_time x = now"
      unfolding b_def s by (simp_all add: admitted_in_def QReserve)
    show ?thesis
      unfolding c' b adm time
      using check_limits_rpm [of ?lim "roll now c"] lim QReserve R le
      by (auto simp: roll_simps simp del: windowStart.simps split: if_splits)
  next
    case (QRecord j n now)
    then show ?thesis
      using own bound
      by (auto simp: c'_def c_def b_def RecordTokens_def mem_counters.peek_add Let_def roll_simps admitted_in_def
          simp del: windowStart.simps)
  next
    case (QUsage j now)
    then have "c' = roll now c"
      using own mem_counters.peek_get [of j now "Engine_cs e" k]
      by (cases "Counter_Get j now (Engine_cs e)") (simp add: c'_def c_def Usage_def Let_def)
    then show ?thesis
      using bound QUsage by (auto simp: c_def b_def roll_simps admitted_in_def simp del: windowStart.simps)
  qed (use own in auto)
  then show "Counters_MinuteStart c' = minute_of (op_time x)"
    and "unat (Counters_MinuteRequests c') =
      (if Counters_MinuteStart c = minute_of (op_time x) then unat (Counters_MinuteRequests c) else 0) + b"
    and "Counters_MinuteRequests c' \<le> R"
    and "admitted_in k W (fst (quota_step x e)) = (if minute_of (op_time x) = W then b else 0)" by auto
qed

lemma no_earlier_admissions:
  assumes "\<forall>x\<in>set xs. t \<le> op_time x" and "W < minute_of t"
  shows "admitted_in k W (fst (quota_run xs e)) = 0"
proof -
  have "minute_of u \<noteq> W" if "(i, u) \<in> set (fst (quota_run xs e))" for i u
    using quota_run_times [OF that] assms windowStart_mono [of t u windowMinute] by auto
  then show ?thesis unfolding admitted_in_def length_0_conv filter_empty_conv by blast
qed

lemma quota_run_Cons_fst:
  "fst (quota_run (x # xs) e) = fst (quota_step x e) @ fst (quota_run xs (snd (quota_step x e)))"
  by (simp add: Let_def split: prod.splits)

lemma quota_run_bound:
  "k \<noteq> globalKeyID \<Longrightarrow> sorted (map op_time xs) \<Longrightarrow>
   (\<forall>x\<in>set xs. Counters_MinuteStart (counters_of e k) \<le> minute_of (op_time x)) \<Longrightarrow>
   (\<forall>key now. QReserve key now \<in> set xs \<longrightarrow> APIKey_ID key = k \<longrightarrow> Limits_RPM (effectiveLimits e key) = R) \<Longrightarrow>
   R \<noteq> 0 \<Longrightarrow> R + 1 \<noteq> 0 \<Longrightarrow> Counters_MinuteRequests (counters_of e k) \<le> R \<Longrightarrow>
   admitted_in k W (fst (quota_run xs e)) +
     (if Counters_MinuteStart (counters_of e k) = W then unat (Counters_MinuteRequests (counters_of e k)) else 0)
     \<le> unat R"
proof (induction xs arbitrary: e)
  case Nil
  then show ?case by (simp add: admitted_in_def word_le_nat_alt)
next
  case (Cons x xs)
  define e1 where "e1 = snd (quota_step x e)"
  define n where "n = admitted_in k W (fst (quota_run xs e1))"
  have lim: "\<forall>key now. QReserve key now \<in> set xs \<longrightarrow> APIKey_ID key = k \<longrightarrow> Limits_RPM (effectiveLimits e1 key) = R"
    using Cons.prems(4) by (simp add: e1_def quota_step_effective)
  have later: "\<forall>y\<in>set xs. op_time x \<le> op_time y" and sorted: "sorted (map op_time xs)"
    using Cons.prems(2) by auto
  have ms: "\<forall>y\<in>set xs. Counters_MinuteStart (counters_of e k) \<le> minute_of (op_time y)"
    using Cons.prems(3) by simp
  let ?own = "\<not> (case x of QReserve key now \<Rightarrow> APIKey_ID key \<noteq> k | QRecord j n now \<Rightarrow> j \<noteq> k \<or> n = 0
      | QUsage j now \<Rightarrow> j \<noteq> k | _ \<Rightarrow> True)"
  show ?case
  proof (cases ?own)
    case False
    have same: "counters_of e1 k = counters_of e k" "admitted_in k W (fst (quota_step x e)) = 0"
      unfolding e1_def using quota_step_other [OF Cons.prems(1), where x = x and e = e] False by blast+
    have "n + (if Counters_MinuteStart (counters_of e k) = W
        then unat (Counters_MinuteRequests (counters_of e k)) else 0) \<le> unat R"
      using Cons.IH [OF Cons.prems(1) sorted _ lim Cons.prems(5,6), unfolded same(1), folded n_def]
        ms Cons.prems(7) by blast
    then show ?thesis unfolding quota_run_Cons_fst admitted_in_append same(2) e1_def [symmetric] n_def by simp
  next
    case True
    have l: "\<forall>key now. x = QReserve key now \<longrightarrow> Limits_RPM (effectiveLimits e key) = R"
      using Cons.prems(4) True by auto
    note own = quota_step_own [OF Cons.prems(1) True l Cons.prems(5-7), folded e1_def]
    have "\<forall>y\<in>set xs. Counters_MinuteStart (counters_of e1 k) \<le> minute_of (op_time y)"
      unfolding own(1) by (intro ballI windowStart_mono bspec [OF later])
    note IH = Cons.IH [OF Cons.prems(1) sorted this lim Cons.prems(5,6) own(3), folded n_def, unfolded own(1)]
    have zero: "W < minute_of (op_time x) \<Longrightarrow> n = 0"
      unfolding n_def using later by (rule no_earlier_admissions)
    have first: "Counters_MinuteStart (counters_of e k) \<le> minute_of (op_time x)" using Cons.prems(3) by simp
    have mr: "unat (Counters_MinuteRequests (counters_of e k)) \<le> unat R"
      using Cons.prems(7) by (simp add: word_le_nat_alt)
    have "admitted_in k W (fst (quota_step x e)) + n + (if Counters_MinuteStart (counters_of e k) = W
        then unat (Counters_MinuteRequests (counters_of e k)) else 0) \<le> unat R"
      using IH zero first mr unfolding own(2) own(4) [of W]
      by (cases "minute_of (op_time x) = W"; cases "Counters_MinuteStart (counters_of e k) = W")
        (auto simp del: windowStart.simps split: if_splits)
    then show ?thesis unfolding quota_run_Cons_fst admitted_in_append e1_def [symmetric] n_def by simp
  qed
qed

section \<open>Retry hints\<close>

text \<open>The resets of the dimensions a snapshot reports at or over their limit.\<close>

definition exhausted_resets :: "Snapshot \<Rightarrow> gotime list" where
  "exhausted_resets s =
     (let lim = Snapshot_Limits s
      in (if Limits_RPM lim \<noteq> 0 \<and> Snapshot_RequestsThisMinute s \<ge> Limits_RPM lim
          then [Snapshot_MinuteResetsAt s] else []) @
         (if Limits_TPM lim \<noteq> 0 \<and> Snapshot_TokensThisMinute s \<ge> Limits_TPM lim
          then [Snapshot_MinuteResetsAt s] else []) @
         (if Limits_DailyTokens lim \<noteq> 0 \<and> Snapshot_TokensToday s \<ge> Limits_DailyTokens lim
          then [Snapshot_DayResetsAt s] else []) @
         (if Limits_MonthlyTokens lim \<noteq> 0 \<and> Snapshot_TokensThisMonth s \<ge> Limits_MonthlyTokens lim
          then [Snapshot_MonthResetsAt s] else []))"

definition soonest :: "gotime \<Rightarrow> gotime list \<Rightarrow> gotime option \<Rightarrow> gotime option" where
  "soonest now rs b = fold (consider_reset now) rs b"

lemma RetryAfter_fold:
  "RetryAfter s now =
     (let best = soonest now (exhausted_resets s) None
      in if best \<noteq> None then best
         else soonest now [Snapshot_MinuteResetsAt s, Snapshot_DayResetsAt s, Snapshot_MonthResetsAt s] None)"
  unfolding RetryAfter_def exhausted_resets_def soonest_def Let_def by (auto split: if_splits)

lemma soonest_spec:
  "soonest now rs b = Some r \<Longrightarrow>
     (r \<in> set rs \<and> now < r \<or> b = Some r) \<and> (\<forall>x\<in>set rs. now < x \<longrightarrow> r \<le> x) \<and> (\<forall>x. b = Some x \<longrightarrow> r \<le> x)"
proof (induction rs arbitrary: b)
  case Nil
  then show ?case by (simp add: soonest_def)
next
  case (Cons y rs)
  then have "soonest now rs (consider_reset now y b) = Some r" by (simp add: soonest_def)
  from Cons.IH [OF this] show ?case
    by (auto simp: consider_reset_def split: if_splits option.splits)
qed

lemma soonest_none: "soonest now rs b = None \<longleftrightarrow> b = None \<and> (\<forall>x\<in>set rs. x \<le> now)"
  by (induction rs arbitrary: b)
    (auto simp: soonest_def consider_reset_def not_less split: if_splits option.splits)

lemma denied_exhausted:
  assumes "check_limits lim c = Some err"
  shows "Limits_RPM lim \<noteq> 0 \<and> Counters_MinuteRequests c \<ge> Limits_RPM lim \<or>
    Limits_TPM lim \<noteq> 0 \<and> Counters_MinuteTokens c \<ge> Limits_TPM lim \<or>
    Limits_DailyTokens lim \<noteq> 0 \<and> Counters_DayTokens c \<ge> Limits_DailyTokens lim \<or>
    Limits_MonthlyTokens lim \<noteq> 0 \<and> Counters_MonthTokens c \<ge> Limits_MonthlyTokens lim"
proof -
  have "Limits_RPM lim \<le> Counters_MinuteRequests c" if "Counters_MinuteRequests c + 1 > Limits_RPM lim"
    using that by (metis inc_le linorder_not_less order_le_less)
  with assms show ?thesis by (auto simp: check_limits_def split: if_splits)
qed

section \<open>Checkpoints\<close>

text \<open>Counters that do not lie in the future of an instant.\<close>

definition counters_past :: "gotime \<Rightarrow> Counters \<Rightarrow> bool" where
  "counters_past now c \<longleftrightarrow>
     Counters_MinuteStart c \<le> windowStart windowMinute now \<and>
     Counters_DayStart c \<le> windowStart windowDay now \<and>
     Counters_MonthStart c \<le> windowStart windowMonth now"

lemma roll_roll:
  assumes "counters_past now c" and "now \<le> now'"
  shows "roll now' (roll now c) = roll now' c"
proof -
  have "windowStart w now \<le> windowStart w now'" for w using assms(2) by (rule windowStart_mono)
  from this [of windowMinute] this [of windowDay] this [of windowMonth] assms(1) show ?thesis
    unfolding counters_past_def
    by (intro Counters.equality) (auto simp: roll_simps simp del: windowStart.simps)
qed

lemma gomap_get_rolled:
  assumes "\<forall>c\<in>snd ` set m. counters_past now c" and "now \<le> now'"
  shows "roll now' (gomap_get zero_Counters (map (\<lambda>(k, c). (k, roll now c)) m) k) =
    roll now' (gomap_get zero_Counters m k)"
proof (cases "map_of m k")
  case None
  then show ?thesis by (simp add: gomap_get_def map_of_map)
next
  case (Some c)
  then have "counters_past now c" using assms(1) by (force dest: map_of_SomeD)
  with Some show ?thesis
    using roll_roll assms(2) by (simp add: gomap_get_def map_of_map)
qed

section \<open>Properties\<close>

text \<open>
  C2. Requests-per-minute is a hard bound. Take any sequence of reservations, global reservations,
  token records and usage reads with a clock that does not go back, on an engine whose counters for
  a key are fresh. If the limit in force for the key is a nonzero RPM that is not the largest
  64-bit value, then in every calendar minute at most RPM requests of the key are admitted, however
  the calls of other keys and of the global limiter are interleaved.
\<close>

theorem rpm_never_exceeded:
  assumes "k \<noteq> globalKeyID" and "sorted (map op_time xs)" and "\<forall>x\<in>set xs. zero_time \<le> op_time x"
    and "\<forall>key now. QReserve key now \<in> set xs \<longrightarrow> APIKey_ID key = k \<longrightarrow> Limits_RPM (effectiveLimits e key) = R"
    and "R \<noteq> 0" and "R + 1 \<noteq> 0" and "gomap_get zero_Counters (Engine_cs e) k = zero_Counters"
  shows "admitted_in k W (fst (quota_run xs e)) \<le> unat R"
proof -
  have start: "\<forall>x\<in>set xs. Counters_MinuteStart (counters_of e k) \<le> minute_of (op_time x)"
  proof
    fix x assume "x \<in> set xs"
    from windowStart_mono [OF bspec [OF assms(3) this], of windowMinute]
    show "Counters_MinuteStart (counters_of e k) \<le> minute_of (op_time x)"
      unfolding assms(7) by (simp add: zero_Counters_def Truncate_def)
  qed
  have "Counters_MinuteRequests (counters_of e k) \<le> R"
    unfolding assms(7) by (simp add: zero_Counters_def)
  from quota_run_bound [OF assms(1,2) start assms(4-6) this, of W] show ?thesis by simp
qed

text \<open>
  The windows partition time: an instant lies between the start and the reset of its window; two
  instants have the same window exactly when one lies between the start and the reset of the
  other's; the reset starts the next window; and the start never moves back as time advances. So
  minutes, calendar days and calendar months of varying length are all handled without gap or overlap.
\<close>

theorem windows_partition_time:
  "windowStart w t \<le> t \<and> t < WindowReset w t \<and>
   (windowStart w u = windowStart w t \<longleftrightarrow> windowStart w t \<le> u \<and> u < WindowReset w t) \<and>
   windowStart w (WindowReset w t) = WindowReset w t \<and>
   (t \<le> u \<longrightarrow> windowStart w t \<le> windowStart w u)"
  using window_brackets [of w t] same_window_iff [of w u t] windowStart_WindowReset windowStart_mono
  by (simp del: windowStart.simps WindowReset.simps)

theorem windows_partition_time_witness:
  "windowStart windowMonth (Date 2024 2 29) = Date 2024 2 1 \<and> WindowReset windowMonth (Date 2024 2 29) = Date 2024 3 1 \<and>
   windowStart windowMonth (Date 2024 2 29) \<le> windowStart windowMonth (Date 2024 3 1)"
proof -
  have "Date 2024 2 29 \<le> Date 2024 3 1" by code_simp
  then have "windowStart windowMonth (Date 2024 2 29) \<le> windowStart windowMonth (Date 2024 3 1)"
    using windows_partition_time [of windowMonth "Date 2024 2 29" "Date 2024 3 1"] by blast
  moreover have "windowStart windowMonth (Date 2024 2 29) = Date 2024 2 1" by code_simp
  moreover have "WindowReset windowMonth (Date 2024 2 29) = Date 2024 3 1" by code_simp
  ultimately show ?thesis by simp
qed

text \<open>
  C25. \<open>CheckAndReserve\<close>: the request is admitted exactly when, on the counters rolled to now, the
  request count plus one does not exceed a nonzero RPM and no nonzero token limit is reached. An
  admitted request adds one to the minute's request count and nothing else; a denied one only rolls.
  The counters of every other key, the defaults and the global limits stay.
\<close>

theorem CheckAndReserve_spec:
  "let lim = effectiveLimits e key; k = APIKey_ID key; c = roll now (gomap_get zero_Counters (Engine_cs e) k);
       (err, e') = CheckAndReserve now key e
   in (err = None \<longleftrightarrow>
         (Limits_RPM lim = 0 \<or> Counters_MinuteRequests c + 1 \<le> Limits_RPM lim) \<and>
         (Limits_TPM lim = 0 \<or> Counters_MinuteTokens c < Limits_TPM lim) \<and>
         (Limits_DailyTokens lim = 0 \<or> Counters_DayTokens c < Limits_DailyTokens lim) \<and>
         (Limits_MonthlyTokens lim = 0 \<or> Counters_MonthTokens c < Limits_MonthlyTokens lim)) \<and>
      gomap_get zero_Counters (Engine_cs e') k =
        c\<lparr>Counters_MinuteRequests := Counters_MinuteRequests c + (if err = None then 1 else 0)\<rparr> \<and>
      (\<forall>j. j \<noteq> k \<longrightarrow> gomap_get zero_Counters (Engine_cs e') j = gomap_get zero_Counters (Engine_cs e) j) \<and>
      Engine_defaults e' = Engine_defaults e \<and> Engine_global e' = Engine_global e"
proof -
  obtain err e' where r: "CheckAndReserve now key e = (err, e')" by fastforce
  note eq = CheckAndReserve_eq [of now key e, unfolded r fst_conv snd_conv]
  show ?thesis
    unfolding r Let_def prod.case eq(2) mem_counters.peek_reserve
    using eq(1,3,4) by (auto simp: Let_def check_limits_def not_less not_le)
qed

theorem CheckAndReserve_spec_witness:
  "let e = NewEngine [] [WithDefaults (zero_Limits\<lparr>Limits_RPM := 1\<rparr>)]; (err, e') = CheckAndReserve 0 wit_key e
   in err = None \<and> fst (CheckAndReserve 1 wit_key e') = Some ErrQuotaExceeded \<and>
      gomap_get zero_Counters (Engine_cs e') ''other'' = zero_Counters"
proof -
  let ?e = "NewEngine [] [WithDefaults (zero_Limits\<lparr>Limits_RPM := 1\<rparr>)]"
  have "fst (CheckAndReserve 0 wit_key ?e) = None" by code_simp
  moreover have "fst (CheckAndReserve 1 wit_key (snd (CheckAndReserve 0 wit_key ?e))) = Some ErrQuotaExceeded"
    by code_simp
  moreover have "''other'' \<noteq> APIKey_ID wit_key" "gomap_get zero_Counters (Engine_cs ?e) ''other'' = zero_Counters"
    by code_simp+
  ultimately show ?thesis
    using CheckAndReserve_spec [of ?e wit_key 0] by (simp add: Let_def split: prod.splits)
qed

text \<open>
  The retry hint given with a denial: when \<open>CheckAndReserve\<close> denies a key, \<open>RetryAfter\<close> on the
  usage snapshot of the same instant names a reset strictly in the future, which is the reset of an
  exhausted dimension and the earliest such.
\<close>

theorem denied_retry_after:
  assumes "fst (CheckAndReserve now key e) = Some err"
  shows "let s = fst (UsageForKey now key e)
    in \<exists>r. RetryAfter s now = Some r \<and> now < r \<and> r \<in> set (exhausted_resets s) \<and>
         (\<forall>x\<in>set (exhausted_resets s). r \<le> x)"
proof -
  define s where "s = fst (UsageForKey now key e)"
  have c: "fst (Counter_Get (APIKey_ID key) now (Engine_cs e)) = roll now (counters_of e (APIKey_ID key))"
    by (rule mem_counters.get_result)
  have ne: "exhausted_resets s \<noteq> []"
    using denied_exhausted [OF assms [unfolded CheckAndReserve_eq(1)]] c
    unfolding s_def exhausted_resets_def UsageForKey_def Usage_def
    by (cases "Counter_Get (APIKey_ID key) now (Engine_cs e)") (auto simp: Let_def)
  have future: "\<forall>x\<in>set (exhausted_resets s). now < x"
    using window_brackets [of _ now]
    by (cases "Counter_Get (APIKey_ID key) now (Engine_cs e)")
      (auto simp: s_def exhausted_resets_def UsageForKey_def Usage_def Let_def
        simp del: windowStart.simps WindowReset.simps split: if_splits)
  have "soonest now (exhausted_resets s) None \<noteq> None"
    using ne future by (auto simp: soonest_none neq_Nil_conv)
  then obtain r where r: "soonest now (exhausted_resets s) None = Some r" by blast
  then have "RetryAfter s now = Some r" by (simp add: RetryAfter_fold Let_def)
  then show ?thesis unfolding Let_def s_def [symmetric] using soonest_spec [OF r] future by auto
qed

theorem denied_retry_after_witness:
  "let e = snd (CheckAndReserve 0 wit_key (NewEngine [] [WithDefaults (zero_Limits\<lparr>Limits_RPM := 1\<rparr>)]))
   in \<exists>r. RetryAfter (fst (UsageForKey 1 wit_key e)) 1 = Some r \<and> 1 < r"
proof -
  let ?e = "snd (CheckAndReserve 0 wit_key (NewEngine [] [WithDefaults (zero_Limits\<lparr>Limits_RPM := 1\<rparr>)]))"
  have "fst (CheckAndReserve 1 wit_key ?e) = Some ErrQuotaExceeded" by code_simp
  from denied_retry_after [OF this] show ?thesis unfolding Let_def by blast
qed

text \<open>
  Counters survive a restart: after a checkpoint that succeeded, loading it (into any store)
  succeeds and every key reads, at any later instant, the counters it would have read without the
  restart. A checkpoint that fails at any step leaves the previous document in place.
\<close>

theorem counters_checkpoint_roundtrip:
  assumes "Counter_Checkpoint path now fault m d = (None, m', d')"
    and "\<forall>c\<in>snd ` set m. counters_past now c" and "now \<le> now'"
  shows "fst (Counter_LoadCheckpoint d' m2) = None \<and>
    fst (Counter_Get k now' (snd (Counter_LoadCheckpoint d' m2))) = fst (Counter_Get k now' m) \<and>
    fst (Counter_Get k now' m') = fst (Counter_Get k now' m) \<and>
    snd (snd (Counter_Checkpoint path now (Some st) m d)) = d"
proof -
  have m': "m' = map (\<lambda>(k, c). (k, roll now c)) m" and saved: "save_doc fault m' d = (None, d')"
    using assms(1) by (auto simp: Counter_Checkpoint_def Let_def split: if_splits prod.splits)
  have "Counter_LoadCheckpoint d' m2 = (None, m')"
    using load_saved [OF saved] by (simp add: Counter_LoadCheckpoint_def)
  moreover have "roll now' (gomap_get zero_Counters m' k) = roll now' (gomap_get zero_Counters m k)"
    unfolding m' using assms(2,3) by (rule gomap_get_rolled)
  ultimately show ?thesis
    by (simp add: mem_counters.get_result Counter_Checkpoint_def save_doc_def Let_def)
qed

theorem rpm_never_exceeded_witness:
  "let e = NewEngine [] [WithDefaults (zero_Limits\<lparr>Limits_RPM := 1\<rparr>)];
       xs = [QReserve wit_key 0, QGlobal 0, QReserve wit_key 1, QUsage (APIKey_ID wit_key) 2, QReserve wit_key 3]
   in admitted_in (APIKey_ID wit_key) (windowStart windowMinute 0) (fst (quota_run xs e)) \<le> 1 \<and>
      length (fst (quota_run xs e)) = 1"
proof -
  let ?e = "NewEngine [] [WithDefaults (zero_Limits\<lparr>Limits_RPM := 1\<rparr>)]"
  let ?xs = "[QReserve wit_key 0, QGlobal 0, QReserve wit_key 1, QUsage (APIKey_ID wit_key) 2, QReserve wit_key 3]"
  have "length (fst (quota_run ?xs ?e)) = 1" by code_simp
  moreover have "Limits_RPM (effectiveLimits ?e wit_key) = 1" by code_simp
  then have "\<forall>key now. QReserve key now \<in> set ?xs \<longrightarrow> APIKey_ID key = APIKey_ID wit_key \<longrightarrow>
      Limits_RPM (effectiveLimits ?e key) = 1" by auto
  moreover have "APIKey_ID wit_key \<noteq> globalKeyID" "sorted (map op_time ?xs)" "\<forall>x\<in>set ?xs. zero_time \<le> op_time x"
    "gomap_get zero_Counters (Engine_cs ?e) (APIKey_ID wit_key) = zero_Counters" by code_simp+
  ultimately show ?thesis
    using rpm_never_exceeded [of "APIKey_ID wit_key" ?xs ?e 1 "windowStart windowMinute 0"]
    unfolding Let_def by simp
qed

theorem counters_checkpoint_roundtrip_witness:
  "let m = [(''k'', (roll 0 zero_Counters)\<lparr>Counters_MinuteRequests := 3\<rparr>)];
       (err, m', d') = Counter_Checkpoint ''p'' 0 None m DocMissing
   in err = None \<and> fst (Counter_Get ''k'' 1 (snd (Counter_LoadCheckpoint d' []))) = fst (Counter_Get ''k'' 1 m)"
proof -
  let ?m = "[(''k'', (roll 0 zero_Counters)\<lparr>Counters_MinuteRequests := 3\<rparr>)]"
  obtain m' d' where c: "Counter_Checkpoint ''p'' 0 None ?m DocMissing = (None, m', d')"
    by (simp add: Counter_Checkpoint_def save_doc_def Let_def)
  have "\<forall>c\<in>snd ` set ?m. counters_past 0 c"
    by (simp add: counters_past_def roll_simps del: windowStart.simps)
  from counters_checkpoint_roundtrip [OF c this, of 1 "[]" "''k''"] c show ?thesis by (simp add: Let_def)
qed

end
