(* ===== verification/Usage_Series.thy ===== *)
theory Usage_Series
  imports Quota
begin

text \<open>
  The daily usage series of \<^verbatim>\<open>internal/usage/usage.go\<close>: at most \<open>MaxDays\<close> samples per key, one per
  UTC day, recorded from quota snapshots and checkpointed to a file. \<^verbatim>\<open>sort.Slice\<close> is a sort by day;
  Go leaves the order of samples of one day open, and a series that \<^verbatim>\<open>Record\<close> built under a clock
  that does not go back has one sample per day.

  The lemmas show the series invariant (bounded, strictly ordered, days at midnight) for every
  history of recordings and restarts, what a recording does to each key, and that loading any
  document restores the bound and the order.
\<close>

section \<open>Definitions\<close>

definition MaxDays :: nat where
  "MaxDays = 7"

record DailySample =
  DailySample_Day :: gotime
  DailySample_Tokens :: uint64
  DailySample_Requests :: uint64

type_synonym series_map = "(string, DailySample list) gomap"

definition Usage_New :: series_map where
  "Usage_New = []"

definition dayStart :: "gotime \<Rightarrow> gotime" where
  "dayStart t = Date (Year t) (Month t) (Day t)"

definition trim_series :: "DailySample list \<Rightarrow> DailySample list" where
  "trim_series hist = (if length hist > MaxDays then drop (length hist - MaxDays) hist else hist)"

definition record_sample :: "gotime \<Rightarrow> DailySample \<Rightarrow> DailySample list \<Rightarrow> DailySample list" where
  "record_sample today sample hist =
     (if hist \<noteq> [] \<and> DailySample_Day (last hist) = today then hist[length hist - 1 := sample]
      else trim_series (hist @ [sample]))"

definition sample_of :: "gotime \<Rightarrow> Snapshot \<Rightarrow> DailySample" where
  "sample_of today snap =
     \<lparr>DailySample_Day = today, DailySample_Tokens = Snapshot_TokensToday snap,
      DailySample_Requests = Snapshot_RequestsThisMinute snap\<rparr>"

primrec Record_loop :: "gotime \<Rightarrow> Snapshot list \<Rightarrow> series_map \<Rightarrow> series_map" where
  "Record_loop today [] m = m"
| "Record_loop today (snap # snaps) m =
     Record_loop today snaps
       (if Snapshot_KeyID snap = [] then m
        else AList.update (Snapshot_KeyID snap)
               (record_sample today (sample_of today snap) (gomap_get [] m (Snapshot_KeyID snap))) m)"

definition Record :: "Snapshot list \<Rightarrow> gotime \<Rightarrow> series_map \<Rightarrow> series_map" where
  "Record snaps now m = Record_loop (dayStart now) snaps m"

definition SeriesForKey :: "string \<Rightarrow> series_map \<Rightarrow> DailySample list" where
  "SeriesForKey keyID m = gomap_get [] m keyID"

definition Usage_Checkpoint ::
  "string \<Rightarrow> CkptStep option \<Rightarrow> series_map \<Rightarrow> series_map Doc \<Rightarrow> CkptError option \<times> series_map Doc" where
  "Usage_Checkpoint path fault m d = (if path = [] then (None, d) else save_doc fault m d)"

definition normalize_series :: "DailySample list \<Rightarrow> DailySample list" where
  "normalize_series hist =
     trim_series (sort_key DailySample_Day
       (map (\<lambda>s. s\<lparr>DailySample_Day := dayStart (DailySample_Day s)\<rparr>) hist))"

definition Usage_LoadCheckpoint ::
  "string \<Rightarrow> series_map Doc \<Rightarrow> series_map \<Rightarrow> CkptError option \<times> series_map" where
  "Usage_LoadCheckpoint path d m =
     (if path = [] then (None, m)
      else case load_doc d of
             Inl err \<Rightarrow> (Some err, m)
           | Inr None \<Rightarrow> (None, m)
           | Inr (Some None) \<Rightarrow> (None, [])
           | Inr (Some (Some loaded)) \<Rightarrow> (None, map (\<lambda>(id, hist). (id, normalize_series hist)) loaded))"

section \<open>Lemmas\<close>

lemma dayStart_window: "dayStart t = windowStart windowDay t"
  by (simp add: dayStart_def)

lemma dayStart_idem [simp]: "dayStart (dayStart t) = dayStart t"
  unfolding dayStart_window by (rule windowStart_idem)

lemma dayStart_mono: "t \<le> u \<Longrightarrow> dayStart t \<le> dayStart u"
  unfolding dayStart_window by (rule windowStart_mono)

definition series_ok :: "DailySample list \<Rightarrow> bool" where
  "series_ok hist \<longleftrightarrow> length hist \<le> MaxDays \<and> sorted_wrt (<) (map DailySample_Day hist) \<and>
     (\<forall>s\<in>set hist. dayStart (DailySample_Day s) = DailySample_Day s)"

text \<open>A series whose samples lie on or before a day.\<close>

definition series_until :: "gotime \<Rightarrow> DailySample list \<Rightarrow> bool" where
  "series_until today hist \<longleftrightarrow> (\<forall>s\<in>set hist. DailySample_Day s \<le> today)"

lemma trim_series_length: "length (trim_series hist) \<le> MaxDays"
  by (simp add: trim_series_def)

lemma trim_series_set: "set (trim_series hist) \<subseteq> set hist"
  by (simp add: trim_series_def set_drop_subset)

lemma trim_series_sorted_wrt: "sorted_wrt P (map f hist) \<Longrightarrow> sorted_wrt P (map f (trim_series hist))"
  by (simp add: trim_series_def drop_map [symmetric] sorted_wrt_drop)

lemma trim_series_id [simp]: "length hist \<le> MaxDays \<Longrightarrow> trim_series hist = hist"
  by (simp add: trim_series_def)

lemma trim_series_last: "hist \<noteq> [] \<Longrightarrow> trim_series hist \<noteq> [] \<and> last (trim_series hist) = last hist"
  by (auto simp: trim_series_def MaxDays_def)

lemma record_sample_last:
  "record_sample today s hist \<noteq> [] \<and> last (record_sample today s hist) = s"
  using trim_series_last [of "hist @ [s]"]
  by (auto simp: record_sample_def last_list_update)

lemma series_snoc_ok:
  assumes "sorted_wrt (<) (map DailySample_Day init)" and "\<forall>x\<in>set init. DailySample_Day x < today"
    and "\<forall>x\<in>set init. dayStart (DailySample_Day x) = DailySample_Day x"
    and "dayStart today = today" and "DailySample_Day s = today"
  shows "series_ok (trim_series (init @ [s])) \<and> series_until today (trim_series (init @ [s]))"
proof -
  have "sorted_wrt (<) (map DailySample_Day (trim_series (init @ [s])))"
    using assms(1,2,5) by (intro trim_series_sorted_wrt) (simp add: sorted_wrt_append)
  moreover have "dayStart (DailySample_Day x) = DailySample_Day x \<and> DailySample_Day x \<le> today"
    if "x \<in> set (trim_series (init @ [s]))" for x
  proof -
    have "x \<in> set init \<or> x = s" using subsetD [OF trim_series_set that] by auto
    then show ?thesis using assms(2-5) by (metis order_less_imp_le order_refl)
  qed
  ultimately show ?thesis
    unfolding series_ok_def series_until_def using trim_series_length by blast
qed

lemma record_sample_ok:
  assumes "series_ok hist" and "series_until today hist" and "dayStart today = today"
    and "DailySample_Day s = today"
  shows "series_ok (record_sample today s hist) \<and> series_until today (record_sample today s hist)"
proof (cases hist rule: rev_cases)
  case Nil
  then show ?thesis using series_snoc_ok [of "[]" today s] assms(3,4) by (simp add: record_sample_def)
next
  case (snoc init l)
  have init: "sorted_wrt (<) (map DailySample_Day init)" "\<forall>x\<in>set init. DailySample_Day x < DailySample_Day l"
    "\<forall>x\<in>set init. dayStart (DailySample_Day x) = DailySample_Day x" "DailySample_Day l \<le> today"
    "length init < MaxDays" "dayStart (DailySample_Day l) = DailySample_Day l"
    using assms(1,2) unfolding snoc series_ok_def series_until_def by (simp_all add: sorted_wrt_append)
  show ?thesis
  proof (cases "DailySample_Day l = today")
    case True
    then have "record_sample today s hist = trim_series (init @ [s])"
      using init(5) by (simp add: record_sample_def snoc)
    then show ?thesis using series_snoc_ok [OF init(1) _ init(3) assms(3,4)] init(2) True by simp
  next
    case False
    then have "record_sample today s hist = trim_series (hist @ [s])" by (simp add: record_sample_def snoc)
    moreover have "\<forall>x\<in>set hist. DailySample_Day x < today" using init(2,4) False unfolding snoc by force
    moreover have "sorted_wrt (<) (map DailySample_Day hist)"
      "\<forall>x\<in>set hist. dayStart (DailySample_Day x) = DailySample_Day x"
      using assms(1) unfolding series_ok_def by simp_all
    ultimately show ?thesis using series_snoc_ok [of hist today s] assms(3,4) by simp
  qed
qed

text \<open>A recording moves one key's series by its last snapshot, folding over those for the key.\<close>

lemma Record_loop_key:
  "k \<noteq> [] \<Longrightarrow> gomap_get [] (Record_loop today snaps m) k =
     fold (\<lambda>snap. record_sample today (sample_of today snap))
       (filter (\<lambda>snap. Snapshot_KeyID snap = k) snaps) (gomap_get [] m k)"
  by (induction snaps arbitrary: m) (auto simp: gomap_get_update)

lemma Record_loop_empty_key: "gomap_get [] (Record_loop today snaps m) [] = gomap_get [] m []"
  by (induction snaps arbitrary: m) (auto simp: gomap_get_update)

lemma fold_record_ok:
  "series_ok h \<Longrightarrow> series_until today h \<Longrightarrow> dayStart today = today \<Longrightarrow>
   series_ok (fold (\<lambda>snap. record_sample today (sample_of today snap)) snaps h) \<and>
   series_until today (fold (\<lambda>snap. record_sample today (sample_of today snap)) snaps h)"
proof (induction snaps arbitrary: h)
  case Nil
  then show ?case by simp
next
  case (Cons snap snaps)
  have "series_ok (record_sample today (sample_of today snap) h) \<and>
    series_until today (record_sample today (sample_of today snap) h)"
    using Cons.prems by (intro record_sample_ok) (simp_all add: sample_of_def)
  then show ?case using Cons.IH Cons.prems(3) by simp
qed

lemma Record_ok:
  assumes "\<forall>k. series_ok (gomap_get [] m k) \<and> series_until (dayStart now) (gomap_get [] m k)"
  shows "series_ok (gomap_get [] (Record snaps now m) k) \<and>
    series_until (dayStart now) (gomap_get [] (Record snaps now m) k)"
proof (cases "k = []")
  case True
  then show ?thesis using assms by (simp add: Record_def Record_loop_empty_key)
next
  case False
  then show ?thesis using assms fold_record_ok by (simp add: Record_def Record_loop_key)
qed

lemma normalize_series_bounded:
  "length (normalize_series hist) \<le> MaxDays \<and> sorted (map DailySample_Day (normalize_series hist)) \<and>
   (\<forall>s\<in>set (normalize_series hist). dayStart (DailySample_Day s) = DailySample_Day s)"
proof -
  let ?h = "sort_key DailySample_Day (map (\<lambda>s. s\<lparr>DailySample_Day := dayStart (DailySample_Day s)\<rparr>) hist)"
  have "\<forall>s\<in>set (trim_series ?h). dayStart (DailySample_Day s) = DailySample_Day s"
    using trim_series_set [of ?h] by auto
  moreover have "sorted (map DailySample_Day (trim_series ?h))"
    by (rule trim_series_sorted_wrt) (rule sorted_sort_key)
  ultimately show ?thesis unfolding normalize_series_def using trim_series_length [of ?h] by blast
qed

lemma normalize_series_id:
  assumes "series_ok hist"
  shows "normalize_series hist = hist"
proof -
  have "map (\<lambda>s. s\<lparr>DailySample_Day := dayStart (DailySample_Day s)\<rparr>) hist = map id hist"
    using assms by (intro map_cong) (auto simp: series_ok_def)
  moreover have "sorted (map DailySample_Day hist)"
    using assms unfolding series_ok_def by (metis strict_sorted_imp_sorted)
  ultimately show ?thesis using assms
    by (simp add: normalize_series_def series_ok_def sort_key_id_if_sorted)
qed

lemma gomap_get_normalized:
  "gomap_get [] (map (\<lambda>(id, hist). (id, normalize_series hist)) m) k = normalize_series (gomap_get [] m k)"
proof -
  have "normalize_series [] = []" by (simp add: normalize_series_def)
  then show ?thesis by (simp add: gomap_get_def map_of_map split: option.split)
qed

section \<open>Histories\<close>

text \<open>A round of the snapshotter, or a restart: a checkpoint to a named file and a load of it.\<close>

datatype UsageEvent = URecord "Snapshot list" gotime | URestart

primrec usage_event :: "string \<Rightarrow> UsageEvent \<Rightarrow> series_map \<Rightarrow> series_map" where
  "usage_event path (URecord snaps now) m = Record snaps now m"
| "usage_event path URestart m =
     snd (Usage_LoadCheckpoint path (snd (Usage_Checkpoint path None m DocMissing)) Usage_New)"

definition usage_run :: "string \<Rightarrow> UsageEvent list \<Rightarrow> series_map" where
  "usage_run path evs = fold (usage_event path) evs Usage_New"

primrec event_times :: "UsageEvent list \<Rightarrow> gotime list" where
  "event_times [] = []"
| "event_times (e # es) = (case e of URecord _ now \<Rightarrow> [now] | URestart \<Rightarrow> []) @ event_times es"

lemma usage_restart:
  assumes "path \<noteq> []" and "\<forall>k. series_ok (gomap_get [] m k)"
  shows "gomap_get [] (usage_event path URestart m) k = gomap_get [] m k"
  using assms normalize_series_id
  by (simp add: Usage_LoadCheckpoint_def Usage_Checkpoint_def save_doc_def load_doc_def gomap_get_normalized)

lemma usage_fold_ok:
  "path \<noteq> [] \<Longrightarrow> sorted (event_times evs) \<Longrightarrow>
   (\<forall>k. series_ok (gomap_get [] m k) \<and> (\<forall>t\<in>set (event_times evs). series_until (dayStart t) (gomap_get [] m k))) \<Longrightarrow>
   series_ok (gomap_get [] (fold (usage_event path) evs m) k)"
proof (induction evs arbitrary: m)
  case Nil
  then show ?case by simp
next
  case (Cons e evs)
  have "(\<forall>k. series_ok (gomap_get [] (usage_event path e m) k) \<and>
      (\<forall>t\<in>set (event_times evs). series_until (dayStart t) (gomap_get [] (usage_event path e m) k)))"
  proof (cases e)
    case (URecord snaps now)
    have "series_until (dayStart t) h" if "series_until (dayStart now) h" "t \<in> set (event_times evs)" for t h
    proof -
      have "now \<le> t" using Cons.prems(2) that(2) URecord by simp
      from dayStart_mono [OF this] show ?thesis using that(1) by (force simp: series_until_def)
    qed
    then show ?thesis using Record_ok [of m now snaps] Cons.prems(3) URecord by simp
  next
    case URestart
    then show ?thesis using usage_restart [OF Cons.prems(1)] Cons.prems(3) by simp
  qed
  moreover have "sorted (event_times evs)" using Cons.prems(2) by (cases e) auto
  ultimately show ?case using Cons.IH [OF Cons.prems(1)] by simp
qed

section \<open>Properties\<close>


definition wit_snapshot :: Snapshot where
  "wit_snapshot = fst (UsageForKey 0 wit_key (NewEngine [] []))"


lemma fold_record_last:
  "snaps \<noteq> [] \<Longrightarrow>
   fold (\<lambda>snap. record_sample today (sample_of today snap)) snaps h \<noteq> [] \<and>
   last (fold (\<lambda>snap. record_sample today (sample_of today snap)) snaps h) = sample_of today (last snaps)"
  by (induction snaps rule: rev_induct) (simp_all add: record_sample_last)

lemma fold_record_again:
  "h \<noteq> [] \<Longrightarrow> DailySample_Day (last h) = today \<Longrightarrow>
   length (fold (\<lambda>snap. record_sample today (sample_of today snap)) snaps h) = length h"
proof (induction snaps arbitrary: h)
  case Nil
  then show ?case by simp
next
  case (Cons snap snaps)
  let ?h = "record_sample today (sample_of today snap) h"
  have "?h \<noteq> []" "DailySample_Day (last ?h) = today" "length ?h = length h"
    using record_sample_last [of today "sample_of today snap" h] Cons.prems
    by (simp_all add: sample_of_def) (simp add: record_sample_def)
  then show ?case using Cons.IH by simp
qed

text \<open>
  What one recording leaves: for a key that some snapshot of the round names, the newest sample
  is today's, with the figures of the last such snapshot, and further rounds on the same day do not
  lengthen the series; a key no snapshot names keeps its series.
\<close>

theorem Record_latest:
  "let mine = filter (\<lambda>s. Snapshot_KeyID s = k) snaps; h = SeriesForKey k (Record snaps now m)
   in if k = [] \<or> mine = [] then h = SeriesForKey k m
      else h \<noteq> [] \<and> last h = sample_of (dayStart now) (last mine) \<and>
           length (SeriesForKey k (Record snaps2 now (Record snaps now m))) = length h"
proof (cases "k = []")
  case True
  then show ?thesis by (simp add: Record_def SeriesForKey_def Record_loop_empty_key)
next
  case False
  let ?mine = "filter (\<lambda>s. Snapshot_KeyID s = k) snaps"
  show ?thesis
  proof (cases "?mine = []")
    case True
    then show ?thesis using False by (simp add: Record_def SeriesForKey_def Record_loop_key)
  next
    case ne: False
    note last = fold_record_last [OF ne, of "dayStart now" "gomap_get [] m k"]
    then have "DailySample_Day (last (SeriesForKey k (Record snaps now m))) = dayStart now"
      using False by (simp add: Record_def SeriesForKey_def Record_loop_key sample_of_def)
    then show ?thesis
      using last False ne fold_record_again [of "SeriesForKey k (Record snaps now m)" "dayStart now"]
      by (simp add: Record_def SeriesForKey_def Record_loop_key Let_def)
  qed
qed

end
