(* ===== verification/Strconv.thy ===== *)
theory Strconv
  imports Prelude
begin

text \<open>
  The parts of Go's \<^verbatim>\<open>strconv\<close> and \<^verbatim>\<open>strings\<close> that the code uses: decimal numbers, trimming, splitting and
  fields. A string is the list of its bytes.
\<close>

section \<open>Decimal numbers\<close>

text \<open>Decimal notation of a natural number, as \<^verbatim>\<open>%d\<close> and \<^verbatim>\<open>Itoa\<close> print it.\<close>

fun decimal :: "nat \<Rightarrow> string" where
  "decimal n = (if n < 10 then [char_of (48 + n)] else decimal (n div 10) @ [char_of (48 + n mod 10)])"

declare decimal.simps [simp del]

definition Itoa :: "int \<Rightarrow> string" where
  "Itoa i = (if i < 0 then ''-'' @ decimal (nat (- i)) else decimal (nat i))"

definition digit :: "char \<Rightarrow> nat option" where
  "digit c = (let n = of_char c :: nat in if 48 \<le> n \<and> n \<le> 57 then Some (n - 48) else None)"

primrec digits_value :: "nat \<Rightarrow> string \<Rightarrow> nat option" where
  "digits_value v [] = Some v"
| "digits_value v (c # cs) = (case digit c of None \<Rightarrow> None | Some d \<Rightarrow> digits_value (10 * v + d) cs)"

text \<open>\<^verbatim>\<open>ParseUint(s, 10, 64)\<close>; both errors, of syntax and of range, are \<open>None\<close>.\<close>

definition ParseUint :: "string \<Rightarrow> uint64 option" where
  "ParseUint s =
     (if s = [] then None
      else case digits_value 0 s of None \<Rightarrow> None | Some v \<Rightarrow> if v < 2 ^ 64 then Some (of_nat v) else None)"

text \<open>\<^verbatim>\<open>Atoi\<close> on a 64-bit machine: an optional sign, digits, the range of \<^verbatim>\<open>int64\<close>.\<close>

definition Atoi :: "string \<Rightarrow> int option" where
  "Atoi s =
     (let (neg, ds) = (case s of c # cs \<Rightarrow> if c = CHR ''-'' then (True, cs) else if c = CHR ''+'' then (False, cs) else (False, s)
                               | [] \<Rightarrow> (False, []))
      in if ds = [] then None
         else (case digits_value 0 ds of
                 None \<Rightarrow> None
               | Some v \<Rightarrow> if neg then (if v \<le> 2 ^ 63 then Some (- int v) else None)
                           else (if v < 2 ^ 63 then Some (int v) else None)))"

section \<open>Strings\<close>

text \<open>White space in UTF-8: the ASCII characters, then U+0085, U+00A0, U+1680, U+2000 to U+200A,
  U+2028, U+2029, U+202F, U+205F and U+3000.\<close>

definition bytes_string :: "nat list \<Rightarrow> string" where
  "bytes_string = map char_of"

definition space_seqs :: "string list" where
  "space_seqs =
     map bytes_string ([[9], [10], [11], [12], [13], [32], [0xC2, 0x85], [0xC2, 0xA0], [0xE1, 0x9A, 0x80]] @
       map (\<lambda>b. [0xE2, 0x80, b]) [0x80 ..< 0x8B] @
       [[0xE2, 0x80, 0xA8], [0xE2, 0x80, 0xA9], [0xE2, 0x80, 0xAF], [0xE2, 0x81, 0x9F], [0xE3, 0x80, 0x80]])"

definition strip_prefix :: "string list \<Rightarrow> string \<Rightarrow> string option" where
  "strip_prefix ps s =
     (case find (\<lambda>p. p \<noteq> [] \<and> take (length p) s = p) ps of None \<Rightarrow> None | Some p \<Rightarrow> Some (drop (length p) s))"

lemma strip_prefix_shorter: "strip_prefix ps s = Some s' \<Longrightarrow> length s' < length s"
  by (auto simp: strip_prefix_def find_Some_iff split: option.splits)
    (metis diff_less length_greater_0_conv take_eq_Nil)

function trim_left :: "string list \<Rightarrow> string \<Rightarrow> string" where
  "trim_left ps s = (case strip_prefix ps s of None \<Rightarrow> s | Some s' \<Rightarrow> trim_left ps s')"
  by auto
termination
  by (relation "measure (\<lambda>(_, s). length s)") (auto dest: strip_prefix_shorter)

declare trim_left.simps [simp del]

definition TrimSpace :: "string \<Rightarrow> string" where
  "TrimSpace s = rev (trim_left (map rev space_seqs) (rev (trim_left space_seqs s)))"

text \<open>Splitting at every occurrence of one separator character.\<close>

fun Split :: "char \<Rightarrow> string \<Rightarrow> string list" where
  "Split sep [] = [[]]"
| "Split sep (c # cs) =
     (if c = sep then [] # Split sep cs
      else (case Split sep cs of [] \<Rightarrow> [[c]] | f # fs \<Rightarrow> (c # f) # fs))"

text \<open>
  \<^verbatim>\<open>strings.Fields\<close> on UTF-8: the white space runes are recognised by their encodings, which can only
  start at a rune boundary. First the length of the white space rune a byte string starts with,
  or zero.
\<close>

definition space_len :: "string \<Rightarrow> nat" where
  "space_len s =
     (let b = (\<lambda>i. if i < length s then of_char (s ! i) else (0 :: nat))
      in if b 0 \<in> set [9, 10, 11, 12, 13, 32] then 1
         else if b 0 = 0xC2 \<and> b 1 \<in> set [0x85, 0xA0] then 2
         else if b 0 = 0xE1 \<and> b 1 = 0x9A \<and> b 2 = 0x80 then 3
         else if b 0 = 0xE2 \<and> b 1 = 0x80 \<and>
                   (0x80 \<le> b 2 \<and> b 2 \<le> 0x8A \<or> b 2 \<in> set [0xA8, 0xA9, 0xAF]) then 3
         else if b 0 = 0xE2 \<and> b 1 = 0x81 \<and> b 2 = 0x9F then 3
         else if b 0 = 0xE3 \<and> b 1 = 0x80 \<and> b 2 = 0x80 then 3
         else 0)"

text \<open>\<open>cur\<close> is the field being read, reversed.\<close>

function fields_from :: "string \<Rightarrow> string \<Rightarrow> string list" where
  "fields_from cur [] = (if cur = [] then [] else [rev cur])"
| "fields_from cur (c # s) =
     (let n = space_len (c # s)
      in if n = 0 then fields_from (c # cur) s
         else (if cur = [] then [] else [rev cur]) @ fields_from [] (drop n (c # s)))"
  by pat_completeness auto
termination
  by (relation "measure (\<lambda>(cur, s). length s)") auto

definition Fields :: "string \<Rightarrow> string list" where
  "Fields s = fields_from [] s"

definition HasPrefix :: "string \<Rightarrow> string \<Rightarrow> bool" where
  "HasPrefix s p = (take (length p) s = p)"

fun Contains :: "string \<Rightarrow> string \<Rightarrow> bool" where
  "Contains [] p = (p = [])"
| "Contains (c # cs) p = (HasPrefix (c # cs) p \<or> Contains cs p)"

fun Join :: "string \<Rightarrow> string list \<Rightarrow> string" where
  "Join sep [] = []"
| "Join sep [s] = s"
| "Join sep (s # t # ss) = s @ sep @ Join sep (t # ss)"

section \<open>Lemmas\<close>

lemma digit_of_digit: "d < 10 \<Longrightarrow> digit (char_of (48 + d)) = Some d"
  by (simp add: digit_def Let_def)

lemma digits_value_append:
  "digits_value v (xs @ ys) = (case digits_value v xs of None \<Rightarrow> None | Some w \<Rightarrow> digits_value w ys)"
  by (induction xs arbitrary: v) (simp_all split: option.split)

lemma digits_value_shift:
  "digits_value v s = map_option (\<lambda>w. v * 10 ^ length s + w) (digits_value 0 s)"
proof (induction s arbitrary: v)
  case (Cons c cs)
  show ?case
  proof (cases "digit c")
    case (Some d)
    show ?thesis
      using Cons [of "10 * v + d"] Cons [of d] Some by (cases "digits_value 0 cs") (simp_all add: algebra_simps)
  qed simp
qed simp

lemma digits_value_decimal: "digits_value 0 (decimal n) = Some n"
proof (induction n rule: decimal.induct)
  case (1 n)
  show ?case
  proof (cases "n < 10")
    case True
    then show ?thesis by (simp add: decimal.simps [of n] digit_of_digit)
  next
    case False
    then show ?thesis
      using 1 by (simp add: decimal.simps [of n] digits_value_append digit_of_digit)
  qed
qed

lemma decimal_nonempty [simp]: "decimal n \<noteq> []"
  by (simp add: decimal.simps [of n])

lemma decimal_digits: "c \<in> set (decimal n) \<Longrightarrow> digit c \<noteq> None"
proof (induction n rule: decimal.induct)
  case (1 n)
  then show ?case by (cases "n < 10") (auto simp: decimal.simps [of n] digit_of_digit)
qed

lemma ParseUint_decimal: "n < 2 ^ 64 \<Longrightarrow> ParseUint (decimal n) = Some (of_nat n)"
  by (simp add: ParseUint_def digits_value_decimal)

lemma decimal_unsigned: "decimal n = c # cs \<Longrightarrow> c \<noteq> CHR ''-'' \<and> c \<noteq> CHR ''+''"
  using decimal_digits [of c n] by (auto simp: digit_def)

lemma Atoi_Itoa:
  assumes "- (2 ^ 63) \<le> i" "i < 2 ^ 63"
  shows "Atoi (Itoa i) = Some i"
proof (cases "i < 0")
  case True
  then show ?thesis
    using assms by (simp add: Itoa_def Atoi_def digits_value_decimal nat_le_iff)
next
  case False
  then obtain c cs where c: "decimal (nat i) = c # cs" by (meson decimal_nonempty neq_Nil_conv)
  then have "c \<noteq> CHR ''-''" "c \<noteq> CHR ''+''" using decimal_unsigned by blast+
  then have "Atoi (Itoa i) = (case digits_value 0 (decimal (nat i)) of None \<Rightarrow> None
      | Some v \<Rightarrow> if v < 2 ^ 63 then Some (int v) else None)"
    using False c by (simp add: Itoa_def Atoi_def split: option.split)
  then show ?thesis using False assms by (simp add: digits_value_decimal nat_less_iff)
qed

lemma decimal_inj: "decimal m = decimal n \<longleftrightarrow> m = n"
  by (metis digits_value_decimal option.inject)

section \<open>Strings without surrounding space\<close>

lemma strip_none:
  "strip_prefix ps s = None \<longleftrightarrow> (\<forall>p\<in>set ps. p = [] \<or> take (length p) s \<noteq> p)"
proof -
  have "strip_prefix ps s = None \<longleftrightarrow> find (\<lambda>p. p \<noteq> [] \<and> take (length p) s = p) ps = None"
    by (simp add: strip_prefix_def split: option.split)
  then show ?thesis unfolding find_None_iff by blast
qed

lemma strip_none_append:
  assumes "strip_prefix ps s = None" and "\<forall>p\<in>set ps. c \<notin> set p"
  shows "strip_prefix ps (s @ c # t) = None"
proof -
  have "take (length p) (s @ c # t) \<noteq> p" if p: "p \<in> set ps" "p \<noteq> []" for p
  proof (cases "length p \<le> length s")
    case True
    then show ?thesis using assms(1) p unfolding strip_none by auto
  next
    case False
    then have "c \<in> set (take (length p) (s @ c # t))" by (cases "length p - length s") auto
    then show ?thesis using assms(2) p(1) by metis
  qed
  then show ?thesis unfolding strip_none by blast
qed

lemma trim_left_none: "strip_prefix ps s = None \<Longrightarrow> trim_left ps s = s"
  by (simp add: trim_left.simps)

definition clean :: "string \<Rightarrow> bool" where
  "clean s \<longleftrightarrow> strip_prefix space_seqs s = None \<and> strip_prefix (map rev space_seqs) (rev s) = None"

lemma TrimSpace_clean: "clean s \<Longrightarrow> TrimSpace s = s"
  by (simp add: TrimSpace_def clean_def trim_left_none)

lemma space_seqs_bytes: "p \<in> set space_seqs \<Longrightarrow> c \<in> set p \<Longrightarrow> of_char c \<in> {9..13 :: nat} \<union> {32} \<union> {0x80..}"
  by (auto simp: space_seqs_def bytes_string_def)

lemma space_seqs_plain: "of_char c \<in> {33..127 :: nat} \<Longrightarrow> p \<in> set space_seqs \<Longrightarrow> c \<notin> set p"
  using space_seqs_bytes [of p c] by auto

lemma space_seqs_digit: "digit c \<noteq> None \<Longrightarrow> p \<in> set space_seqs \<Longrightarrow> c \<notin> set p"
  using space_seqs_bytes [of p c] by (auto simp: digit_def Let_def split: if_splits)

lemma clean_plain: "\<forall>c\<in>set s. of_char c \<in> {33..127 :: nat} \<Longrightarrow> clean s"
proof -
  assume s: "\<forall>c\<in>set s. of_char c \<in> {33..127 :: nat}"
  have no: "take (length p) t \<noteq> p" if p: "set p \<subseteq> set q" "q \<in> set space_seqs" "p \<noteq> []" and t: "set t = set s" for p q t
  proof
    assume "take (length p) t = p"
    then have "set p \<subseteq> set s" by (metis set_take_subset t)
    then show False using s space_seqs_plain [OF _ p(2)] p(1,3) by (metis list.set_intros(1) neq_Nil_conv subsetD)
  qed
  have "take (length p) s \<noteq> p" if "p \<in> set space_seqs" "p \<noteq> []" for p using no [of p p s] that by simp
  moreover have "take (length (rev p)) (rev s) \<noteq> rev p" if "p \<in> set space_seqs" "p \<noteq> []" for p
    using no [of "rev p" p "rev s"] that by simp
  ultimately show ?thesis unfolding clean_def strip_none set_map by blast
qed

lemma clean_digits: "\<forall>c\<in>set s. digit c \<noteq> None \<Longrightarrow> clean s"
  by (rule clean_plain) (auto simp: digit_def Let_def split: if_splits)

lemma clean_decimal: "clean (decimal n)"
  using clean_digits decimal_digits by blast

end
