(* ===== verification/Session_Store.thy ===== *)
theory Session_Store
  imports Agent_Types Checkpoint Strconv "HOL-Library.Sublist"
begin

text \<open>
  Sessions and their stores (\<^verbatim>\<open>internal/session/session.go\<close>, \<^verbatim>\<open>internal/session/store.go\<close>): the session
  record and its idle expiry, the in-memory session store, the in-memory history store with its
  turn, byte and token caps under the trim or reject policy, and the checkpoints of both.

  Message text is a byte list, split into words by \<open>Fields\<close>.

  The lemmas show that trimming keeps the longest suffix that meets every cap (never less than the
  newest turn), that a batch is all or nothing under the reject policy and the same as turn by turn
  under the trim policy, and what survives a restart.
\<close>

section \<open>Sessions\<close>

datatype SessionError = ErrSessionNotFound | ErrSessionLimitExceeded | ErrEmptyOwner | ErrGenerateID

datatype OverflowPolicy = OverflowTrim | OverflowReject

definition OverflowPolicy_String :: "OverflowPolicy \<Rightarrow> string" where
  "OverflowPolicy_String p = (case p of OverflowReject \<Rightarrow> ''reject'' | _ \<Rightarrow> ''trim'')"

datatype Status = StatusActive | StatusExpired

record Session =
  Session_ID :: string
  Session_OwnerKeyID :: string
  Session_Model :: string
  Session_BoundWorkerID :: string
  Session_CreatedAt :: gotime
  Session_LastActiveAt :: gotime
  Session_TTL :: duration
  Session_Status :: Status

definition expired :: "Session \<Rightarrow> gotime \<Rightarrow> bool" where
  "expired s now = (if Session_TTL s \<le> 0 then False else time_sub now (Session_LastActiveAt s) > Session_TTL s)"

section \<open>The session store\<close>

type_synonym session_map = "(string, Session) gomap"

definition Session_Put :: "Session \<Rightarrow> session_map \<Rightarrow> SessionError option \<times> session_map" where
  "Session_Put s m = (None, AList.update (Session_ID s) s m)"

definition Session_Get :: "string \<Rightarrow> session_map \<Rightarrow> SessionError + Session" where
  "Session_Get i m = (case map_of m i of None \<Rightarrow> Inl ErrSessionNotFound | Some s \<Rightarrow> Inr s)"

definition Session_List :: "session_map \<Rightarrow> Session list" where
  "Session_List m = map snd m"

definition Session_Delete :: "string \<Rightarrow> session_map \<Rightarrow> SessionError option \<times> session_map" where
  "Session_Delete i m = (None, AList.delete i m)"

definition writeCheckpoint :: "string \<Rightarrow> CkptStep option \<Rightarrow> 'a \<Rightarrow> 'a Doc \<Rightarrow> CkptError option \<times> 'a Doc" where
  "writeCheckpoint path fault v d = (if path = [] then (Some CkEmptyPath, d) else save_doc fault v d)"

text \<open>The result says whether the file had content; a decoded nil leaves the zero value.\<close>

definition readCheckpoint :: "'a \<Rightarrow> 'a Doc \<Rightarrow> CkptError + bool \<times> 'a" where
  "readCheckpoint z d =
     (case load_doc d of
        Inl err \<Rightarrow> Inl err
      | Inr None \<Rightarrow> Inr (False, z)
      | Inr (Some None) \<Rightarrow> Inr (True, z)
      | Inr (Some (Some v)) \<Rightarrow> Inr (True, v))"

definition Session_Checkpoint ::
  "string \<Rightarrow> gotime \<Rightarrow> CkptStep option \<Rightarrow> session_map \<Rightarrow> Session list Doc \<Rightarrow> CkptError option \<times> Session list Doc" where
  "Session_Checkpoint path now fault m d = writeCheckpoint path fault (map snd m) d"

primrec load_sessions :: "gotime \<Rightarrow> Session list \<Rightarrow> string list \<Rightarrow> session_map \<Rightarrow> string list \<times> session_map" where
  "load_sessions now [] dropped m = (dropped, m)"
| "load_sessions now (s # ss) dropped m =
     (if expired s now then load_sessions now ss (dropped @ [Session_ID s]) m
      else load_sessions now ss dropped (AList.update (Session_ID s) s m))"

definition Session_LoadCheckpoint ::
  "Session list Doc \<Rightarrow> gotime \<Rightarrow> session_map \<Rightarrow> (CkptError + string list) \<times> session_map" where
  "Session_LoadCheckpoint d now m =
     (case readCheckpoint [] d of
        Inl err \<Rightarrow> (Inl err, m)
      | Inr (ok, loaded) \<Rightarrow>
          if \<not> ok then (Inr [], [])
          else let (dropped, m') = load_sessions now loaded [] [] in (Inr dropped, m'))"

section \<open>The cost of a turn\<close>

definition turnBytes :: "Message \<Rightarrow> int" where
  "turnBytes m =
     int (length (Message_Role m)) + int (length (Message_Content m)) + int (length (Message_ToolCallID m)) +
     int (length (Message_Name m)) +
     sum_list (map (\<lambda>tc. int (length (ToolCall_ID tc)) + int (length (ToolCall_Type tc)) +
       int (length (ToolCall_FunctionName tc)) + int (length (ToolCall_Arguments tc))) (Message_ToolCalls m))"

definition turnTokens :: "Message \<Rightarrow> int" where
  "turnTokens m =
     int (length (Fields (Message_Content m))) + int (length (Fields (Message_Name m))) +
     sum_list (map (\<lambda>tc. int (length (Fields (ToolCall_FunctionName tc))) +
       int (length (Fields (ToolCall_Arguments tc)))) (Message_ToolCalls m))"

section \<open>The history store\<close>

record HistoryStore =
  HistoryStore_maxTurns :: int
  HistoryStore_maxBytes :: int
  HistoryStore_maxTokens :: int
  HistoryStore_policy :: OverflowPolicy
  HistoryStore_history :: "(string, Message list) gomap"

definition NewMemoryHistoryStoreWithPolicy :: "int \<Rightarrow> int \<Rightarrow> int \<Rightarrow> OverflowPolicy \<Rightarrow> HistoryStore" where
  "NewMemoryHistoryStoreWithPolicy maxTurns maxBytes maxTokens policy =
     \<lparr>HistoryStore_maxTurns = maxTurns, HistoryStore_maxBytes = maxBytes, HistoryStore_maxTokens = maxTokens,
      HistoryStore_policy = policy, HistoryStore_history = []\<rparr>"

definition NewMemoryHistoryStore :: "int \<Rightarrow> int \<Rightarrow> HistoryStore" where
  "NewMemoryHistoryStore maxTurns maxBytes = NewMemoryHistoryStoreWithPolicy maxTurns maxBytes 0 OverflowTrim"

record HistoryCaps =
  HistoryCaps_MaxTurns :: int
  HistoryCaps_MaxBytes :: int
  HistoryCaps_MaxTokens :: int
  HistoryCaps_Policy :: OverflowPolicy

definition SetCaps :: "HistoryCaps \<Rightarrow> HistoryStore \<Rightarrow> HistoryStore" where
  "SetCaps c m =
     m\<lparr>HistoryStore_maxTurns := HistoryCaps_MaxTurns c, HistoryStore_maxBytes := HistoryCaps_MaxBytes c,
       HistoryStore_maxTokens := HistoryCaps_MaxTokens c, HistoryStore_policy := HistoryCaps_Policy c\<rparr>"

definition Caps :: "HistoryStore \<Rightarrow> HistoryCaps" where
  "Caps m =
     \<lparr>HistoryCaps_MaxTurns = HistoryStore_maxTurns m, HistoryCaps_MaxBytes = HistoryStore_maxBytes m,
      HistoryCaps_MaxTokens = HistoryStore_maxTokens m, HistoryCaps_Policy = HistoryStore_policy m\<rparr>"

definition exceedsCap :: "HistoryStore \<Rightarrow> Message list \<Rightarrow> bool" where
  "exceedsCap m turns =
     (if HistoryStore_maxTurns m > 0 \<and> int (length turns) > HistoryStore_maxTurns m then True
      else if HistoryStore_maxBytes m > 0 \<and> sum_list (map turnBytes turns) > HistoryStore_maxBytes m then True
      else if HistoryStore_maxTokens m > 0 \<and> sum_list (map turnTokens turns) > HistoryStore_maxTokens m then True
      else False)"

text \<open>The loop that drops the oldest turn while the running total exceeds a cap and two turns remain.\<close>

fun trim_loop :: "(Message \<Rightarrow> int) \<Rightarrow> int \<Rightarrow> int \<Rightarrow> Message list \<Rightarrow> Message list" where
  "trim_loop cost cap tot (t # u # ts) =
     (if tot > cap then trim_loop cost cap (tot - cost t) (u # ts) else t # u # ts)"
| "trim_loop cost cap tot ts = ts"

definition trim :: "HistoryStore \<Rightarrow> Message list \<Rightarrow> Message list" where
  "trim m turns =
     (let turns = (if HistoryStore_maxTurns m > 0 \<and> int (length turns) > HistoryStore_maxTurns m
                   then drop (length turns - nat (HistoryStore_maxTurns m)) turns else turns);
          turns = (if HistoryStore_maxBytes m > 0
                   then trim_loop turnBytes (HistoryStore_maxBytes m) (sum_list (map turnBytes turns)) turns
                   else turns);
          turns = (if HistoryStore_maxTokens m > 0
                   then trim_loop turnTokens (HistoryStore_maxTokens m) (sum_list (map turnTokens turns)) turns
                   else turns)
      in turns)"

definition Append :: "string \<Rightarrow> Message \<Rightarrow> HistoryStore \<Rightarrow> SessionError option \<times> HistoryStore" where
  "Append sessionID turn m =
     (let turns = gomap_get [] (HistoryStore_history m) sessionID @ [turn]
      in if HistoryStore_policy m = OverflowReject \<and> exceedsCap m turns then (Some ErrSessionLimitExceeded, m)
         else (None, m\<lparr>HistoryStore_history := AList.update sessionID (trim m turns) (HistoryStore_history m)\<rparr>))"

definition AppendBatch :: "string \<Rightarrow> Message list \<Rightarrow> HistoryStore \<Rightarrow> SessionError option \<times> HistoryStore" where
  "AppendBatch sessionID turns m =
     (if turns = [] then (None, m)
      else let combined = gomap_get [] (HistoryStore_history m) sessionID @ turns
           in if HistoryStore_policy m = OverflowReject \<and> exceedsCap m combined
              then (Some ErrSessionLimitExceeded, m)
              else (None, m\<lparr>HistoryStore_history := AList.update sessionID (trim m combined) (HistoryStore_history m)\<rparr>))"

definition WouldReject :: "string \<Rightarrow> Message list \<Rightarrow> HistoryStore \<Rightarrow> bool" where
  "WouldReject sessionID turns m =
     (if HistoryStore_policy m \<noteq> OverflowReject \<or> turns = [] then False
      else exceedsCap m (gomap_get [] (HistoryStore_history m) sessionID @ turns))"

definition History_Get :: "string \<Rightarrow> HistoryStore \<Rightarrow> Message list" where
  "History_Get sessionID m = gomap_get [] (HistoryStore_history m) sessionID"

definition DeleteBySession :: "string \<Rightarrow> HistoryStore \<Rightarrow> SessionError option \<times> HistoryStore" where
  "DeleteBySession sessionID m =
     (None, m\<lparr>HistoryStore_history := AList.delete sessionID (HistoryStore_history m)\<rparr>)"

definition History_Checkpoint ::
  "string \<Rightarrow> CkptStep option \<Rightarrow> HistoryStore \<Rightarrow> (string, Message list) gomap Doc \<Rightarrow>
     CkptError option \<times> (string, Message list) gomap Doc" where
  "History_Checkpoint path fault m d = writeCheckpoint path fault (HistoryStore_history m) d"

definition History_LoadCheckpoint ::
  "(string, Message list) gomap Doc \<Rightarrow> string list option \<Rightarrow> HistoryStore \<Rightarrow> CkptError option \<times> HistoryStore" where
  "History_LoadCheckpoint d keep m =
     (case readCheckpoint [] d of
        Inl err \<Rightarrow> (Some err, m)
      | Inr (ok, loaded) \<Rightarrow>
          (None, m\<lparr>HistoryStore_history :=
             (if \<not> ok then []
              else map (\<lambda>(i, turns). (i, trim m turns))
                     (filter (\<lambda>(i, turns). case keep of None \<Rightarrow> True | Some ks \<Rightarrow> i \<in> set ks) loaded))\<rparr>))"

section \<open>Trimming: lemmas\<close>

text \<open>The longest suffix with a property, but never less than the last element.\<close>

fun keep_longest :: "('a list \<Rightarrow> bool) \<Rightarrow> 'a list \<Rightarrow> 'a list" where
  "keep_longest P [] = []"
| "keep_longest P (t # ts) = (if ts = [] \<or> P (t # ts) then t # ts else keep_longest P ts)"

lemma keep_longest_suffix: "suffix (keep_longest P ts) ts"
  by (induction ts) (auto simp: suffix_Cons)

lemma keep_longest_Nil_iff [simp]: "keep_longest P ts = [] \<longleftrightarrow> ts = []"
  by (induction ts) auto

lemma keep_longest_holds: "ts \<noteq> [] \<Longrightarrow> P (keep_longest P ts) \<or> length (keep_longest P ts) = 1"
  by (induction ts) auto

lemma keep_longest_id: "P ts \<Longrightarrow> keep_longest P ts = ts"
  by (cases ts) auto

lemma keep_longest_longest: "suffix s ts \<Longrightarrow> P s \<Longrightarrow> length s \<le> length (keep_longest P ts)"
  by (induction ts) (auto simp: suffix_Cons dest: suffix_length_le)

lemma keep_longest_cong: "(\<And>s. s \<noteq> [] \<Longrightarrow> P s \<longleftrightarrow> Q s) \<Longrightarrow> keep_longest P ts = keep_longest Q ts"
  by (induction ts) auto

definition tl_closed :: "('a list \<Rightarrow> bool) \<Rightarrow> bool" where
  "tl_closed P \<longleftrightarrow> (\<forall>t ts. P (t # ts) \<longrightarrow> P ts)"

definition butlast_closed :: "('a list \<Rightarrow> bool) \<Rightarrow> bool" where
  "butlast_closed P \<longleftrightarrow> (\<forall>t ts. P (ts @ [t]) \<longrightarrow> P ts)"

lemma keep_longest_both:
  "tl_closed P \<Longrightarrow> keep_longest Q (keep_longest P ts) = keep_longest (\<lambda>s. P s \<and> Q s) ts"
proof (induction ts)
  case Nil
  then show ?case by simp
next
  case (Cons t ts)
  show ?case
  proof (cases "ts = [] \<or> \<not> P (t # ts)")
    case True
    then show ?thesis using Cons by auto
  next
    case False
    then have "P ts" using Cons.prems by (auto simp: tl_closed_def)
    then have "keep_longest Q ts = keep_longest (\<lambda>s. P s \<and> Q s) ts"
      using Cons by (simp add: keep_longest_id)
    then show ?thesis using False by simp
  qed
qed

lemma keep_longest_snoc:
  "butlast_closed P \<Longrightarrow> keep_longest P (keep_longest P h @ [b]) = keep_longest P (h @ [b])"
proof (induction h)
  case Nil
  then show ?case by simp
next
  case (Cons t ts)
  show ?case
  proof (cases "ts = [] \<or> P (t # ts)")
    case True
    then show ?thesis by simp
  next
    case False
    then have "\<not> P ((t # ts) @ [b])" using Cons.prems by (simp only: butlast_closed_def) blast
    then show ?thesis using False Cons by simp
  qed
qed

text \<open>What the caps rely on of a cost: it is never negative.\<close>

locale turn_cost =
  fixes cost :: "Message \<Rightarrow> int"
  assumes cost_nonneg: "0 \<le> cost t"
begin

lemma sum_cost_closed:
  "tl_closed (\<lambda>ts. sum_list (map cost ts) \<le> cap)" "butlast_closed (\<lambda>ts. sum_list (map cost ts) \<le> cap)"
  using cost_nonneg by (auto simp: tl_closed_def butlast_closed_def intro: order_trans [rotated])

lemma trim_loop_longest:
  "trim_loop cost cap (sum_list (map cost ts)) ts = keep_longest (\<lambda>s. sum_list (map cost s) \<le> cap) ts"
proof (induction ts)
  case Nil
  then show ?case by simp
next
  case (Cons t ts)
  then show ?case by (cases ts) auto
qed

end

lemma turnBytes_nonneg: "0 \<le> turnBytes t"
  unfolding turnBytes_def by (intro add_nonneg_nonneg sum_list_nonneg) auto

lemma turnTokens_nonneg: "0 \<le> turnTokens t"
  unfolding turnTokens_def by (intro add_nonneg_nonneg sum_list_nonneg) auto

interpretation byte_cost: turn_cost turnBytes
  by unfold_locales (rule turnBytes_nonneg)

interpretation token_cost: turn_cost turnTokens
  by unfold_locales (rule turnTokens_nonneg)

abbreviation fits :: "HistoryStore \<Rightarrow> Message list \<Rightarrow> bool" where
  "fits m ts \<equiv> \<not> exceedsCap m ts"

definition fits_turns :: "HistoryStore \<Rightarrow> Message list \<Rightarrow> bool" where
  "fits_turns m ts \<longleftrightarrow> (HistoryStore_maxTurns m > 0 \<longrightarrow> int (length ts) \<le> HistoryStore_maxTurns m)"

definition fits_bytes :: "HistoryStore \<Rightarrow> Message list \<Rightarrow> bool" where
  "fits_bytes m ts \<longleftrightarrow> (HistoryStore_maxBytes m > 0 \<longrightarrow> sum_list (map turnBytes ts) \<le> HistoryStore_maxBytes m)"

definition fits_tokens :: "HistoryStore \<Rightarrow> Message list \<Rightarrow> bool" where
  "fits_tokens m ts \<longleftrightarrow> (HistoryStore_maxTokens m > 0 \<longrightarrow> sum_list (map turnTokens ts) \<le> HistoryStore_maxTokens m)"

lemmas fits_defs = fits_turns_def fits_bytes_def fits_tokens_def

lemma fits_split: "fits m ts \<longleftrightarrow> fits_turns m ts \<and> fits_bytes m ts \<and> fits_tokens m ts"
  by (auto simp: exceedsCap_def fits_defs)

lemma fits_closed:
  "tl_closed (fits_turns m)" "tl_closed (fits_bytes m)" "butlast_closed (fits m)"
proof -
  show "tl_closed (fits_turns m)" by (auto simp: tl_closed_def fits_turns_def)
  show "tl_closed (fits_bytes m)"
    using byte_cost.sum_cost_closed(1) by (auto simp: tl_closed_def fits_bytes_def)
  show "butlast_closed (fits m)"
    using byte_cost.sum_cost_closed(2) token_cost.sum_cost_closed(2)
    unfolding fits_split butlast_closed_def fits_defs by fastforce
qed

lemma drop_turns_longest:
  "(if HistoryStore_maxTurns m > 0 \<and> int (length ts) > HistoryStore_maxTurns m
    then drop (length ts - nat (HistoryStore_maxTurns m)) ts else ts) = keep_longest (fits_turns m) ts"
proof (induction ts)
  case Nil
  then show ?case by simp
next
  case (Cons t ts)
  show ?case
  proof (cases "HistoryStore_maxTurns m > 0 \<and> int (length (t # ts)) > HistoryStore_maxTurns m")
    case True
    then have "nat (HistoryStore_maxTurns m) \<le> length ts" "nat (HistoryStore_maxTurns m) \<noteq> 0" by auto
    moreover from this have "length (t # ts) - nat (HistoryStore_maxTurns m) =
        Suc (length ts - nat (HistoryStore_maxTurns m))" by simp
    moreover have "\<not> fits_turns m (t # ts)" using True by (simp add: fits_turns_def)
    ultimately show ?thesis using True Cons.IH by (cases "ts = []") (auto split: if_splits)
  next
    case False
    then have "fits_turns m (t # ts)" by (auto simp: fits_turns_def)
    then show ?thesis using False by (simp only: keep_longest_id if_False)
  qed
qed

lemma trim_longest: "trim m ts = keep_longest (fits m) ts"
proof -
  have 1: "(if HistoryStore_maxBytes m > 0
      then trim_loop turnBytes (HistoryStore_maxBytes m) (sum_list (map turnBytes us)) us else us) =
      keep_longest (fits_bytes m) us" for us
    by (cases "HistoryStore_maxBytes m > 0")
      (simp_all add: byte_cost.trim_loop_longest fits_bytes_def [abs_def] keep_longest_id)
  have 2: "(if HistoryStore_maxTokens m > 0
      then trim_loop turnTokens (HistoryStore_maxTokens m) (sum_list (map turnTokens us)) us else us) =
      keep_longest (fits_tokens m) us" for us
    by (cases "HistoryStore_maxTokens m > 0")
      (simp_all add: token_cost.trim_loop_longest fits_tokens_def [abs_def] keep_longest_id)
  have "tl_closed (\<lambda>s. fits_turns m s \<and> fits_bytes m s)"
    using fits_closed(1,2) [of m] unfolding tl_closed_def by blast
  then show ?thesis
    unfolding trim_def Let_def drop_turns_longest 1 2 keep_longest_both [OF fits_closed(1)]
    by (simp add: keep_longest_both fits_split conj_assoc)
qed

lemma Append_is_batch: "Append i t m = AppendBatch i [t] m"
  by (simp add: Append_def AppendBatch_def)

lemma AppendBatch_trim_state:
  assumes "HistoryStore_policy m = OverflowTrim" and "ts \<noteq> []"
  shows "AppendBatch i ts m =
    (None, m\<lparr>HistoryStore_history :=
       AList.update i (keep_longest (fits m) (History_Get i m @ ts)) (HistoryStore_history m)\<rparr>)"
  using assms by (simp add: AppendBatch_def trim_longest History_Get_def)

lemma fits_history [simp]: "exceedsCap (m\<lparr>HistoryStore_history := h\<rparr>) = exceedsCap m"
  by (simp add: exceedsCap_def fun_eq_iff)

lemma AppendBatch_snoc:
  assumes "HistoryStore_policy m = OverflowTrim"
  shows "snd (AppendBatch i (ts @ [t]) m) = snd (Append i t (snd (AppendBatch i ts m)))"
proof (cases "ts = []")
  case True
  then show ?thesis by (simp add: Append_is_batch AppendBatch_def)
next
  case False
  let ?m = "snd (AppendBatch i ts m)"
  have m: "?m = m\<lparr>HistoryStore_history :=
      AList.update i (keep_longest (fits m) (History_Get i m @ ts)) (HistoryStore_history m)\<rparr>"
    using AppendBatch_trim_state [OF assms False] by simp
  then have "HistoryStore_policy ?m = OverflowTrim" using assms by simp
  from AppendBatch_trim_state [OF this, of "[t]" i]
  have "snd (Append i t ?m) = ?m\<lparr>HistoryStore_history :=
      AList.update i (keep_longest (fits m) (keep_longest (fits m) (History_Get i m @ ts) @ [t]))
        (HistoryStore_history ?m)\<rparr>"
    by (simp add: Append_is_batch m History_Get_def gomap_get_update)
  also have "\<dots> = m\<lparr>HistoryStore_history :=
      AList.update i (keep_longest (fits m) (History_Get i m @ ts @ [t])) (HistoryStore_history m)\<rparr>"
    using keep_longest_snoc [OF fits_closed(3), of m "History_Get i m @ ts" t] by (simp add: m)
  finally show ?thesis using AppendBatch_trim_state [OF assms, of "ts @ [t]" i] by simp
qed

section \<open>Loading: lemmas\<close>

lemma load_sessions_spec:
  "distinct (map Session_ID ss) \<Longrightarrow> load_sessions now ss dropped m = (d, m') \<Longrightarrow>
   d = dropped @ map Session_ID (filter (\<lambda>s. expired s now) ss) \<and>
   (\<forall>i. map_of m' i = (case find (\<lambda>s. Session_ID s = i \<and> \<not> expired s now) ss of
      Some s \<Rightarrow> Some s | None \<Rightarrow> map_of m i))"
proof (induction ss arbitrary: dropped m)
  case Nil
  then show ?case by simp
next
  case (Cons s ss)
  have no: "find (\<lambda>u. Session_ID u = Session_ID s \<and> \<not> expired u now) ss = None"
    using Cons.prems(1) unfolding find_None_iff by (auto simp: image_iff)
  show ?case
  proof (cases "expired s now")
    case True
    then show ?thesis using Cons.IH [of "dropped @ [Session_ID s]" m] Cons.prems by simp
  next
    case False
    then have "d = dropped @ map Session_ID (filter (\<lambda>s. expired s now) ss) \<and>
        (\<forall>i. map_of m' i = (case find (\<lambda>s. Session_ID s = i \<and> \<not> expired s now) ss of
          Some s \<Rightarrow> Some s | None \<Rightarrow> map_of (AList.update (Session_ID s) s m) i))"
      using Cons.IH [of dropped "AList.update (Session_ID s) s m"] Cons.prems by simp
    then show ?thesis using False no by (auto simp: update_conv' split: option.splits)
  qed
qed

text \<open>A session map in which every session is filed under its own id.\<close>

definition filed :: "session_map \<Rightarrow> bool" where
  "filed m \<longleftrightarrow> gomap_wf m \<and> (\<forall>(i, s)\<in>set m. Session_ID s = i)"

lemma filed_lookup: "filed m \<Longrightarrow> map_of m i = Some s \<Longrightarrow> Session_ID s = i"
  by (force simp: filed_def dest: map_of_SomeD)

lemma filed_ids: "filed m \<Longrightarrow> map Session_ID (map snd m) = map fst m"
  by (auto simp: filed_def)

lemma filed_find:
  assumes "filed m"
  shows "find (\<lambda>s. Session_ID s = i \<and> \<not> expired s now) (map snd m) =
    (case map_of m i of Some s \<Rightarrow> if expired s now then None else Some s | None \<Rightarrow> None)"
  using assms
proof (induction m)
  case Nil
  then show ?case by simp
next
  case (Cons e m)
  obtain j s where e: "e = (j, s)" by (cases e)
  have m: "filed m" and s: "Session_ID s = j" and j: "j \<notin> fst ` set m"
    using Cons.prems e by (auto simp: filed_def)
  show ?case
  proof (cases "j = i")
    case True
    then have "map_of m i = None" using j by (simp add: map_of_eq_None_iff)
    then show ?thesis using Cons.IH [OF m] s e True by simp
  next
    case False
    then show ?thesis using Cons.IH [OF m] s e by simp
  qed
qed

section \<open>Properties\<close>

text \<open>
  C30. Trimming keeps the longest recent context: the result is a suffix of the turns, not empty
  unless they are, it meets the turn, byte and token caps unless it is the newest turn alone, and no
  longer suffix meets them all. This holds although the code applies the three caps one after
  another.
\<close>

theorem trim_keeps_longest_suffix:
  "let r = trim m turns
   in suffix r turns \<and> (r = [] \<longleftrightarrow> turns = []) \<and>
      (turns = [] \<or> \<not> exceedsCap m r \<or> length r = 1) \<and>
      (\<forall>s. suffix s turns \<and> \<not> exceedsCap m s \<longrightarrow> length s \<le> length r)"
  unfolding trim_longest Let_def
  using keep_longest_suffix keep_longest_holds [of turns "fits m"] keep_longest_longest [of _ turns "fits m"]
  by auto

definition wit_turn :: "string \<Rightarrow> Message" where
  "wit_turn c = \<lparr>Message_Role = ''user'', Message_Content = c, Message_ToolCallID = [], Message_Name = [],
     Message_ToolCalls = []\<rparr>"

definition wit_history :: "OverflowPolicy \<Rightarrow> HistoryStore" where
  "wit_history p = NewMemoryHistoryStoreWithPolicy 3 0 3 p"

theorem trim_keeps_longest_suffix_witness:
  "trim (wit_history OverflowTrim) [wit_turn ''a b c'', wit_turn ''d'', wit_turn ''e''] =
     [wit_turn ''d'', wit_turn ''e''] \<and>
   length [wit_turn ''e''] \<le> length (trim (wit_history OverflowTrim) [wit_turn ''a b c'', wit_turn ''d'', wit_turn ''e''])"
proof -
  let ?ts = "[wit_turn ''a b c'', wit_turn ''d'', wit_turn ''e'']"
  have "trim (wit_history OverflowTrim) ?ts = [wit_turn ''d'', wit_turn ''e'']" by code_simp
  moreover have "suffix [wit_turn ''e''] ?ts" by (simp add: suffix_def)
  moreover have "\<not> exceedsCap (wit_history OverflowTrim) [wit_turn ''e'']" by code_simp
  ultimately show ?thesis
    using trim_keeps_longest_suffix [of "wit_history OverflowTrim" ?ts] unfolding Let_def by blast
qed

text \<open>
  A batch of turns is atomic and predicted: \<open>AppendBatch\<close> fails exactly when \<open>WouldReject\<close> says so,
  with the limit error and the store unchanged. When it succeeds under the reject policy the history
  is the old one followed by the whole batch; under the trim policy the store is the one that
  appending the turns one by one produces. No other session's history changes.
\<close>

theorem AppendBatch_atomic:
  "let (err, m') = AppendBatch i ts m
   in (err = (if WouldReject i ts m then Some ErrSessionLimitExceeded else None)) \<and>
      (WouldReject i ts m \<longrightarrow> m' = m) \<and>
      (HistoryStore_policy m = OverflowReject \<and> \<not> WouldReject i ts m \<longrightarrow>
         History_Get i m' = History_Get i m @ ts) \<and>
      (HistoryStore_policy m = OverflowTrim \<longrightarrow> m' = fold (\<lambda>t m. snd (Append i t m)) ts m) \<and>
      (\<forall>j. j \<noteq> i \<longrightarrow> History_Get j m' = History_Get j m)"
proof -
  have batch: "snd (AppendBatch i ts m) = fold (\<lambda>t m. snd (Append i t m)) ts m"
    if "HistoryStore_policy m = OverflowTrim"
  proof (induction ts rule: rev_induct)
    case Nil
    then show ?case by (simp add: AppendBatch_def)
  next
    case (snoc t ts)
    then show ?case using AppendBatch_snoc [OF that] by simp
  qed
  obtain err m' where r: "AppendBatch i ts m = (err, m')" by fastforce
  have "History_Get i m' = History_Get i m @ ts"
    if "HistoryStore_policy m = OverflowReject" "\<not> WouldReject i ts m"
    using that r
    by (auto simp: AppendBatch_def WouldReject_def History_Get_def gomap_get_update trim_longest
        keep_longest_id Let_def split: if_splits)
  moreover have "m' = m \<and> err = Some ErrSessionLimitExceeded" if "WouldReject i ts m"
    using that r by (auto simp: AppendBatch_def WouldReject_def Let_def split: if_splits)
  moreover have "err = None" if "\<not> WouldReject i ts m"
    using that r by (auto simp: AppendBatch_def WouldReject_def Let_def split: if_splits)
  moreover have "\<forall>j. j \<noteq> i \<longrightarrow> History_Get j m' = History_Get j m"
    using r by (auto simp: AppendBatch_def History_Get_def gomap_get_update Let_def split: if_splits)
  moreover have "HistoryStore_policy m = OverflowTrim \<longrightarrow> m' = fold (\<lambda>t m. snd (Append i t m)) ts m"
    using batch r by simp
  ultimately show ?thesis unfolding r by simp
qed

theorem AppendBatch_atomic_witness:
  "let m = wit_history OverflowReject; ts = [wit_turn ''a b c'', wit_turn ''d'']
   in WouldReject ''s'' ts m \<and> AppendBatch ''s'' ts m = (Some ErrSessionLimitExceeded, m) \<and>
      History_Get ''s'' (snd (AppendBatch ''s'' [wit_turn ''a b''] m)) = [wit_turn ''a b'']"
proof -
  let ?m = "wit_history OverflowReject"
  let ?ts = "[wit_turn ''a b c'', wit_turn ''d'']"
  have "WouldReject ''s'' ?ts ?m" by code_simp
  moreover have "\<not> WouldReject ''s'' [wit_turn ''a b''] ?m" by code_simp
  moreover have "HistoryStore_policy ?m = OverflowReject" "History_Get ''s'' ?m = []" by code_simp+
  ultimately show ?thesis
    using AppendBatch_atomic [of "''s''" ?ts ?m] AppendBatch_atomic [of "''s''" "[wit_turn ''a b'']" ?m]
    unfolding Let_def by (auto split: prod.splits)
qed

text \<open>
  A restart keeps exactly the live sessions: after a checkpoint that succeeded, loading it at a
  later instant finds each session unless its idle time exceeds its TTL by then, reports exactly the
  expired ids as dropped, and the histories kept for the surviving ids are the old ones trimmed to
  the caps in force.
\<close>

theorem restart_keeps_live_sessions:
  assumes "filed m" and "Session_Checkpoint path t fault m d = (None, d')"
    and "History_Checkpoint path2 fault2 h hdoc = (None, hdoc')"
    and "Session_LoadCheckpoint d' now m0 = (res, m')"
    and "History_LoadCheckpoint hdoc' (Some (map fst m')) h0 = (err, h')"
  shows "(\<forall>i. Session_Get i m' = (case map_of m i of
        Some s \<Rightarrow> if expired s now then Inl ErrSessionNotFound else Inr s
      | None \<Rightarrow> Inl ErrSessionNotFound)) \<and>
    res = Inr (map fst (filter (\<lambda>(i, s). expired s now) m)) \<and> err = None \<and>
    (\<forall>i. History_Get i h' = (if i \<in> set (map fst m') then trim h0 (History_Get i h) else []))"
proof -
  have d': "load_doc d' = Inr (Some (Some (map snd m)))"
    using assms(2) load_saved by (auto simp: Session_Checkpoint_def writeCheckpoint_def split: if_splits)
  have hdoc': "load_doc hdoc' = Inr (Some (Some (HistoryStore_history h)))"
    using assms(3) load_saved by (auto simp: History_Checkpoint_def writeCheckpoint_def split: if_splits)
  obtain dr where dr: "load_sessions now (map snd m) [] [] = (dr, m')" and res: "res = Inr dr"
    using assms(4) by (auto simp: Session_LoadCheckpoint_def readCheckpoint_def d' split: prod.splits)
  have dist: "distinct (map Session_ID (map snd m))"
    unfolding filed_ids [OF assms(1)] using assms(1) by (simp add: filed_def gomap_wf_def)
  note ls = load_sessions_spec [OF dist dr]
  have "map_of m' i = (case map_of m i of Some s \<Rightarrow> if expired s now then None else Some s | None \<Rightarrow> None)" for i
    using ls filed_find [OF assms(1)] by (simp split: option.splits)
  then have "Session_Get i m' = (case map_of m i of
        Some s \<Rightarrow> if expired s now then Inl ErrSessionNotFound else Inr s
      | None \<Rightarrow> Inl ErrSessionNotFound)" for i
    by (simp add: Session_Get_def split: option.splits)
  moreover have "map Session_ID (filter (\<lambda>s. expired s now) (map snd m)) = map fst (filter (\<lambda>(i, s). expired s now) m)"
    using assms(1) unfolding filed_def by (induction m) auto
  moreover have "err = None" "HistoryStore_history h' = map (\<lambda>(i, turns). (i, trim h0 turns))
      (filter (\<lambda>(i, turns). i \<in> set (map fst m')) (HistoryStore_history h))"
    using assms(5) by (auto simp: History_LoadCheckpoint_def readCheckpoint_def hdoc')
  moreover have "gomap_get [] (map (\<lambda>(i, turns). (i, trim h0 turns)) (filter (\<lambda>(i, turns). P i) hm)) i =
      (if P i then trim h0 (gomap_get [] hm i) else [])" for P i and hm :: "(string, Message list) gomap"
    by (induction hm) (auto simp: gomap_get_def trim_longest)
  ultimately show ?thesis using ls res by (simp add: History_Get_def)
qed

definition wit_session :: Session where
  "wit_session = \<lparr>Session_ID = ''s'', Session_OwnerKeyID = ''k'', Session_Model = ''m'', Session_BoundWorkerID = [],
     Session_CreatedAt = 0, Session_LastActiveAt = 0, Session_TTL = 10, Session_Status = StatusActive\<rparr>"

theorem restart_keeps_live_sessions_witness:
  "let m = [(''s'', wit_session)]; d' = snd (Session_Checkpoint ''p'' 0 None m DocMissing)
   in Session_Get ''s'' (snd (Session_LoadCheckpoint d' 10 [])) = Inr wit_session \<and>
      Session_Get ''s'' (snd (Session_LoadCheckpoint d' 11 [])) = Inl ErrSessionNotFound"
proof -
  let ?m = "[(''s'', wit_session)]" and ?h = "wit_history OverflowTrim"
  obtain d' where d': "Session_Checkpoint ''p'' 0 None ?m DocMissing = (None, d')"
    by (simp add: Session_Checkpoint_def writeCheckpoint_def save_doc_def)
  obtain hd' where hd': "History_Checkpoint ''q'' None ?h DocMissing = (None, hd')"
    by (simp add: History_Checkpoint_def writeCheckpoint_def save_doc_def)
  have filed: "filed ?m" by (simp add: filed_def wit_session_def)
  have "Session_Get ''s'' (snd (Session_LoadCheckpoint d' now [])) =
      (if expired wit_session now then Inl ErrSessionNotFound else Inr wit_session)" for now
  proof -
    obtain r m1 where l: "Session_LoadCheckpoint d' now [] = (r, m1)" by fastforce
    obtain e h1 where "History_LoadCheckpoint hd' (Some (map fst m1)) ?h = (e, h1)" by fastforce
    from restart_keeps_live_sessions [OF filed d' hd' l this] l show ?thesis by simp
  qed
  moreover have "\<not> expired wit_session 10" "expired wit_session 11" by code_simp+
  ultimately show ?thesis using d' by simp
qed

end
