(* ===== verification/Session_Manager.thy ===== *)
theory Session_Manager
  imports Session_Store Auth
begin

text \<open>
  The session manager of \<^verbatim>\<open>internal/session/manager.go\<close> over the in-memory stores: creation under the
  per-owner cap, the owner-checked operations, deletion and the idle sweep, with the observer's calls
  kept as a log. Every operation is one atomic step; the clock and the entropy read of an operation
  are its arguments. \<open>Resume\<close>, \<open>Bind\<close> and \<open>AppendTurns\<close> read and write the session in two
  critical sections; \<open>touch_session\<close> is the second of them, so that the interleavings between the two
  can be stated.

  The lemmas show that the tally of every reachable manager is the number of stored sessions per
  owner, that no create exceeds the cap, that an owner can neither see nor change another's session,
  what a sweep removes, and that an update racing a delete brings a session back without its slot.
\<close>

section \<open>The manager\<close>

definition idPrefix :: string where
  "idPrefix = ''sess_''"

definition EndReasonDeleted :: string where
  "EndReasonDeleted = ''deleted''"

definition EndReasonExpired :: string where
  "EndReasonExpired = ''expired''"

record SessionEndStats =
  SessionEndStats_Turns :: nat
  SessionEndStats_Duration :: duration
  SessionEndStats_Reason :: string

record Manager =
  Manager_sessions :: session_map
  Manager_history :: HistoryStore
  Manager_ttl :: duration
  Manager_maxPerKey :: int
  Manager_counts :: "(string, int) gomap"
  Manager_obs :: bool
  Manager_ended :: "SessionEndStats list"
  Manager_sweepInterval :: duration

definition WithSessionObserver :: "bool \<Rightarrow> Manager \<Rightarrow> Manager" where
  "WithSessionObserver fn m = (if fn then m\<lparr>Manager_obs := True\<rparr> else m)"

definition WithTTL :: "duration \<Rightarrow> Manager \<Rightarrow> Manager" where
  "WithTTL d m = (if d > 0 then m\<lparr>Manager_ttl := d\<rparr> else m)"

definition WithSweepInterval :: "duration \<Rightarrow> Manager \<Rightarrow> Manager" where
  "WithSweepInterval d m = (if d > 0 then m\<lparr>Manager_sweepInterval := d\<rparr> else m)"

definition WithMaxSessionsPerKey :: "int \<Rightarrow> Manager \<Rightarrow> Manager" where
  "WithMaxSessionsPerKey n m = (if n > 0 then m\<lparr>Manager_maxPerKey := n\<rparr> else m)"

definition DefaultTTL :: duration where
  "DefaultTTL = 30 * minute"

primrec count_owners :: "Session list \<Rightarrow> (string, int) gomap \<Rightarrow> (string, int) gomap" where
  "count_owners [] c = c"
| "count_owners (s # ss) c =
     count_owners ss (AList.update (Session_OwnerKeyID s) (gomap_get 0 c (Session_OwnerKeyID s) + 1) c)"

definition reconcileCounts :: "Manager \<Rightarrow> Manager" where
  "reconcileCounts m = m\<lparr>Manager_counts := count_owners (Session_List (Manager_sessions m)) []\<rparr>"

definition NewManager :: "session_map \<Rightarrow> HistoryStore \<Rightarrow> (Manager \<Rightarrow> Manager) list \<Rightarrow> Manager" where
  "NewManager sessions history opts =
     (let m = \<lparr>Manager_sessions = sessions, Manager_history = history, Manager_ttl = DefaultTTL,
               Manager_maxPerKey = 0, Manager_counts = [], Manager_obs = False, Manager_ended = [],
               Manager_sweepInterval = 0\<rparr>;
          m = fold (\<lambda>o' m. o' m) opts m;
          m = reconcileCounts m
      in if Manager_sweepInterval m \<le> 0
         then let m = m\<lparr>Manager_sweepInterval := go_div (Manager_ttl m) 4\<rparr>
              in if Manager_sweepInterval m \<le> 0 then m\<lparr>Manager_sweepInterval := go_div DefaultTTL 4\<rparr> else m
         else m)"

text \<open>The entropy read yields the bytes, or nothing when it fails.\<close>

definition newID :: "bytes option \<Rightarrow> SessionError + string" where
  "newID rnd = (case rnd of None \<Rightarrow> Inl ErrGenerateID | Some b \<Rightarrow> Inr (idPrefix @ EncodeToString b))"

definition reserveSlot :: "string \<Rightarrow> Manager \<Rightarrow> bool \<times> Manager" where
  "reserveSlot owner m =
     (if Manager_maxPerKey m > 0 \<and> gomap_get 0 (Manager_counts m) owner \<ge> Manager_maxPerKey m then (False, m)
      else (True, m\<lparr>Manager_counts :=
        AList.update owner (gomap_get 0 (Manager_counts m) owner + 1) (Manager_counts m)\<rparr>))"

definition releaseSlot :: "string \<Rightarrow> Manager \<Rightarrow> Manager" where
  "releaseSlot owner m =
     (let n = gomap_get 0 (Manager_counts m) owner
      in if n > 1 then m\<lparr>Manager_counts := AList.update owner (n - 1) (Manager_counts m)\<rparr>
         else m\<lparr>Manager_counts := AList.delete owner (Manager_counts m)\<rparr>)"

definition activeCount :: "string \<Rightarrow> Manager \<Rightarrow> int" where
  "activeCount owner m = gomap_get 0 (Manager_counts m) owner"

definition SetTTL :: "duration \<Rightarrow> Manager \<Rightarrow> Manager" where
  "SetTTL d m = (if d \<le> 0 then m else m\<lparr>Manager_ttl := d\<rparr>)"

definition SetMaxSessionsPerKey :: "int \<Rightarrow> Manager \<Rightarrow> Manager" where
  "SetMaxSessionsPerKey n m = m\<lparr>Manager_maxPerKey := (if n < 0 then 0 else n)\<rparr>"

definition ActiveSessions :: "Manager \<Rightarrow> int" where
  "ActiveSessions m = sum_list (map snd (Manager_counts m))"

definition Session_Create ::
  "string \<Rightarrow> string \<Rightarrow> bytes option \<Rightarrow> gotime \<Rightarrow> Manager \<Rightarrow> (SessionError + Session) \<times> Manager" where
  "Session_Create owner model rnd now m =
     (if owner = [] then (Inl ErrEmptyOwner, m)
      else case reserveSlot owner m of
             (False, m) \<Rightarrow> (Inl ErrSessionLimitExceeded, m)
           | (True, m) \<Rightarrow>
               (case newID rnd of
                  Inl err \<Rightarrow> (Inl err, releaseSlot owner m)
                | Inr i \<Rightarrow>
                    let s = \<lparr>Session_ID = i, Session_OwnerKeyID = owner, Session_Model = model,
                             Session_BoundWorkerID = [], Session_CreatedAt = now, Session_LastActiveAt = now,
                             Session_TTL = Manager_ttl m, Session_Status = StatusActive\<rparr>
                    in case Session_Put s (Manager_sessions m) of
                         (Some err, ss) \<Rightarrow> (Inl err, releaseSlot owner (m\<lparr>Manager_sessions := ss\<rparr>))
                       | (None, ss) \<Rightarrow> (Inr s, m\<lparr>Manager_sessions := ss\<rparr>)))"

definition ownedActive :: "string \<Rightarrow> string \<Rightarrow> gotime \<Rightarrow> Manager \<Rightarrow> SessionError + Session" where
  "ownedActive i owner now m =
     (case Session_Get i (Manager_sessions m) of
        Inl err \<Rightarrow> Inl ErrSessionNotFound
      | Inr s \<Rightarrow>
          if Session_OwnerKeyID s \<noteq> owner then Inl ErrSessionNotFound
          else if expired s now then Inl ErrSessionNotFound
          else Inr s)"

text \<open>The write of an update: the session as read, changed, is put back.\<close>

definition touch_session :: "Session \<Rightarrow> Manager \<Rightarrow> (SessionError + Session) \<times> Manager" where
  "touch_session s m =
     (case Session_Put s (Manager_sessions m) of
        (Some err, ss) \<Rightarrow> (Inl err, m\<lparr>Manager_sessions := ss\<rparr>)
      | (None, ss) \<Rightarrow> (Inr s, m\<lparr>Manager_sessions := ss\<rparr>))"

definition Resume :: "string \<Rightarrow> string \<Rightarrow> gotime \<Rightarrow> Manager \<Rightarrow> (SessionError + Session) \<times> Manager" where
  "Resume i owner now m =
     (case ownedActive i owner now m of
        Inl err \<Rightarrow> (Inl err, m)
      | Inr s \<Rightarrow> touch_session (s\<lparr>Session_LastActiveAt := now, Session_Status := StatusActive\<rparr>) m)"

definition Manager_Get :: "string \<Rightarrow> string \<Rightarrow> gotime \<Rightarrow> Manager \<Rightarrow> SessionError + Session" where
  "Manager_Get i owner now m = ownedActive i owner now m"

definition endStats :: "string \<Rightarrow> Session \<Rightarrow> string \<Rightarrow> gotime \<Rightarrow> Manager \<Rightarrow> SessionEndStats option" where
  "endStats i s reason now m =
     (if \<not> Manager_obs m then None
      else let dur = time_sub now (Session_CreatedAt s)
           in Some \<lparr>SessionEndStats_Turns = length (History_Get i (Manager_history m)),
                   SessionEndStats_Duration = (if dur < 0 then 0 else dur), SessionEndStats_Reason = reason\<rparr>)"

definition deleteSession ::
  "string \<Rightarrow> string \<Rightarrow> string \<Rightarrow> gotime \<Rightarrow> Manager \<Rightarrow> SessionError option \<times> Manager" where
  "deleteSession i owner reason now m =
     (case Session_Get i (Manager_sessions m) of
        Inl err \<Rightarrow> (None, m)
      | Inr s \<Rightarrow>
          let end' = endStats i s reason now m
          in case Session_Delete i (Manager_sessions m) of
               (Some err, ss) \<Rightarrow> (Some err, m\<lparr>Manager_sessions := ss\<rparr>)
             | (None, ss) \<Rightarrow>
                 (case DeleteBySession i (Manager_history m) of
                    (Some err, h) \<Rightarrow> (Some err, m\<lparr>Manager_sessions := ss, Manager_history := h\<rparr>)
                  | (None, h) \<Rightarrow>
                      let m = releaseSlot owner (m\<lparr>Manager_sessions := ss, Manager_history := h\<rparr>)
                      in (None, case end' of None \<Rightarrow> m | Some st \<Rightarrow> m\<lparr>Manager_ended := Manager_ended m @ [st]\<rparr>)))"

definition Session_Remove :: "string \<Rightarrow> string \<Rightarrow> gotime \<Rightarrow> Manager \<Rightarrow> SessionError option \<times> Manager" where
  "Session_Remove i owner now m =
     (case Session_Get i (Manager_sessions m) of
        Inl err \<Rightarrow> (Some ErrSessionNotFound, m)
      | Inr s \<Rightarrow>
          if Session_OwnerKeyID s \<noteq> owner then (Some ErrSessionNotFound, m)
          else deleteSession i (Session_OwnerKeyID s) EndReasonDeleted now m)"

definition Bind :: "string \<Rightarrow> string \<Rightarrow> string \<Rightarrow> gotime \<Rightarrow> Manager \<Rightarrow> (SessionError + Session) \<times> Manager" where
  "Bind i owner workerID now m =
     (case ownedActive i owner now m of
        Inl err \<Rightarrow> (Inl err, m)
      | Inr s \<Rightarrow> touch_session (s\<lparr>Session_BoundWorkerID := workerID, Session_LastActiveAt := now\<rparr>) m)"

definition AppendTurn :: "string \<Rightarrow> string \<Rightarrow> Message \<Rightarrow> gotime \<Rightarrow> Manager \<Rightarrow> SessionError option \<times> Manager" where
  "AppendTurn i owner turn now m =
     (case ownedActive i owner now m of
        Inl err \<Rightarrow> (Some err, m)
      | Inr s \<Rightarrow>
          (case Append i turn (Manager_history m) of
             (Some err, h) \<Rightarrow> (Some err, m\<lparr>Manager_history := h\<rparr>)
           | (None, h) \<Rightarrow>
               (case touch_session (s\<lparr>Session_LastActiveAt := now\<rparr>) (m\<lparr>Manager_history := h\<rparr>) of
                  (Inl err, m) \<Rightarrow> (Some err, m)
                | (Inr _, m) \<Rightarrow> (None, m))))"

definition AppendTurns ::
  "string \<Rightarrow> string \<Rightarrow> Message list \<Rightarrow> gotime \<Rightarrow> Manager \<Rightarrow> SessionError option \<times> Manager" where
  "AppendTurns i owner turns now m =
     (case ownedActive i owner now m of
        Inl err \<Rightarrow> (Some err, m)
      | Inr s \<Rightarrow>
          (case AppendBatch i turns (Manager_history m) of
             (Some err, h) \<Rightarrow> (Some err, m\<lparr>Manager_history := h\<rparr>)
           | (None, h) \<Rightarrow>
               (case touch_session (s\<lparr>Session_LastActiveAt := now\<rparr>) (m\<lparr>Manager_history := h\<rparr>) of
                  (Inl err, m) \<Rightarrow> (Some err, m)
                | (Inr _, m) \<Rightarrow> (None, m))))"

definition CheckAppendable :: "string \<Rightarrow> string \<Rightarrow> Message list \<Rightarrow> gotime \<Rightarrow> Manager \<Rightarrow> SessionError option" where
  "CheckAppendable i owner turns now m =
     (case ownedActive i owner now m of
        Inl err \<Rightarrow> Some err
      | Inr s \<Rightarrow> if WouldReject i turns (Manager_history m) then Some ErrSessionLimitExceeded else None)"

definition Session_History :: "string \<Rightarrow> string \<Rightarrow> gotime \<Rightarrow> Manager \<Rightarrow> SessionError + Message list" where
  "Session_History i owner now m =
     (case ownedActive i owner now m of
        Inl err \<Rightarrow> Inl err
      | Inr s \<Rightarrow> Inr (History_Get i (Manager_history m)))"

text \<open>A sweep reads the clock once for the expiry decision and again, \<open>clk\<close>, as it ends each session.\<close>

primrec sweep_loop :: "gotime \<Rightarrow> (string \<Rightarrow> gotime) \<Rightarrow> Session list \<Rightarrow> Manager \<Rightarrow> Manager" where
  "sweep_loop now clk [] m = m"
| "sweep_loop now clk (s # ss) m =
     (if \<not> expired s now then sweep_loop now clk ss m
      else sweep_loop now clk ss
             (snd (deleteSession (Session_ID s) (Session_OwnerKeyID s) EndReasonExpired (clk (Session_ID s)) m)))"

definition sweepExpired :: "gotime \<Rightarrow> (string \<Rightarrow> gotime) \<Rightarrow> Manager \<Rightarrow> Manager" where
  "sweepExpired now clk m = sweep_loop now clk (Session_List (Manager_sessions m)) m"

section \<open>The tally: lemmas\<close>

lemma sum_snd_update:
  "gomap_wf c \<Longrightarrow> sum_list (map snd (AList.update k v c)) = sum_list (map snd c) - gomap_get 0 c k + (v :: int)"
  by (induction c) (auto simp: gomap_get_def)

lemma sum_snd_delete:
  "gomap_wf c \<Longrightarrow> sum_list (map snd (AList.delete k c)) = sum_list (map snd c) - gomap_get (0 :: int) c k"
proof (induction c)
  case Nil
  then show ?case by simp
next
  case (Cons e c)
  obtain j v where e: "e = (j, v)" by (cases e)
  have "k \<notin> fst ` set c" if "j = k" using Cons.prems e that by simp
  then show ?case using Cons e by (auto simp: gomap_get_def AList.delete_simps)
qed

lemma length_update_new: "map_of m k = None \<Longrightarrow> length (AList.update k v m) = Suc (length m)"
  by (induction m) (auto split: if_splits)

lemma length_update_old: "map_of m k = Some u \<Longrightarrow> length (AList.update k v m) = length m"
  by (induction m) (auto split: if_splits)

lemma length_delete_old: "gomap_wf m \<Longrightarrow> map_of m k = Some u \<Longrightarrow> Suc (length (AList.delete k m)) = length m"
  using gomap_count_delete_old [of m k u "\<lambda>_. True"] by (simp add: gomap_count_def)

definition owned :: "string \<Rightarrow> Manager \<Rightarrow> nat" where
  "owned k m = gomap_count (\<lambda>s. Session_OwnerKeyID s = k) (Manager_sessions m)"

text \<open>The tally agrees with the sessions it counts.\<close>

definition tally_inv :: "Manager \<Rightarrow> bool" where
  "tally_inv m \<longleftrightarrow> filed (Manager_sessions m) \<and> gomap_wf (Manager_counts m) \<and>
     (\<forall>k. activeCount k m = int (owned k m)) \<and> ActiveSessions m = int (length (Manager_sessions m))"

lemmas tally_defs = tally_inv_def activeCount_def ActiveSessions_def owned_def

lemma filed_iff: "filed m \<longleftrightarrow> gomap_wf m \<and> (\<forall>i s. map_of m i = Some s \<longrightarrow> Session_ID s = i)"
  using gomap_ball_iff [of m "\<lambda>i s. Session_ID s = i"] by (auto simp: filed_def case_prod_beta)

lemma filed_update: "filed m \<Longrightarrow> Session_ID s = i \<Longrightarrow> filed (AList.update i s m)"
  by (simp add: filed_iff update_conv')

lemma filed_delete: "filed m \<Longrightarrow> filed (AList.delete i m)"
  by (auto simp: filed_iff delete_conv' split: if_splits)

lemma releaseSlot_fields [simp]:
  "Manager_sessions (releaseSlot k m) = Manager_sessions m"
  "Manager_history (releaseSlot k m) = Manager_history m"
  "Manager_ended (releaseSlot k m) = Manager_ended m"
  "Manager_obs (releaseSlot k m) = Manager_obs m"
  "Manager_maxPerKey (releaseSlot k m) = Manager_maxPerKey m"
  by (simp_all add: releaseSlot_def Let_def)

lemma releaseSlot_counts:
  assumes "gomap_wf (Manager_counts m)" and "1 \<le> activeCount k m"
  shows "gomap_wf (Manager_counts (releaseSlot k m))"
    and "activeCount j (releaseSlot k m) = (if j = k then activeCount j m - 1 else activeCount j m)"
    and "ActiveSessions (releaseSlot k m) = ActiveSessions m - 1"
  using assms
  by (simp_all add: releaseSlot_def Let_def activeCount_def ActiveSessions_def gomap_simps sum_snd_update sum_snd_delete)

lemma reserveSlot_counts:
  assumes "gomap_wf (Manager_counts m)" and "reserveSlot k m = (True, m')"
  shows "gomap_wf (Manager_counts m')"
    and "activeCount j m' = (if j = k then activeCount j m + 1 else activeCount j m)"
    and "ActiveSessions m' = ActiveSessions m + 1" and "Manager_sessions m' = Manager_sessions m"
  using assms
  by (auto simp: reserveSlot_def activeCount_def ActiveSessions_def gomap_simps sum_snd_update split: if_splits)

lemma release_reserved:
  assumes "reserveSlot k m = (True, m')" and "0 \<le> activeCount k m"
  shows "activeCount j (releaseSlot k m') = activeCount j m"
  using assms by (auto simp: reserveSlot_def releaseSlot_def Let_def activeCount_def gomap_simps split: if_splits)

lemma deleteSession_eq:
  "deleteSession i owner reason now m =
     (case map_of (Manager_sessions m) i of
        None \<Rightarrow> (None, m)
      | Some s \<Rightarrow> (None, (releaseSlot owner m)\<lparr>Manager_sessions := AList.delete i (Manager_sessions m),
          Manager_history := snd (DeleteBySession i (Manager_history m)),
          Manager_ended := Manager_ended m @ (case endStats i s reason now m of None \<Rightarrow> [] | Some st \<Rightarrow> [st])\<rparr>))"
  by (auto simp: deleteSession_def Session_Get_def Session_Delete_def DeleteBySession_def releaseSlot_def Let_def
      split: option.splits)

lemma deleteSession_tally:
  assumes "tally_inv m" and "\<forall>s. map_of (Manager_sessions m) i = Some s \<longrightarrow> Session_OwnerKeyID s = owner"
  shows "tally_inv (snd (deleteSession i owner reason now m))"
proof (cases "map_of (Manager_sessions m) i")
  case None
  then show ?thesis using assms(1) by (simp add: deleteSession_eq)
next
  case (Some s)
  let ?m' = "snd (deleteSession i owner reason now m)"
  have wf: "gomap_wf (Manager_sessions m)" and filed: "filed (Manager_sessions m)"
    using assms(1) by (auto simp: tally_inv_def filed_def)
  have s: "Session_OwnerKeyID s = owner" using assms(2) Some by simp
  have "0 < owned owner m"
    unfolding owned_def using wf Some s by (intro gomap_count_pos) auto
  then have one: "1 \<le> activeCount owner m" using assms(1) by (simp add: tally_inv_def)
  note rel = releaseSlot_counts [OF _ one]
  have "int (owned k ?m') = int (owned k m) - (if k = owner then 1 else 0)" for k
    using gomap_count_delete_old [OF wf Some, of "\<lambda>u. Session_OwnerKeyID u = k"] s
    by (auto simp: owned_def deleteSession_eq Some split: if_splits)
  moreover have "Suc (length (Manager_sessions ?m')) = length (Manager_sessions m)"
    using length_delete_old [OF wf Some] by (simp add: deleteSession_eq Some)
  moreover have "activeCount k ?m' = activeCount k (releaseSlot owner m)"
    "ActiveSessions ?m' = ActiveSessions (releaseSlot owner m)"
    "Manager_counts ?m' = Manager_counts (releaseSlot owner m)" "filed (Manager_sessions ?m')" for k
    using filed_delete [OF filed] by (simp_all add: activeCount_def ActiveSessions_def deleteSession_eq Some)
  moreover have "gomap_wf (Manager_counts m)" "\<forall>k. activeCount k m = int (owned k m)"
    "ActiveSessions m = int (length (Manager_sessions m))"
    using assms(1) by (simp_all add: tally_inv_def)
  ultimately show ?thesis unfolding tally_inv_def using rel by simp
qed

lemma touch_tally:
  assumes "tally_inv m" and "map_of (Manager_sessions m) (Session_ID s) = Some u"
    and "Session_OwnerKeyID s = Session_OwnerKeyID u"
  shows "tally_inv (snd (touch_session s m))"
proof -
  have wf: "gomap_wf (Manager_sessions m)" using assms(1) by (simp add: tally_inv_def filed_def)
  have "owned k (snd (touch_session s m)) = owned k m" for k
    using gomap_count_update_old [OF wf assms(2), of "\<lambda>u. Session_OwnerKeyID u = k" s] assms(3)
    by (simp add: owned_def touch_session_def Session_Put_def split: if_splits)
  moreover have "length (Manager_sessions (snd (touch_session s m))) = length (Manager_sessions m)"
    using length_update_old [OF assms(2)] by (simp add: touch_session_def Session_Put_def)
  ultimately show ?thesis
    using assms(1) filed_update [of "Manager_sessions m" s]
    unfolding tally_inv_def activeCount_def ActiveSessions_def
    by (simp add: touch_session_def Session_Put_def)
qed

lemma ownedActive_Inr:
  "ownedActive i owner now m = Inr s \<longleftrightarrow>
     map_of (Manager_sessions m) i = Some s \<and> Session_OwnerKeyID s = owner \<and> \<not> expired s now"
  by (auto simp: ownedActive_def Session_Get_def split: option.splits)

lemma ownedActive_Inl: "ownedActive i owner now m = Inl err \<Longrightarrow> err = ErrSessionNotFound"
  by (auto simp: ownedActive_def split: sum.splits if_splits)

text \<open>An update that keeps the id and the owner of a session it found keeps the tally.\<close>

lemma update_tally:
  assumes "tally_inv m" and "ownedActive i owner now m = Inr s"
    and "Session_ID s' = Session_ID s" and "Session_OwnerKeyID s' = Session_OwnerKeyID s"
  shows "tally_inv (snd (touch_session s' (m\<lparr>Manager_history := h\<rparr>)))"
proof (rule touch_tally)
  show "tally_inv (m\<lparr>Manager_history := h\<rparr>)" using assms(1) by (simp add: tally_defs)
  have "map_of (Manager_sessions m) i = Some s" using assms(2) by (simp add: ownedActive_Inr)
  moreover from this have "Session_ID s' = i"
    using assms(1,3) filed_lookup [of "Manager_sessions m" i s] by (simp add: tally_inv_def)
  ultimately show "map_of (Manager_sessions (m\<lparr>Manager_history := h\<rparr>)) (Session_ID s') = Some s" by simp
qed (rule assms(4))

lemma history_tally [simp]: "tally_inv (m\<lparr>Manager_history := h\<rparr>) = tally_inv m"
  by (simp add: tally_defs)

lemma append_tally:
  assumes "tally_inv m" and "ownedActive i owner now m = Inr s"
  shows "tally_inv (snd (case touch_session (s\<lparr>Session_LastActiveAt := now\<rparr>) (m\<lparr>Manager_history := h\<rparr>) of
      (Inl err, m) \<Rightarrow> (Some err, m) | (Inr u, m) \<Rightarrow> (None, m)))"
  using update_tally [OF assms, of "s\<lparr>Session_LastActiveAt := now\<rparr>" h]
  by (simp add: touch_session_def Session_Put_def)

lemma Session_Create_cases:
  assumes "Session_Create owner model rnd now m = (r, m')"
  obtains (empty) "owner = []" "r = Inl ErrEmptyOwner" "m' = m"
    | (limit) "owner \<noteq> []" "reserveSlot owner m = (False, m)" "r = Inl ErrSessionLimitExceeded" "m' = m"
    | (entropy) m1 where "owner \<noteq> []" "reserveSlot owner m = (True, m1)" "rnd = None" "r = Inl ErrGenerateID"
        "m' = releaseSlot owner m1"
    | (created) m1 b s where "owner \<noteq> []" "reserveSlot owner m = (True, m1)" "rnd = Some b" "r = Inr s"
        "Session_ID s = idPrefix @ EncodeToString b" "Session_OwnerKeyID s = owner"
        "m' = m1\<lparr>Manager_sessions := AList.update (Session_ID s) s (Manager_sessions m)\<rparr>"
proof (cases "owner = []")
  case True
  then show ?thesis using assms empty by (simp add: Session_Create_def)
next
  case False
  obtain ok m1 where r: "reserveSlot owner m = (ok, m1)" by fastforce
  have same: "Manager_sessions m1 = Manager_sessions m" "ok = False \<Longrightarrow> m1 = m"
    using r by (auto simp: reserveSlot_def split: if_splits)
  show ?thesis
  proof (cases ok)
    case True
    show ?thesis
    proof (cases rnd)
      case None
      then show ?thesis using assms False r True by (intro entropy [of m1]) (auto simp: Session_Create_def newID_def)
    next
      case (Some b)
      then show ?thesis
        using assms False r True same(1)
        by (intro created) (auto simp: Session_Create_def newID_def Session_Put_def Let_def)
    qed
  next
    case no: False
    then show ?thesis using assms False r same(2) by (intro limit) (simp_all add: Session_Create_def)
  qed
qed

lemma Create_tally:
  assumes inv: "tally_inv m" and run: "Session_Create owner model rnd now m = (r, m')"
    and fresh: "\<forall>b. rnd = Some b \<longrightarrow> map_of (Manager_sessions m) (idPrefix @ EncodeToString b) = None"
  shows "tally_inv m'"
  using run
proof (cases rule: Session_Create_cases)
  case (entropy m1)
  have wf: "gomap_wf (Manager_counts m)" and one: "0 \<le> activeCount owner m"
    using inv by (simp_all add: tally_inv_def)
  note res = reserveSlot_counts [OF wf entropy(2)]
  have "1 \<le> activeCount owner m1" using res(2) [of owner] one by simp
  note rel = releaseSlot_counts [OF res(1) this]
  have "Manager_sessions m' = Manager_sessions m" using entropy(5) res(4) by simp
  then show ?thesis using inv rel res(2,3) entropy(5) by (simp add: tally_inv_def owned_def)
next
  case (created m1 b s)
  have wf: "gomap_wf (Manager_counts m)" using inv by (simp add: tally_inv_def)
  note res = reserveSlot_counts [OF wf created(2)]
  have new: "map_of (Manager_sessions m) (Session_ID s) = None" using fresh created by simp
  have "int (owned k m') = int (owned k m) + (if k = owner then 1 else 0)" for k
    using gomap_count_update_new [OF new, of "\<lambda>u. Session_OwnerKeyID u = k" s] created(6,7) by (simp add: owned_def)
  moreover have "length (Manager_sessions m') = Suc (length (Manager_sessions m))"
    using length_update_new [OF new] created(7) by simp
  moreover have "filed (Manager_sessions m')"
    using inv created(7) by (simp add: tally_inv_def filed_update)
  moreover have "Manager_counts m' = Manager_counts m1" "activeCount k m' = activeCount k m1"
    "ActiveSessions m' = ActiveSessions m1" for k
    using created(7) by (simp_all add: activeCount_def ActiveSessions_def)
  ultimately show ?thesis using inv res by (simp add: tally_inv_def)
qed (use inv in simp_all)

section \<open>The sweep: lemmas\<close>

definition end_of :: "string \<Rightarrow> gotime \<Rightarrow> Manager \<Rightarrow> Session \<Rightarrow> SessionEndStats" where
  "end_of reason now m s =
     \<lparr>SessionEndStats_Turns = length (History_Get (Session_ID s) (Manager_history m)),
      SessionEndStats_Duration = max 0 (time_sub now (Session_CreatedAt s)), SessionEndStats_Reason = reason\<rparr>"

lemma deleteSession_present:
  fixes owner reason :: string and now :: gotime
  assumes "map_of (Manager_sessions m) i = Some s" and "Session_ID s = i"
  defines "m' \<equiv> snd (deleteSession i owner reason now m)"
  shows "Manager_sessions m' = AList.delete i (Manager_sessions m)"
    and "Manager_ended m' = Manager_ended m @ (if Manager_obs m then [end_of reason now m s] else [])"
    and "History_Get j (Manager_history m') = (if j = i then [] else History_Get j (Manager_history m))"
    and "Manager_obs m' = Manager_obs m"
  using assms
  by (simp_all add: deleteSession_eq endStats_def end_of_def Let_def max_def History_Get_def DeleteBySession_def gomap_simps)

lemma sweep_loop_spec:
  fixes now :: gotime and clk :: "string \<Rightarrow> gotime"
  assumes "distinct (map Session_ID ss)" and "\<forall>s\<in>set ss. map_of (Manager_sessions m) (Session_ID s) = Some s"
  defines "m' \<equiv> sweep_loop now clk ss m"
  shows "map_of (Manager_sessions m') i =
      (if \<exists>s\<in>set ss. Session_ID s = i \<and> expired s now then None else map_of (Manager_sessions m) i) \<and>
    History_Get i (Manager_history m') =
      (if \<exists>s\<in>set ss. Session_ID s = i \<and> expired s now then [] else History_Get i (Manager_history m)) \<and>
    Manager_ended m' = Manager_ended m @
      (if Manager_obs m
       then map (\<lambda>s. end_of EndReasonExpired (clk (Session_ID s)) m s) (filter (\<lambda>s. expired s now) ss) else [])"
  using assms(1,2) unfolding m'_def
proof (induction ss arbitrary: m)
  case Nil
  then show ?case by simp
next
  case (Cons s ss)
  show ?case
  proof (cases "expired s now")
    case False
    then show ?thesis using Cons by auto
  next
    case True
    define m1 where "m1 = snd (deleteSession (Session_ID s) (Session_OwnerKeyID s) EndReasonExpired (clk (Session_ID s)) m)"
    have s: "map_of (Manager_sessions m) (Session_ID s) = Some s" using Cons.prems(2) by simp
    note d = deleteSession_present [OF s refl, where owner = "Session_OwnerKeyID s" and reason = EndReasonExpired
        and now = "clk (Session_ID s)", folded m1_def]
    have ne: "Session_ID u \<noteq> Session_ID s" if "u \<in> set ss" for u using Cons.prems(1) imageI [OF that, of Session_ID] by auto
    then have "\<forall>u\<in>set ss. map_of (Manager_sessions m1) (Session_ID u) = Some u"
      using Cons.prems(2) by (simp add: d(1) delete_conv')
    from Cons.IH [OF _ this] Cons.prems(1)
    have IH: "map_of (Manager_sessions (sweep_loop now clk ss m1)) i =
        (if \<exists>s\<in>set ss. Session_ID s = i \<and> expired s now then None else map_of (Manager_sessions m1) i) \<and>
      History_Get i (Manager_history (sweep_loop now clk ss m1)) =
        (if \<exists>s\<in>set ss. Session_ID s = i \<and> expired s now then [] else History_Get i (Manager_history m1)) \<and>
      Manager_ended (sweep_loop now clk ss m1) = Manager_ended m1 @
        (if Manager_obs m1
         then map (\<lambda>s. end_of EndReasonExpired (clk (Session_ID s)) m1 s) (filter (\<lambda>s. expired s now) ss) else [])"
      by simp
    have ends: "map (\<lambda>s. end_of EndReasonExpired (clk (Session_ID s)) m1 s) (filter (\<lambda>s. expired s now) ss) =
        map (\<lambda>s. end_of EndReasonExpired (clk (Session_ID s)) m s) (filter (\<lambda>s. expired s now) ss)"
      using ne by (intro map_cong) (auto simp: end_of_def d(3))
    have step: "sweep_loop now clk (s # ss) m = sweep_loop now clk ss m1" using True by (simp add: m1_def)
    have ex: "(\<exists>u\<in>set (s # ss). Session_ID u = i \<and> expired u now) \<longleftrightarrow>
        Session_ID s = i \<or> (\<exists>u\<in>set ss. Session_ID u = i \<and> expired u now)" using True by auto
    show ?thesis
      unfolding step ex using IH [unfolded ends d] True by (auto simp: delete_conv' simp del: map_append)
  qed
qed

lemma sweep_loop_tally:
  "tally_inv m \<Longrightarrow> distinct (map Session_ID ss) \<Longrightarrow>
   \<forall>s\<in>set ss. map_of (Manager_sessions m) (Session_ID s) = Some s \<Longrightarrow> tally_inv (sweep_loop now clk ss m)"
proof (induction ss arbitrary: m)
  case Nil
  then show ?case by simp
next
  case (Cons s ss)
  define m1 where "m1 = snd (deleteSession (Session_ID s) (Session_OwnerKeyID s) EndReasonExpired (clk (Session_ID s)) m)"
  have s: "map_of (Manager_sessions m) (Session_ID s) = Some s" using Cons.prems(3) by simp
  have "tally_inv m1" unfolding m1_def using Cons.prems(1) s by (intro deleteSession_tally) simp_all
  moreover have "Session_ID u \<noteq> Session_ID s" if "u \<in> set ss" for u
    using Cons.prems(2) imageI [OF that, of Session_ID] by auto
  then have "\<forall>u\<in>set ss. map_of (Manager_sessions m1) (Session_ID u) = Some u"
    using Cons.prems(3) by (simp add: m1_def deleteSession_present(1) [OF s refl] delete_conv')
  moreover have "distinct (map Session_ID ss)" "\<forall>u\<in>set ss. map_of (Manager_sessions m) (Session_ID u) = Some u"
    using Cons.prems(2,3) by simp_all
  ultimately show ?case
    using Cons.IH [of m1] Cons.IH [of m] Cons.prems(1) by (simp add: m1_def [symmetric])
qed

lemma filed_list:
  assumes "filed m"
  shows "distinct (map Session_ID (Session_List m))" "\<forall>s\<in>set (Session_List m). map_of m (Session_ID s) = Some s"
proof -
  show "distinct (map Session_ID (Session_List m))"
    unfolding Session_List_def filed_ids [OF assms] using assms by (simp add: filed_def gomap_wf_def)
  show "\<forall>s\<in>set (Session_List m). map_of m (Session_ID s) = Some s"
    using assms by (auto simp: Session_List_def filed_def gomap_mem_iff [symmetric])
qed

lemma filed_ex:
  assumes "filed m"
  shows "(\<exists>s\<in>set (Session_List m). Session_ID s = i \<and> P s) \<longleftrightarrow> (\<exists>s. map_of m i = Some s \<and> P s)"
proof
  assume "\<exists>s\<in>set (Session_List m). Session_ID s = i \<and> P s"
  then show "\<exists>s. map_of m i = Some s \<and> P s" using filed_list(2) [OF assms] by blast
next
  assume "\<exists>s. map_of m i = Some s \<and> P s"
  then obtain s where s: "map_of m i = Some s" "P s" by blast
  then have "s \<in> set (Session_List m)" using map_of_SomeD [OF s(1)] by (force simp: Session_List_def)
  then show "\<exists>s\<in>set (Session_List m). Session_ID s = i \<and> P s" using filed_lookup [OF assms s(1)] s(2) by blast
qed

section \<open>Reachable managers\<close>

datatype SessOp =
    OpCreate string string "bytes option" gotime
  | OpResume string string gotime
  | OpDelete string string gotime
  | OpBind string string string gotime
  | OpAppendTurn string string Message gotime
  | OpAppendTurns string string "Message list" gotime
  | OpSweep gotime "string \<Rightarrow> gotime"
  | OpSetTTL duration
  | OpSetMaxSessionsPerKey int

primrec sess_step :: "SessOp \<Rightarrow> Manager \<Rightarrow> Manager" where
  "sess_step (OpCreate owner model rnd now) m = snd (Session_Create owner model rnd now m)"
| "sess_step (OpResume i owner now) m = snd (Resume i owner now m)"
| "sess_step (OpDelete i owner now) m = snd (Session_Remove i owner now m)"
| "sess_step (OpBind i owner w now) m = snd (Bind i owner w now m)"
| "sess_step (OpAppendTurn i owner t now) m = snd (AppendTurn i owner t now m)"
| "sess_step (OpAppendTurns i owner ts now) m = snd (AppendTurns i owner ts now m)"
| "sess_step (OpSweep now clk) m = sweepExpired now clk m"
| "sess_step (OpSetTTL d) m = SetTTL d m"
| "sess_step (OpSetMaxSessionsPerKey n) m = SetMaxSessionsPerKey n m"

text \<open>The 128-bit ids of the sessions do not collide.\<close>

definition fresh_op :: "SessOp \<Rightarrow> Manager \<Rightarrow> bool" where
  "fresh_op x m = (case x of
     OpCreate owner model (Some b) now \<Rightarrow> map_of (Manager_sessions m) (idPrefix @ EncodeToString b) = None
   | _ \<Rightarrow> True)"

definition manager_option :: "(Manager \<Rightarrow> Manager) \<Rightarrow> bool" where
  "manager_option f \<longleftrightarrow> (\<exists>b. f = WithSessionObserver b) \<or> (\<exists>d. f = WithTTL d) \<or> (\<exists>d. f = WithSweepInterval d) \<or>
     (\<exists>n. f = WithMaxSessionsPerKey n)"

inductive sess_reach :: "Manager \<Rightarrow> bool" where
  init: "filed sessions \<Longrightarrow> \<forall>f\<in>set opts. manager_option f \<Longrightarrow> sess_reach (NewManager sessions history opts)"
| step: "sess_reach m \<Longrightarrow> fresh_op x m \<Longrightarrow> sess_reach (sess_step x m)"

lemma count_owners_spec:
  "gomap_wf c \<Longrightarrow> gomap_wf (count_owners ss c) \<and>
   gomap_get 0 (count_owners ss c) k = gomap_get 0 c k + int (length (filter (\<lambda>s. Session_OwnerKeyID s = k) ss)) \<and>
   sum_list (map snd (count_owners ss c)) = sum_list (map snd c) + int (length ss)"
  by (induction ss arbitrary: c) (simp_all add: gomap_simps sum_snd_update)

lemma NewManager_tally:
  assumes "filed sessions" and "\<forall>f\<in>set opts. manager_option f"
  shows "tally_inv (NewManager sessions history opts)"
proof -
  have opts: "Manager_sessions (fold (\<lambda>o' m. o' m) opts m) = Manager_sessions m" for m
    using assms(2)
  proof (induction opts arbitrary: m)
    case Nil
    then show ?case by simp
  next
    case (Cons f opts)
    have "Manager_sessions (f m) = Manager_sessions m"
      using Cons.prems
      by (auto simp: manager_option_def WithSessionObserver_def WithTTL_def WithSweepInterval_def WithMaxSessionsPerKey_def)
    then show ?case using Cons by simp
  qed
  let ?m = "NewManager sessions history opts"
  have s: "Manager_sessions ?m = sessions" and c: "Manager_counts ?m = count_owners (map snd sessions) []"
    by (simp_all add: NewManager_def reconcileCounts_def Session_List_def Let_def opts)
  have "length (filter (\<lambda>u. Session_OwnerKeyID u = k) (map snd sessions)) = owned k ?m" for k
    by (simp add: owned_def s gomap_count_def filter_map o_def)
  then show ?thesis
    unfolding tally_inv_def activeCount_def ActiveSessions_def c s
    using assms(1) count_owners_spec [of "[]" "map snd sessions"] by simp
qed

lemma sess_step_tally:
  assumes "tally_inv m" and "fresh_op x m"
  shows "tally_inv (sess_step x m)"
proof (cases x)
  case (OpCreate owner model rnd now)
  then show ?thesis
    using Create_tally [OF assms(1), of owner model rnd now] assms(2)
    by (cases "Session_Create owner model rnd now m") (simp add: fresh_op_def split: option.splits)
next
  case (OpDelete i owner now)
  have "tally_inv (snd (deleteSession i owner EndReasonDeleted now m))"
    if "map_of (Manager_sessions m) i = Some s" "Session_OwnerKeyID s = owner" for s
    using assms(1) that by (intro deleteSession_tally) simp_all
  then show ?thesis
    using assms(1) OpDelete by (auto simp: Session_Remove_def Session_Get_def split: option.splits)
next
  case (OpResume i owner now)
  then show ?thesis
    using assms(1) update_tally [OF assms(1), of i owner now _ _ "Manager_history m"]
    by (auto simp: Resume_def split: sum.splits)
next
  case (OpBind i owner w now)
  then show ?thesis
    using assms(1) update_tally [OF assms(1), of i owner now _ _ "Manager_history m"]
    by (auto simp: Bind_def split: sum.splits)
next
  case (OpAppendTurn i owner t now)
  show ?thesis
  proof (cases "ownedActive i owner now m")
    case (Inr s)
    then show ?thesis
      using assms(1) OpAppendTurn append_tally [OF assms(1) Inr]
      by (cases "Append i t (Manager_history m)"; cases "fst (Append i t (Manager_history m))")
        (simp_all add: AppendTurn_def)
  qed (use assms(1) OpAppendTurn in \<open>simp add: AppendTurn_def\<close>)
next
  case (OpAppendTurns i owner ts now)
  show ?thesis
  proof (cases "ownedActive i owner now m")
    case (Inr s)
    then show ?thesis
      using assms(1) OpAppendTurns append_tally [OF assms(1) Inr]
      by (cases "AppendBatch i ts (Manager_history m)"; cases "fst (AppendBatch i ts (Manager_history m))")
        (simp_all add: AppendTurns_def)
  qed (use assms(1) OpAppendTurns in \<open>simp add: AppendTurns_def\<close>)
next
  case (OpSweep now clk)
  have "filed (Manager_sessions m)" using assms(1) by (simp add: tally_inv_def)
  from sweep_loop_tally [OF assms(1) filed_list [OF this]] show ?thesis
    by (simp add: OpSweep sweepExpired_def)
qed (use assms(1) in \<open>simp_all add: tally_defs SetTTL_def SetMaxSessionsPerKey_def\<close>)

lemma sess_reach_tally: "sess_reach m \<Longrightarrow> tally_inv m"
  by (induction rule: sess_reach.induct) (simp_all add: NewManager_tally sess_step_tally)

section \<open>Properties\<close>


definition wit_manager :: Manager where
  "wit_manager = NewManager [] (wit_history OverflowTrim) [WithMaxSessionsPerKey 1, WithSessionObserver True]"

definition wit_created :: Manager where
  "wit_created = sess_step (OpCreate ''k'' ''m'' (Some [1]) 5) wit_manager"

lemma wit_created_reach: "sess_reach wit_created"
proof -
  have "sess_reach wit_manager"
    unfolding wit_manager_def by (rule sess_reach.init) (auto simp: filed_def manager_option_def)
  moreover have "fresh_op (OpCreate ''k'' ''m'' (Some [1]) 5) wit_manager"
    by (simp add: fresh_op_def wit_manager_def NewManager_def reconcileCounts_def Let_def WithMaxSessionsPerKey_def
        WithSessionObserver_def)
  ultimately show ?thesis unfolding wit_created_def by (rule sess_reach.step)
qed


text \<open>
  The concurrent-session cap: on a reachable manager, a create for a nonempty owner is refused
  with the limit error, and nothing changes, exactly when a cap is set and the owner already holds
  that many stored sessions. A create that succeeds adds one session, of that owner, under a new id,
  and leaves the owner within the cap. A create whose id cannot be drawn gives the slot back.
\<close>

theorem create_respects_cap:
  assumes "sess_reach m" and "owner \<noteq> []" and "fresh_op (OpCreate owner model rnd now) m"
    and "Session_Create owner model rnd now m = (r, m')"
  shows "let held = int (length (filter (\<lambda>s. Session_OwnerKeyID s = owner) (Session_List (Manager_sessions m))))
     in (r = Inl ErrSessionLimitExceeded \<longleftrightarrow> Manager_maxPerKey m > 0 \<and> held \<ge> Manager_maxPerKey m) \<and>
        (r = Inl ErrSessionLimitExceeded \<longrightarrow> m' = m) \<and>
        (\<forall>s. r = Inr s \<longrightarrow> Session_OwnerKeyID s = owner \<and> map_of (Manager_sessions m) (Session_ID s) = None \<and>
           Manager_sessions m' = AList.update (Session_ID s) s (Manager_sessions m) \<and>
           activeCount owner m' = held + 1 \<and>
           (Manager_maxPerKey m > 0 \<longrightarrow> activeCount owner m' \<le> Manager_maxPerKey m)) \<and>
        (r = Inl ErrGenerateID \<longrightarrow> rnd = None \<and> activeCount owner m' = held \<and> Manager_sessions m' = Manager_sessions m)"
proof -
  have inv: "tally_inv m" using assms(1) by (rule sess_reach_tally)
  have held: "int (length (filter (\<lambda>s. Session_OwnerKeyID s = owner) (Session_List (Manager_sessions m)))) =
      activeCount owner m"
    using inv by (simp add: tally_inv_def owned_def gomap_count_def Session_List_def filter_map o_def)
  have wf: "gomap_wf (Manager_counts m)" and nonneg: "0 \<le> activeCount owner m"
    using inv by (simp_all add: tally_inv_def)
  have ok: "fst (reserveSlot owner m) = (\<not> (Manager_maxPerKey m > 0 \<and> activeCount owner m \<ge> Manager_maxPerKey m))"
    by (simp add: reserveSlot_def activeCount_def)
  from assms(4) show ?thesis
  proof (cases rule: Session_Create_cases)
    case (entropy m1)
    then show ?thesis
      unfolding held Let_def
      using ok release_reserved [OF entropy(2) nonneg] reserveSlot_counts(4) [OF wf entropy(2)] by auto
  next
    case (created m1 b s)
    have "activeCount owner m' = activeCount owner m1" by (simp add: created(7) activeCount_def)
    then show ?thesis
      unfolding held Let_def
      using ok created reserveSlot_counts(2) [OF wf created(2), of owner] assms(3) by (auto simp: fresh_op_def)
  next
    case limit
    then show ?thesis unfolding held Let_def using ok by simp
  qed (use assms(2) in simp)
qed

theorem create_respects_cap_witness:
  "fst (Session_Create ''k'' ''m'' (Some [2]) 6 wit_created) = Inl ErrSessionLimitExceeded \<and>
   snd (Session_Create ''k'' ''m'' (Some [2]) 6 wit_created) = wit_created"
proof -
  obtain r m' where c: "Session_Create ''k'' ''m'' (Some [2]) 6 wit_created = (r, m')" by fastforce
  have "fresh_op (OpCreate ''k'' ''m'' (Some [2]) 6) wit_created" by code_simp
  from create_respects_cap [OF wit_created_reach _ this c]
  have "r = Inl ErrSessionLimitExceeded \<longrightarrow> m' = wit_created" by (simp add: Let_def)
  moreover have "fst (Session_Create ''k'' ''m'' (Some [2]) 6 wit_created) = Inl ErrSessionLimitExceeded"
    by code_simp
  ultimately show ?thesis using c by simp
qed

text \<open>
  C10. Owners are isolated: on a session of another owner, every operation answers exactly as on an id
  that does not exist, \<open>ErrSessionNotFound\<close>, and leaves the manager unchanged, so a caller can
  neither learn that the session exists nor touch it.
\<close>

theorem owners_isolated:
  assumes "map_of (Manager_sessions m) i = Some s" and "Session_OwnerKeyID s \<noteq> k"
    and "map_of (Manager_sessions m2) j = None"
  shows "Resume i k now m = (Inl ErrSessionNotFound, m) \<and> Resume j k now m2 = (Inl ErrSessionNotFound, m2) \<and>
    Manager_Get i k now m = Inl ErrSessionNotFound \<and> Manager_Get j k now m2 = Inl ErrSessionNotFound \<and>
    Session_Remove i k now m = (Some ErrSessionNotFound, m) \<and>
    Session_Remove j k now m2 = (Some ErrSessionNotFound, m2) \<and>
    Bind i k w now m = (Inl ErrSessionNotFound, m) \<and> Bind j k w now m2 = (Inl ErrSessionNotFound, m2) \<and>
    AppendTurn i k t now m = (Some ErrSessionNotFound, m) \<and>
    AppendTurn j k t now m2 = (Some ErrSessionNotFound, m2) \<and>
    AppendTurns i k ts now m = (Some ErrSessionNotFound, m) \<and>
    AppendTurns j k ts now m2 = (Some ErrSessionNotFound, m2) \<and>
    CheckAppendable i k ts now m = Some ErrSessionNotFound \<and>
    CheckAppendable j k ts now m2 = Some ErrSessionNotFound \<and>
    Session_History i k now m = Inl ErrSessionNotFound \<and> Session_History j k now m2 = Inl ErrSessionNotFound"
proof -
  have "ownedActive i k now m = Inl ErrSessionNotFound" "ownedActive j k now m2 = Inl ErrSessionNotFound"
    using assms by (simp_all add: ownedActive_def Session_Get_def)
  then show ?thesis
    using assms
    by (simp add: Resume_def Manager_Get_def Session_Remove_def Bind_def AppendTurn_def AppendTurns_def
        CheckAppendable_def Session_History_def Session_Get_def)
qed

theorem owners_isolated_witness:
  "\<exists>i. map_of (Manager_sessions wit_created) i \<noteq> None \<and>
     Session_Remove i ''other'' 6 wit_created = (Some ErrSessionNotFound, wit_created)"
proof -
  let ?i = "''sess_01''"
  obtain s where s: "map_of (Manager_sessions wit_created) ?i = Some s" and k: "Session_OwnerKeyID s = ''k''"
  proof -
    have "map_option Session_OwnerKeyID (map_of (Manager_sessions wit_created) ?i) = Some ''k''" by code_simp
    then show ?thesis using that by auto
  qed
  have "Session_OwnerKeyID s \<noteq> ''other''" and "map_of (Manager_sessions wit_manager) ?i = None"
    using k by (simp_all add: wit_manager_def NewManager_def reconcileCounts_def Let_def WithMaxSessionsPerKey_def
        WithSessionObserver_def)
  from owners_isolated [OF s this, of 6] s show ?thesis by blast
qed

text \<open>
  A sweep removes exactly the sessions whose idle time exceeds their TTL, with their histories;
  every other session and history stays; the observer is told once per removed session, in the order
  of the listing, its number of turns and its lifetime; and the tally still matches.
\<close>

theorem sweep_removes_expired:
  assumes "sess_reach m"
  shows "let m' = sweepExpired now clk m; dead = filter (\<lambda>s. expired s now) (Session_List (Manager_sessions m))
    in (\<forall>i. Session_Get i (Manager_sessions m') = (case Session_Get i (Manager_sessions m) of
          Inr s \<Rightarrow> if expired s now then Inl ErrSessionNotFound else Inr s
        | Inl err \<Rightarrow> Inl err)) \<and>
       (\<forall>i. History_Get i (Manager_history m') =
          (if i \<in> Session_ID ` set dead then [] else History_Get i (Manager_history m))) \<and>
       Manager_ended m' = Manager_ended m @
         (if Manager_obs m then map (\<lambda>s. end_of EndReasonExpired (clk (Session_ID s)) m s) dead else []) \<and>
       (\<forall>k. activeCount k m' =
          int (length (filter (\<lambda>s. Session_OwnerKeyID s = k) (Session_List (Manager_sessions m')))))"
proof -
  let ?m' = "sweepExpired now clk m" and ?l = "Session_List (Manager_sessions m)"
  have filed: "filed (Manager_sessions m)" using sess_reach_tally [OF assms] by (simp add: tally_inv_def)
  note spec = sweep_loop_spec [OF filed_list [OF filed], where now = now and clk = clk, folded sweepExpired_def]
  have "Session_Get i (Manager_sessions ?m') = (case Session_Get i (Manager_sessions m) of
      Inr s \<Rightarrow> if expired s now then Inl ErrSessionNotFound else Inr s | Inl err \<Rightarrow> Inl err)" for i
    using conjunct1 [OF spec [of i]] unfolding filed_ex [OF filed]
    by (cases "map_of (Manager_sessions m) i") (simp_all add: Session_Get_def)
  moreover have "i \<in> Session_ID ` set (filter (\<lambda>s. expired s now) ?l) \<longleftrightarrow>
      (\<exists>s\<in>set ?l. Session_ID s = i \<and> expired s now)" for i by auto
  then have "History_Get i (Manager_history ?m') =
      (if i \<in> Session_ID ` set (filter (\<lambda>s. expired s now) ?l) then [] else History_Get i (Manager_history m))" for i
    using conjunct1 [OF conjunct2 [OF spec [of i]]] by (simp only:)
  moreover have "tally_inv ?m'" using sess_step_tally [OF sess_reach_tally [OF assms], of "OpSweep now clk"]
    by (simp add: fresh_op_def)
  then have "activeCount k ?m' =
      int (length (filter (\<lambda>s. Session_OwnerKeyID s = k) (Session_List (Manager_sessions ?m'))))" for k
    by (simp add: tally_inv_def owned_def gomap_count_def Session_List_def filter_map o_def)
  ultimately show ?thesis
    unfolding Let_def using conjunct2 [OF conjunct2 [OF spec]] by (intro conjI allI)
qed

theorem sweep_removes_expired_witness:
  "Session_Get ''sess_01'' (Manager_sessions (sweepExpired (10 ^ 15) (\<lambda>_. 10 ^ 15) wit_created)) =
     Inl ErrSessionNotFound \<and>
   length (Manager_ended (sweepExpired (10 ^ 15) (\<lambda>_. 10 ^ 15) wit_created)) = 1"
proof -
  have "Manager_obs wit_created" "Manager_ended wit_created = []"
    "length (filter (\<lambda>s. expired s (10 ^ 15)) (Session_List (Manager_sessions wit_created))) = 1"
    "\<not> isl (Session_Get ''sess_01'' (Manager_sessions wit_created)) \<and>
     expired (projr (Session_Get ''sess_01'' (Manager_sessions wit_created))) (10 ^ 15)"
    by code_simp+
  then show ?thesis
    using sweep_removes_expired [OF wit_created_reach, of "10 ^ 15" "\<lambda>_. 10 ^ 15"]
    by (auto simp: Let_def split: sum.splits)
qed


end
