(* ===== verification/Worker_Stream.thy ===== *)
theory Worker_Stream
  imports Agent_Types
begin

text \<open>
  The server's side of one connected worker (\<^verbatim>\<open>type worker\<close> of \<^verbatim>\<open>internal/server/server.go\<close>): its
  heartbeat view, the waiters of the jobs in flight, the output buffers of streaming jobs and the
  observers the streaming requests attach.

  A Go channel is a handle into one of two stores of the record. \<open>worker_mail\<close> holds what was sent to
  each result channel (buffer one); \<open>worker_chans\<close> the buffer of each observer channel (64 chunks) and
  whether it is closed. A method is one atomic step. Sends to a result channel happen after the lock
  is released, but only the call that removed the map entry performs one, so the order in which they
  land is that of the steps.

  The lemmas show that over any sequence of steps a waiter is sent at most one result, that the
  terminal chunk of a stream delivers the concatenation of the deltas of its job whatever other jobs
  do meanwhile, and that a dropped stream releases every waiter and closes every observer.
\<close>

section \<open>The worker\<close>

definition obsBuffer :: nat where
  "obsBuffer = 64"

record worker =
  worker_id :: string
  worker_pending :: "(string, nat) gomap"
  worker_streams :: "(string, string) gomap"
  worker_observers :: "(string, nat) gomap"
  worker_registeredAt :: gotime
  worker_models :: "Model slice"
  worker_lastHeartbeat :: gotime
  worker_activeJobs :: uint32
  worker_totalVRAM :: uint64
  worker_freeVRAM :: uint64
  worker_load :: uint32
  worker_gpuType :: string
  worker_availableModels :: "Model slice"
  worker_draining :: bool
  worker_mail :: "(nat, JobResult list) gomap"
  worker_chans :: "(nat, JobChunk list \<times> bool) gomap"
  worker_next :: nat

text \<open>The worker a stream registers.\<close>

definition new_worker :: "string \<Rightarrow> Model slice \<Rightarrow> gotime \<Rightarrow> worker" where
  "new_worker i ms now =
     \<lparr>worker_id = i, worker_pending = [], worker_streams = [], worker_observers = [], worker_registeredAt = now,
      worker_models = ms, worker_lastHeartbeat = now, worker_activeJobs = 0, worker_totalVRAM = 0,
      worker_freeVRAM = 0, worker_load = 0, worker_gpuType = [], worker_availableModels = None,
      worker_draining = False, worker_mail = [], worker_chans = [], worker_next = 0\<rparr>"

definition applyHeartbeat :: "Heartbeat \<Rightarrow> gotime \<Rightarrow> worker \<Rightarrow> worker" where
  "applyHeartbeat hb now w =
     (let w = w\<lparr>worker_lastHeartbeat := now, worker_activeJobs := Heartbeat_ActiveJobs hb,
                worker_totalVRAM := Heartbeat_TotalVRAM hb, worker_freeVRAM := Heartbeat_FreeVRAM hb,
                worker_load := Heartbeat_Load hb, worker_gpuType := Heartbeat_GPUType hb\<rparr>
      in if Heartbeat_AvailableModels hb \<noteq> None
         then w\<lparr>worker_availableModels := Heartbeat_AvailableModels hb\<rparr> else w)"

definition markDraining :: "worker \<Rightarrow> worker" where
  "markDraining w = w\<lparr>worker_draining := True\<rparr>"

definition inFlight :: "worker \<Rightarrow> nat" where
  "inFlight w = length (worker_pending w)"

definition snapshot :: "gotime \<Rightarrow> duration \<Rightarrow> worker \<Rightarrow> Worker" where
  "snapshot now timeout w =
     (let models = (if worker_availableModels w = None then worker_models w else worker_availableModels w);
          status = (if worker_draining w then WorkerDraining
                    else if worker_lastHeartbeat w \<noteq> zero_time \<and> time_sub now (worker_lastHeartbeat w) > timeout
                    then WorkerStale else WorkerOnline)
      in \<lparr>Worker_ID = worker_id w, Worker_Models = slice_elems models, Worker_LastSeen = worker_lastHeartbeat w,
          Worker_ActiveJobs = worker_activeJobs w, Worker_TotalVRAM = worker_totalVRAM w,
          Worker_FreeVRAM = worker_freeVRAM w, Worker_Load = worker_load w, Worker_GPUType = worker_gpuType w,
          Worker_Status = status, Worker_RegisteredAt = worker_registeredAt w\<rparr>)"

definition isStale :: "gotime \<Rightarrow> duration \<Rightarrow> worker \<Rightarrow> bool" where
  "isStale now timeout w =
     (if worker_lastHeartbeat w = zero_time then False
      else time_sub now (worker_lastHeartbeat w) > timeout)"

definition available :: "gotime \<Rightarrow> duration \<Rightarrow> worker \<Rightarrow> bool" where
  "available now timeout w =
     (if worker_draining w then False
      else if worker_lastHeartbeat w \<noteq> zero_time \<and> time_sub now (worker_lastHeartbeat w) > timeout then False
      else True)"

text \<open>Channel sends.\<close>

definition send_result :: "nat \<Rightarrow> JobResult \<Rightarrow> worker \<Rightarrow> worker" where
  "send_result ch res w = w\<lparr>worker_mail := AList.update ch (gomap_get [] (worker_mail w) ch @ [res]) (worker_mail w)\<rparr>"

definition forwardChunk :: "nat option \<Rightarrow> JobChunk \<Rightarrow> worker \<Rightarrow> worker" where
  "forwardChunk obs chunk w =
     (case obs of
        None \<Rightarrow> w
      | Some ch \<Rightarrow>
          let (buf, closed) = gomap_get ([], False) (worker_chans w) ch
          in if length buf < obsBuffer
             then w\<lparr>worker_chans := AList.update ch (buf @ [chunk], closed) (worker_chans w)\<rparr> else w)"

definition close_chan :: "nat \<Rightarrow> worker \<Rightarrow> worker" where
  "close_chan ch w =
     w\<lparr>worker_chans := AList.update ch (fst (gomap_get ([], False) (worker_chans w) ch), True) (worker_chans w)\<rparr>"

definition addPending :: "string \<Rightarrow> worker \<Rightarrow> nat \<times> worker" where
  "addPending jobID w =
     (let ch = worker_next w
      in (ch, w\<lparr>worker_next := ch + 1, worker_mail := AList.update ch [] (worker_mail w),
                worker_pending := AList.update jobID ch (worker_pending w)\<rparr>))"

text \<open>The clean-up of a dispatch whose context ended.\<close>

definition dropPending :: "string \<Rightarrow> worker \<Rightarrow> worker" where
  "dropPending jobID w = w\<lparr>worker_pending := AList.delete jobID (worker_pending w)\<rparr>"

definition addObserver :: "string \<Rightarrow> worker \<Rightarrow> nat \<times> worker" where
  "addObserver jobID w =
     (let ch = worker_next w
      in (ch, w\<lparr>worker_next := ch + 1, worker_chans := AList.update ch ([], False) (worker_chans w),
                worker_observers := AList.update jobID ch (worker_observers w)\<rparr>))"

definition removeObserver :: "string \<Rightarrow> worker \<Rightarrow> worker" where
  "removeObserver jobID w = w\<lparr>worker_observers := AList.delete jobID (worker_observers w)\<rparr>"

text \<open>The consumer's receive: the next chunk, the end of a closed channel, or nothing yet.\<close>

definition recvObserver :: "nat \<Rightarrow> worker \<Rightarrow> JobChunk option \<times> bool \<times> worker" where
  "recvObserver ch w =
     (case gomap_get ([], False) (worker_chans w) ch of
        (c # buf, closed) \<Rightarrow> (Some c, True, w\<lparr>worker_chans := AList.update ch (buf, closed) (worker_chans w)\<rparr>)
      | ([], closed) \<Rightarrow> (None, \<not> closed, w))"

definition resolve :: "JobResult \<Rightarrow> worker \<Rightarrow> worker" where
  "resolve res w =
     (case map_of (worker_pending w) (JobResult_JobID res) of
        None \<Rightarrow> w
      | Some ch \<Rightarrow>
          send_result ch res (w\<lparr>worker_pending := AList.delete (JobResult_JobID res) (worker_pending w)\<rparr>))"

text \<open>The locked part of folding a delta: the buffer grows, and the observer to tell is read.\<close>

definition accumulate_delta :: "JobChunk \<Rightarrow> worker \<Rightarrow> nat option \<times> worker" where
  "accumulate_delta chunk w =
     (let j = JobChunk_JobID chunk
      in (map_of (worker_observers w) j,
          w\<lparr>worker_streams := AList.update j (gomap_get [] (worker_streams w) j @ JobChunk_Delta chunk)
              (worker_streams w)\<rparr>))"

definition chunk_result :: "string \<Rightarrow> JobChunk \<Rightarrow> JobResult" where
  "chunk_result output chunk =
     (let res = \<lparr>JobResult_JobID = JobChunk_JobID chunk, JobResult_Output = output, JobResult_Err = JobChunk_Err chunk,
                 JobResult_Tokens = JobChunk_Tokens chunk, JobResult_ToolCalls = JobChunk_ToolCalls chunk,
                 JobResult_FinishReason = JobChunk_FinishReason chunk,
                 JobResult_PromptTokens = JobChunk_PromptTokens chunk,
                 JobResult_CompletionTokens = JobChunk_CompletionTokens chunk\<rparr>
      in if JobChunk_Err chunk \<noteq> None then res\<lparr>JobResult_Output := []\<rparr> else res)"

definition accumulate :: "JobChunk \<Rightarrow> worker \<Rightarrow> worker" where
  "accumulate chunk w =
     (if \<not> JobChunk_Done chunk then
        let (obs, w) = accumulate_delta chunk w in forwardChunk obs chunk w
      else
        let j = JobChunk_JobID chunk;
            output = gomap_get [] (worker_streams w) j @ JobChunk_Delta chunk;
            obs = map_of (worker_observers w) j;
            w = w\<lparr>worker_streams := AList.delete j (worker_streams w),
                  worker_observers := AList.delete j (worker_observers w)\<rparr>;
            w = (case obs of None \<Rightarrow> w | Some ch \<Rightarrow> close_chan ch (forwardChunk obs chunk w))
        in resolve (chunk_result output chunk) w)"

primrec fail_pending :: "JobError \<Rightarrow> (string \<times> nat) list \<Rightarrow> worker \<Rightarrow> worker" where
  "fail_pending err [] w = w"
| "fail_pending err (e # es) w =
     fail_pending err es
       (send_result (snd e) (zero_JobResult\<lparr>JobResult_JobID := fst e, JobResult_Err := Some err\<rparr>) w)"

primrec fail_observers :: "JobError \<Rightarrow> (string \<times> nat) list \<Rightarrow> worker \<Rightarrow> worker" where
  "fail_observers err [] w = w"
| "fail_observers err (e # es) w =
     fail_observers err es
       (close_chan (snd e)
         (forwardChunk (Some (snd e))
           (zero_JobChunk\<lparr>JobChunk_JobID := fst e, JobChunk_Done := True, JobChunk_Err := Some err\<rparr>) w))"

definition failAllPending :: "JobError \<Rightarrow> worker \<Rightarrow> worker" where
  "failAllPending err w =
     fail_observers err (worker_observers w) (fail_pending err (worker_pending w)
       (w\<lparr>worker_pending := [], worker_streams := [], worker_observers := []\<rparr>))"

section \<open>Histories of a worker\<close>

datatype WorkerEvent =
    EvHeartbeat Heartbeat gotime
  | EvDrain
  | EvDispatch string
  | EvCancel string
  | EvObserve string
  | EvUnobserve string
  | EvRecv nat
  | EvResult JobResult
  | EvChunk JobChunk
  | EvDrop JobError

primrec worker_event :: "WorkerEvent \<Rightarrow> worker \<Rightarrow> worker" where
  "worker_event (EvHeartbeat hb now) w = applyHeartbeat hb now w"
| "worker_event EvDrain w = markDraining w"
| "worker_event (EvDispatch j) w = snd (addPending j w)"
| "worker_event (EvCancel j) w = dropPending j w"
| "worker_event (EvObserve j) w = snd (addObserver j w)"
| "worker_event (EvUnobserve j) w = removeObserver j w"
| "worker_event (EvRecv ch) w = snd (snd (recvObserver ch w))"
| "worker_event (EvResult res) w = resolve res w"
| "worker_event (EvChunk c) w = accumulate c w"
| "worker_event (EvDrop err) w = failAllPending err w"

definition worker_run :: "WorkerEvent list \<Rightarrow> worker \<Rightarrow> worker" where
  "worker_run evs w = fold worker_event evs w"

section \<open>Lemmas\<close>

abbreviation mail :: "worker \<Rightarrow> nat \<Rightarrow> JobResult list" where
  "mail w ch \<equiv> gomap_get [] (worker_mail w) ch"

abbreviation chan :: "worker \<Rightarrow> nat \<Rightarrow> JobChunk list \<times> bool" where
  "chan w ch \<equiv> gomap_get ([], False) (worker_chans w) ch"

named_theorems worker_simps \<open>effects of the channel operations on the fields of a worker\<close>

lemma send_result_simps [worker_simps]:
  "mail (send_result ch res w) c = (if c = ch then mail w c @ [res] else mail w c)"
  "worker_chans (send_result ch res w) = worker_chans w"
  "worker_pending (send_result ch res w) = worker_pending w"
  "worker_streams (send_result ch res w) = worker_streams w"
  "worker_observers (send_result ch res w) = worker_observers w"
  "worker_next (send_result ch res w) = worker_next w"
  by (simp_all add: send_result_def gomap_simps)

lemma forwardChunk_simps [worker_simps]:
  "chan (forwardChunk obs c w) ch =
     (if obs = Some ch \<and> length (fst (chan w ch)) < obsBuffer then (fst (chan w ch) @ [c], snd (chan w ch)) else chan w ch)"
  "worker_mail (forwardChunk obs c w) = worker_mail w"
  "worker_pending (forwardChunk obs c w) = worker_pending w"
  "worker_streams (forwardChunk obs c w) = worker_streams w"
  "worker_observers (forwardChunk obs c w) = worker_observers w"
  "worker_next (forwardChunk obs c w) = worker_next w"
  by (auto simp: forwardChunk_def gomap_simps Let_def split: option.splits prod.splits)

lemma close_chan_simps [worker_simps]:
  "chan (close_chan k w) ch = (if ch = k then (fst (chan w ch), True) else chan w ch)"
  "worker_mail (close_chan k w) = worker_mail w"
  "worker_pending (close_chan k w) = worker_pending w"
  "worker_streams (close_chan k w) = worker_streams w"
  "worker_observers (close_chan k w) = worker_observers w"
  "worker_next (close_chan k w) = worker_next w"
  by (simp_all add: close_chan_def gomap_simps)

lemma resolve_simps [worker_simps]:
  "mail (resolve res w) ch =
     (if map_of (worker_pending w) (JobResult_JobID res) = Some ch then mail w ch @ [res] else mail w ch)"
  "worker_pending (resolve res w) = AList.delete (JobResult_JobID res) (worker_pending w)"
  "worker_chans (resolve res w) = worker_chans w"
  "worker_streams (resolve res w) = worker_streams w"
  "worker_observers (resolve res w) = worker_observers w"
  "worker_next (resolve res w) = worker_next w"
  by (auto simp: resolve_def worker_simps map_of_eq_None_iff split: option.splits)

lemma chunk_result_JobID [simp]: "JobResult_JobID (chunk_result out c) = JobChunk_JobID c"
  by (simp add: chunk_result_def Let_def)

lemma accumulate_simps [worker_simps]:
  "mail (accumulate c w) ch =
     (if JobChunk_Done c \<and> map_of (worker_pending w) (JobChunk_JobID c) = Some ch
      then mail w ch @ [chunk_result (gomap_get [] (worker_streams w) (JobChunk_JobID c) @ JobChunk_Delta c) c]
      else mail w ch)"
  "worker_pending (accumulate c w) =
     (if JobChunk_Done c then AList.delete (JobChunk_JobID c) (worker_pending w) else worker_pending w)"
  "gomap_get [] (worker_streams (accumulate c w)) j =
     (if j = JobChunk_JobID c then (if JobChunk_Done c then [] else gomap_get [] (worker_streams w) j @ JobChunk_Delta c)
      else gomap_get [] (worker_streams w) j)"
  "worker_observers (accumulate c w) =
     (if JobChunk_Done c then AList.delete (JobChunk_JobID c) (worker_observers w) else worker_observers w)"
  "chan (accumulate c w) ch =
     (if map_of (worker_observers w) (JobChunk_JobID c) = Some ch
      then (if length (fst (chan w ch)) < obsBuffer then fst (chan w ch) @ [c] else fst (chan w ch),
            JobChunk_Done c \<or> snd (chan w ch))
      else chan w ch)"
  "worker_next (accumulate c w) = worker_next w"
  by (auto simp: accumulate_def accumulate_delta_def Let_def worker_simps gomap_simps split: option.splits)

lemma fail_pending_simps [worker_simps]:
  "worker_pending (fail_pending err es w) = worker_pending w"
  "worker_observers (fail_pending err es w) = worker_observers w"
  "worker_streams (fail_pending err es w) = worker_streams w"
  "worker_chans (fail_pending err es w) = worker_chans w"
  "worker_next (fail_pending err es w) = worker_next w"
  by (induction es arbitrary: w) (simp_all add: worker_simps)

lemma fail_observers_simps [worker_simps]:
  "worker_pending (fail_observers err es w) = worker_pending w"
  "worker_observers (fail_observers err es w) = worker_observers w"
  "worker_streams (fail_observers err es w) = worker_streams w"
  "worker_mail (fail_observers err es w) = worker_mail w"
  "worker_next (fail_observers err es w) = worker_next w"
  by (induction es arbitrary: w) (simp_all add: worker_simps)

definition error_result :: "JobError \<Rightarrow> string \<Rightarrow> JobResult" where
  "error_result err j = zero_JobResult\<lparr>JobResult_JobID := j, JobResult_Err := Some err\<rparr>"

lemma fail_pending_mail:
  "distinct (map snd es) \<Longrightarrow>
   mail (fail_pending err es w) ch =
     mail w ch @ (case find (\<lambda>e. snd e = ch) es of Some e \<Rightarrow> [error_result err (fst e)] | None \<Rightarrow> [])"
proof (induction es arbitrary: w)
  case Nil
  then show ?case by simp
next
  case (Cons e es)
  have "find (\<lambda>e. snd e = ch) es = None" if "snd e = ch"
    using Cons.prems that unfolding find_None_iff by (auto simp: image_iff)
  then show ?case using Cons by (auto simp: worker_simps error_result_def)
qed

lemma fail_observers_chan:
  "distinct (map snd es) \<Longrightarrow>
   snd (chan (fail_observers err es w) ch) = (ch \<in> snd ` set es \<or> snd (chan w ch)) \<and>
   (length (fst (chan w ch)) \<le> obsBuffer \<longrightarrow> length (fst (chan (fail_observers err es w) ch)) \<le> obsBuffer) \<and>
   (ch \<notin> snd ` set es \<longrightarrow> chan (fail_observers err es w) ch = chan w ch)"
proof (induction es arbitrary: w)
  case Nil
  then show ?case by simp
next
  case (Cons e es)
  define w1 where "w1 = close_chan (snd e) (forwardChunk (Some (snd e))
      (zero_JobChunk\<lparr>JobChunk_JobID := fst e, JobChunk_Done := True, JobChunk_Err := Some err\<rparr>) w)"
  have "length (fst (chan w ch)) \<le> obsBuffer \<longrightarrow> length (fst (chan w1 ch)) \<le> obsBuffer"
    "snd (chan w1 ch) = (ch = snd e \<or> snd (chan w ch))" "ch \<noteq> snd e \<longrightarrow> chan w1 ch = chan w ch"
    by (auto simp: w1_def worker_simps)
  moreover have "fail_observers err (e # es) w = fail_observers err es w1" by (simp add: w1_def)
  ultimately show ?case using Cons.IH [of w1] Cons.prems by auto
qed

section \<open>The invariant of a worker\<close>

text \<open>Handles in a registry: one per job, below the next free one, each with a property.\<close>

definition handles_ok :: "(string, nat) gomap \<Rightarrow> nat \<Rightarrow> (nat \<Rightarrow> bool) \<Rightarrow> bool" where
  "handles_ok m n P \<longleftrightarrow> gomap_wf m \<and>
     (\<forall>j j' ch. map_of m j = Some ch \<longrightarrow> map_of m j' = Some ch \<longrightarrow> j = j') \<and>
     (\<forall>j ch. map_of m j = Some ch \<longrightarrow> ch < n \<and> P ch)"

lemma handles_ok_Nil [simp]: "handles_ok [] n P"
  by (simp add: handles_ok_def)

lemma handles_ok_update:
  "handles_ok m n P \<Longrightarrow> P' n \<Longrightarrow> (\<forall>ch<n. P ch \<longrightarrow> P' ch) \<Longrightarrow> handles_ok (AList.update j n m) (n + 1) P'"
  unfolding handles_ok_def by (auto simp: update_conv' less_Suc_eq split: if_splits)

lemma handles_ok_delete:
  "handles_ok m n P \<Longrightarrow> (\<forall>ch. P ch \<and> map_of m j \<noteq> Some ch \<longrightarrow> P' ch) \<Longrightarrow> handles_ok (AList.delete j m) n P'"
  unfolding handles_ok_def by (auto simp: delete_conv' split: if_splits) (metis option.inject)+

lemma handles_ok_mono: "handles_ok m n P \<Longrightarrow> n \<le> n' \<Longrightarrow> (\<forall>ch<n. P ch \<longrightarrow> P' ch) \<Longrightarrow> handles_ok m n' P'"
  unfolding handles_ok_def by (meson less_le_trans)

lemma handles_ok_distinct: "handles_ok m n P \<Longrightarrow> distinct (map snd m)"
proof (induction m)
  case Nil
  then show ?case by simp
next
  case (Cons e m)
  obtain j ch where e: "e = (j, ch)" by (cases e)
  have wf: "gomap_wf m" "j \<notin> fst ` set m" using Cons.prems e by (auto simp: handles_ok_def)
  have sub: "map_of m k = Some c \<Longrightarrow> map_of (e # m) k = Some c" for k c
    using wf(2) e map_of_SomeD [of m k c] by force
  have "handles_ok m n P" using Cons.prems sub wf(1) unfolding handles_ok_def by blast
  moreover have "ch \<notin> snd ` set m"
  proof
    assume "ch \<in> snd ` set m"
    then obtain k where "(k, ch) \<in> set m" by auto
    then have k: "map_of m k = Some ch" using wf(1) by (simp add: gomap_mem_iff)
    then have "k \<noteq> j" using wf(2) map_of_SomeD [OF k] by force
    moreover have "map_of (e # m) j = Some ch" using e by simp
    ultimately show False using Cons.prems sub [OF k] unfolding handles_ok_def by blast
  qed
  ultimately show ?case using Cons.IH e by simp
qed

definition worker_inv :: "worker \<Rightarrow> bool" where
  "worker_inv w \<longleftrightarrow>
     handles_ok (worker_pending w) (worker_next w) (\<lambda>ch. mail w ch = []) \<and>
     handles_ok (worker_observers w) (worker_next w) (\<lambda>ch. \<not> snd (chan w ch)) \<and>
     (\<forall>ch. length (mail w ch) \<le> 1 \<and> length (fst (chan w ch)) \<le> obsBuffer)"

lemma new_worker_inv: "worker_inv (new_worker i ms now)"
  by (simp add: worker_inv_def new_worker_def)

lemma handles_ok_lookup: "handles_ok m n P \<Longrightarrow> map_of m j = Some ch \<Longrightarrow> ch < n \<and> P ch"
  by (simp add: handles_ok_def)

lemma handles_ok_inj: "handles_ok m n P \<Longrightarrow> map_of m j = Some ch \<Longrightarrow> map_of m j' = Some ch \<Longrightarrow> j = j'"
  by (simp add: handles_ok_def)

lemma resolve_inv:
  assumes "worker_inv w"
  shows "worker_inv (resolve res w)"
proof -
  note p = assms [unfolded worker_inv_def, THEN conjunct1]
  have "handles_ok (worker_pending (resolve res w)) (worker_next w) (\<lambda>ch. mail (resolve res w) ch = [])"
    unfolding worker_simps by (rule handles_ok_delete [OF p]) auto
  moreover have "length (mail (resolve res w) ch) \<le> 1" for ch
    using assms handles_ok_lookup [OF p, of _ ch] by (auto simp: worker_simps worker_inv_def)
  ultimately show ?thesis using assms by (simp add: worker_inv_def worker_simps)
qed

lemma accumulate_inv:
  assumes "worker_inv w"
  shows "worker_inv (accumulate c w)"
proof -
  note p = assms [unfolded worker_inv_def, THEN conjunct1]
  note q = assms [unfolded worker_inv_def, THEN conjunct2, THEN conjunct1]
  have "handles_ok (worker_pending (accumulate c w)) (worker_next w) (\<lambda>ch. mail (accumulate c w) ch = [])"
  proof (cases "JobChunk_Done c")
    case True
    then show ?thesis unfolding worker_simps using handles_ok_delete [OF p] by simp
  next
    case False
    then show ?thesis unfolding worker_simps using p by simp
  qed
  moreover have "handles_ok (worker_observers (accumulate c w)) (worker_next w) (\<lambda>ch. \<not> snd (chan (accumulate c w) ch))"
  proof (cases "JobChunk_Done c")
    case True
    then show ?thesis unfolding worker_simps using handles_ok_delete [OF q] by simp
  next
    case False
    then show ?thesis unfolding worker_simps using handles_ok_mono [OF q order_refl] by simp
  qed
  moreover have "length (mail (accumulate c w) ch) \<le> 1" for ch
    using assms handles_ok_lookup [OF p, of _ ch] by (auto simp: worker_simps worker_inv_def)
  moreover have "length (fst (chan (accumulate c w) ch)) \<le> obsBuffer" for ch
    using assms by (auto simp: worker_simps worker_inv_def)
  ultimately show ?thesis by (simp add: worker_inv_def worker_simps)
qed

lemma failAllPending_inv:
  assumes "worker_inv w"
  shows "worker_inv (failAllPending err w)"
proof -
  note p = assms [unfolded worker_inv_def, THEN conjunct1]
  note q = assms [unfolded worker_inv_def, THEN conjunct2, THEN conjunct1]
  let ?w = "w\<lparr>worker_pending := [], worker_streams := [], worker_observers := []\<rparr>"
  have "length (mail (failAllPending err w) ch) \<le> 1" for ch
  proof (cases "find (\<lambda>e. snd e = ch) (worker_pending w)")
    case None
    then show ?thesis
      using assms fail_pending_mail [OF handles_ok_distinct [OF p], of err ?w ch]
      by (simp add: failAllPending_def worker_simps worker_inv_def)
  next
    case (Some e)
    then have "(fst e, ch) \<in> set (worker_pending w)" by (auto simp: find_Some_iff)
    then have "map_of (worker_pending w) (fst e) = Some ch"
      using p unfolding handles_ok_def by (metis gomap_mem_iff)
    then show ?thesis
      using Some handles_ok_lookup [OF p] fail_pending_mail [OF handles_ok_distinct [OF p], of err ?w ch]
      by (simp add: failAllPending_def worker_simps)
  qed
  moreover have "length (fst (chan (failAllPending err w) ch)) \<le> obsBuffer" for ch
    using assms fail_observers_chan [OF handles_ok_distinct [OF q], of err "fail_pending err (worker_pending w) ?w" ch]
    by (simp add: failAllPending_def worker_simps worker_inv_def)
  moreover have "worker_pending (failAllPending err w) = []" "worker_observers (failAllPending err w) = []"
    by (simp_all add: failAllPending_def worker_simps)
  ultimately show ?thesis by (simp add: worker_inv_def)
qed

lemma worker_event_inv:
  assumes "worker_inv w"
  shows "worker_inv (worker_event e w)"
proof -
  note p = assms [unfolded worker_inv_def, THEN conjunct1]
  note q = assms [unfolded worker_inv_def, THEN conjunct2, THEN conjunct1]
  show ?thesis
  proof (cases e)
    case (EvDispatch j)
    let ?w = "snd (addPending j w)"
    have "handles_ok (AList.update j (worker_next w) (worker_pending w)) (worker_next w + 1) (\<lambda>ch. mail ?w ch = [])"
      by (rule handles_ok_update [OF p]) (simp_all add: addPending_def Let_def gomap_simps)
    moreover have "handles_ok (worker_observers w) (worker_next w + 1) (\<lambda>ch. \<not> snd (chan ?w ch))"
      by (rule handles_ok_mono [OF q]) (simp_all add: addPending_def Let_def)
    ultimately show ?thesis
      using assms by (simp add: EvDispatch worker_inv_def addPending_def Let_def gomap_simps)
  next
    case (EvObserve j)
    let ?w = "snd (addObserver j w)"
    have "handles_ok (AList.update j (worker_next w) (worker_observers w)) (worker_next w + 1) (\<lambda>ch. \<not> snd (chan ?w ch))"
      by (rule handles_ok_update [OF q]) (simp_all add: addObserver_def Let_def gomap_simps)
    moreover have "handles_ok (worker_pending w) (worker_next w + 1) (\<lambda>ch. mail ?w ch = [])"
      by (rule handles_ok_mono [OF p]) (simp_all add: addObserver_def Let_def)
    ultimately show ?thesis
      using assms by (simp add: EvObserve worker_inv_def addObserver_def Let_def gomap_simps)
  next
    case (EvRecv ch)
    let ?w = "snd (snd (recvObserver ch w))"
    have c: "snd (chan ?w k) = snd (chan w k) \<and> length (fst (chan ?w k)) \<le> length (fst (chan w k))" for k
      by (cases "chan w ch"; cases "fst (chan w ch)") (auto simp: recvObserver_def gomap_simps)
    have same: "worker_pending ?w = worker_pending w" "worker_observers ?w = worker_observers w"
      "worker_mail ?w = worker_mail w" "worker_next ?w = worker_next w"
      by (auto simp: recvObserver_def split: prod.splits list.splits)
    have "handles_ok (worker_observers w) (worker_next w) (\<lambda>k. \<not> snd (chan ?w k))"
      by (rule handles_ok_mono [OF q order_refl]) (simp add: c)
    moreover have "length (fst (chan ?w k)) \<le> obsBuffer" for k
      using conjunct2 [OF c [of k]] assms unfolding worker_inv_def by (meson le_trans)
    ultimately show ?thesis
      using assms unfolding EvRecv worker_event.simps worker_inv_def same by simp
  next
    case (EvCancel j)
    have "handles_ok (AList.delete j (worker_pending w)) (worker_next w) (\<lambda>ch. mail w ch = [])"
      by (rule handles_ok_delete [OF p]) simp
    then show ?thesis using assms by (simp add: EvCancel worker_inv_def dropPending_def)
  next
    case (EvUnobserve j)
    have "handles_ok (AList.delete j (worker_observers w)) (worker_next w) (\<lambda>ch. \<not> snd (chan w ch))"
      by (rule handles_ok_delete [OF q]) simp
    then show ?thesis using assms by (simp add: EvUnobserve worker_inv_def removeObserver_def)
  next
    case (EvHeartbeat hb now)
    then show ?thesis using assms by (simp add: worker_inv_def applyHeartbeat_def Let_def)
  next
    case EvDrain
    then show ?thesis using assms by (simp add: worker_inv_def markDraining_def)
  qed (simp_all add: resolve_inv [OF assms] accumulate_inv [OF assms] failAllPending_inv [OF assms])
qed

lemma worker_run_inv: "worker_inv w \<Longrightarrow> worker_inv (worker_run evs w)"
  unfolding worker_run_def by (induction evs arbitrary: w) (simp_all add: worker_event_inv)

section \<open>One job among others\<close>

text \<open>Events that neither end nor restart a job.\<close>

definition quiet :: "string \<Rightarrow> WorkerEvent \<Rightarrow> bool" where
  "quiet j e = (case e of
     EvDispatch k \<Rightarrow> k \<noteq> j
   | EvCancel k \<Rightarrow> k \<noteq> j
   | EvResult res \<Rightarrow> JobResult_JobID res \<noteq> j
   | EvChunk c \<Rightarrow> JobChunk_JobID c \<noteq> j \<or> \<not> JobChunk_Done c
   | EvDrop err \<Rightarrow> False
   | _ \<Rightarrow> True)"

primrec deltas :: "string \<Rightarrow> WorkerEvent list \<Rightarrow> string" where
  "deltas j [] = []"
| "deltas j (e # es) =
     (case e of EvChunk c \<Rightarrow> if JobChunk_JobID c = j then JobChunk_Delta c else [] | _ \<Rightarrow> []) @ deltas j es"

lemma quiet_event:
  assumes "quiet j e"
  shows "map_of (worker_pending (worker_event e w)) j = map_of (worker_pending w) j"
    and "gomap_get [] (worker_streams (worker_event e w)) j = gomap_get [] (worker_streams w) j @ deltas j [e]"
  using assms
  by (cases e;
      auto simp: quiet_def worker_simps applyHeartbeat_def markDraining_def addPending_def dropPending_def
        addObserver_def removeObserver_def recvObserver_def Let_def gomap_simps split: prod.splits list.splits)+

lemma quiet_run:
  "\<forall>e\<in>set evs. quiet j e \<Longrightarrow>
   map_of (worker_pending (worker_run evs w)) j = map_of (worker_pending w) j \<and>
   gomap_get [] (worker_streams (worker_run evs w)) j = gomap_get [] (worker_streams w) j @ deltas j evs"
  unfolding worker_run_def by (induction evs arbitrary: w) (simp_all add: quiet_event)

section \<open>Properties\<close>

text \<open>
  A waiter is told at most once: after any sequence of heartbeats, dispatches, cancellations,
  results, chunks, observers coming and going and stream drops, every result channel has been sent at
  most one result, so a send on its one-place buffer never blocks; the channel of a job still pending
  has been sent none; and the channel of a registered observer is open and within its buffer.
\<close>

theorem waiters_told_at_most_once:
  "let w = worker_run evs (new_worker i ms now)
   in (\<forall>ch. length (gomap_get [] (worker_mail w) ch) \<le> 1) \<and>
      (\<forall>j ch. map_of (worker_pending w) j = Some ch \<longrightarrow> gomap_get [] (worker_mail w) ch = []) \<and>
      (\<forall>j ch. map_of (worker_observers w) j = Some ch \<longrightarrow>
         \<not> snd (gomap_get ([], False) (worker_chans w) ch) \<and>
         length (fst (gomap_get ([], False) (worker_chans w) ch)) \<le> obsBuffer)"
  using worker_run_inv [OF new_worker_inv, of evs i ms now]
  by (auto simp: Let_def worker_inv_def handles_ok_def)

definition wit_chunk :: "string \<Rightarrow> string \<Rightarrow> bool \<Rightarrow> JobChunk" where
  "wit_chunk j d fin = zero_JobChunk\<lparr>JobChunk_JobID := j, JobChunk_Delta := d, JobChunk_Done := fin\<rparr>"

theorem waiters_told_at_most_once_witness:
  "let evs = [EvDispatch ''a'', EvChunk (wit_chunk ''a'' ''x'' False), EvObserve ''a''];
       w = worker_run evs (new_worker ''w'' None 0)
   in map_of (worker_pending w) ''a'' = Some 0 \<and> gomap_get [] (worker_mail w) 0 = []"
proof -
  let ?w = "worker_run [EvDispatch ''a'', EvChunk (wit_chunk ''a'' ''x'' False), EvObserve ''a''] (new_worker ''w'' None 0)"
  have "map_of (worker_pending ?w) ''a'' = Some 0" by code_simp
  then show ?thesis using waiters_told_at_most_once
      [of "[EvDispatch ''a'', EvChunk (wit_chunk ''a'' ''x'' False), EvObserve ''a'']" "''w''" None 0]
    unfolding Let_def by blast
qed

text \<open>
  C21. A token stream is put back together: on a reachable worker without a buffer for a job, dispatch
  the job, let any events happen that neither end nor restart it, chunks of other jobs included, and
  then its terminal chunk. Its waiter has received exactly one result: the deltas of the job in order
  followed by the terminal chunk's, or, when that carries an error, the error and no output.
\<close>

theorem stream_reassembled:
  assumes "w = worker_run pre (new_worker i ms now)" and "gomap_get [] (worker_streams w) j = []"
    and "\<forall>e\<in>set evs. quiet j e" and "JobChunk_JobID c = j" and "JobChunk_Done c"
  shows "\<exists>res. gomap_get [] (worker_mail (worker_run (EvDispatch j # evs @ [EvChunk c]) w)) (worker_next w) = [res] \<and>
    JobResult_JobID res = j \<and> JobResult_Err res = JobChunk_Err c \<and> JobResult_Tokens res = JobChunk_Tokens c \<and>
    JobResult_Output res = (if JobChunk_Err c = None then deltas j evs @ JobChunk_Delta c else [])"
proof -
  define w1 where "w1 = worker_run evs (snd (addPending j w))"
  have "worker_inv w" using worker_run_inv [OF new_worker_inv] assms(1) by simp
  then have "worker_inv (snd (addPending j w))" using worker_event_inv [of w "EvDispatch j"] by simp
  then have inv: "worker_inv w1" unfolding w1_def by (rule worker_run_inv)
  have w1: "map_of (worker_pending w1) j = Some (worker_next w)"
    "gomap_get [] (worker_streams w1) j = deltas j evs"
    using quiet_run [OF assms(3), of "snd (addPending j w)"] assms(2)
    by (simp_all add: w1_def addPending_def Let_def update_conv')
  have "mail w1 (worker_next w) = []"
    using inv w1(1) handles_ok_lookup unfolding worker_inv_def by blast
  then have "mail (accumulate c w1) (worker_next w) = [chunk_result (deltas j evs @ JobChunk_Delta c) c]"
    using w1 assms(4,5) by (simp add: worker_simps)
  moreover have "worker_run (EvDispatch j # evs @ [EvChunk c]) w = accumulate c w1"
    by (simp add: worker_run_def w1_def)
  ultimately show ?thesis using assms(4) by (simp add: chunk_result_def Let_def)
qed

theorem stream_reassembled_witness:
  "\<exists>res. gomap_get [] (worker_mail (worker_run
      [EvDispatch ''a'', EvDispatch ''b'', EvChunk (wit_chunk ''a'' ''x'' False), EvChunk (wit_chunk ''b'' ''q'' True),
       EvChunk (wit_chunk ''a'' ''y'' False), EvChunk (wit_chunk ''a'' ''z'' True)] (new_worker ''w'' None 0))) 0 = [res] \<and>
    JobResult_Output res = ''xyz''"
proof -
  let ?evs = "[EvDispatch ''b'', EvChunk (wit_chunk ''a'' ''x'' False), EvChunk (wit_chunk ''b'' ''q'' True),
       EvChunk (wit_chunk ''a'' ''y'' False)]"
  have "new_worker ''w'' None 0 = worker_run [] (new_worker ''w'' None 0)" by (simp add: worker_run_def)
  from stream_reassembled [OF this, of "''a''" ?evs "wit_chunk ''a'' ''z'' True"]
  show ?thesis by (auto simp: new_worker_def quiet_def wit_chunk_def zero_JobChunk_def)
qed

text \<open>
  A dropped stream strands nobody: when the stream of a reachable worker drops, the waiter of every
  job in flight receives exactly the error for its job, every observer's channel is closed, no job is
  in flight any more and no buffer is left.
\<close>

theorem drop_releases_everyone:
  assumes "w = worker_run evs (new_worker i ms now)"
  shows "let w' = failAllPending err w
    in (\<forall>j ch. map_of (worker_pending w) j = Some ch \<longrightarrow>
          gomap_get [] (worker_mail w') ch = [zero_JobResult\<lparr>JobResult_JobID := j, JobResult_Err := Some err\<rparr>]) \<and>
       (\<forall>j ch. map_of (worker_observers w) j = Some ch \<longrightarrow> snd (gomap_get ([], False) (worker_chans w') ch)) \<and>
       inFlight w' = 0 \<and> worker_streams w' = [] \<and> worker_observers w' = []"
proof -
  have inv: "worker_inv w" using worker_run_inv [OF new_worker_inv] assms by simp
  note p = inv [unfolded worker_inv_def, THEN conjunct1]
  note q = inv [unfolded worker_inv_def, THEN conjunct2, THEN conjunct1]
  let ?w = "w\<lparr>worker_pending := [], worker_streams := [], worker_observers := []\<rparr>"
  have "mail (failAllPending err w) ch = [error_result err j]" if "map_of (worker_pending w) j = Some ch" for j ch
  proof -
    have "(j, ch) \<in> set (worker_pending w)" using that by (rule map_of_SomeD)
    then obtain e where e: "find (\<lambda>e. snd e = ch) (worker_pending w) = Some e"
      by (cases "find (\<lambda>e. snd e = ch) (worker_pending w)") (auto simp: find_None_iff)
    then have "(fst e, ch) \<in> set (worker_pending w)" by (auto simp: find_Some_iff)
    then have "map_of (worker_pending w) (fst e) = Some ch"
      using p unfolding handles_ok_def by (metis gomap_mem_iff)
    then have "fst e = j" using handles_ok_inj [OF p] that by blast
    then show ?thesis
      using e fail_pending_mail [OF handles_ok_distinct [OF p], of err ?w ch] handles_ok_lookup [OF p that]
      by (simp add: failAllPending_def worker_simps)
  qed
  moreover have "snd (chan (failAllPending err w) ch)" if "map_of (worker_observers w) j = Some ch" for j ch
    using fail_observers_chan [OF handles_ok_distinct [OF q], of err "fail_pending err (worker_pending w) ?w" ch]
      map_of_SomeD [OF that] by (force simp: failAllPending_def)
  ultimately show ?thesis
    by (simp add: Let_def error_result_def inFlight_def failAllPending_def worker_simps)
qed

theorem drop_releases_everyone_witness:
  "let w = worker_run [EvDispatch ''a'', EvDispatch ''b''] (new_worker ''w'' None 0);
       err = \<lparr>JobError_Code = ''worker_stale'', JobError_Message = ''gone''\<rparr>
   in map_of (worker_pending w) ''b'' = Some 1 \<and>
      gomap_get [] (worker_mail (failAllPending err w)) 1 =
        [zero_JobResult\<lparr>JobResult_JobID := ''b'', JobResult_Err := Some err\<rparr>]"
proof -
  let ?w = "worker_run [EvDispatch ''a'', EvDispatch ''b''] (new_worker ''w'' None 0)"
  have "map_of (worker_pending ?w) ''b'' = Some 1" by code_simp
  then show ?thesis
    using drop_releases_everyone [of ?w, OF refl] unfolding Let_def by blast
qed


end
