(* ===== verification/Registry.thy ===== *)
theory Registry
  imports Strconv Worker_Stream Scheduler Authz Quota Session_Manager
begin

text \<open>
  The control-plane server of \<^verbatim>\<open>internal/server/server.go\<close>: its state, the registry of connected
  workers, the fleet snapshot, worker selection, draining and eviction, the waiters of queued jobs,
  the handling of a worker's messages and the wait-time and affinity counters.

  A \<^verbatim>\<open>*worker\<close> is a connection number: \<open>Server_conns\<close> holds the worker each connection points to,
  also after the registry \<open>Server_workers\<close> has let go of it, and two pointers are equal when the
  numbers are. What the server puts on the send channels is kept, in order, in \<open>Server_sent\<close>. A step
  takes the clock reading as an argument; logging is left out.
\<close>

section \<open>State\<close>

datatype ServerMsg = MsgRegisterAck string | MsgJob pb_Job | MsgPullModel string | MsgUnloadModel string

datatype ServerError =
    ErrInvalid InvalidJob | ErrAuthz AuthzError | ErrQuota QuotaError | ErrModelUnavailable | ErrQueue QueueError
  | ErrShuttingDown | ErrWorkerNotFound | ErrContext | ErrJob JobError
  | ErrInvalidArgument | ErrFailedPrecondition

record Server =
  Server_conns :: "(nat, worker) gomap"
  Server_workers :: "(string, nat) gomap"
  Server_nextConn :: nat
  Server_nextSes :: uint64
  Server_sent :: "(nat \<times> ServerMsg) list"
  Server_cancelled :: "nat list"
  Server_heartbeatTimeout :: duration
  Server_evictScan :: duration
  Server_placeScan :: duration
  Server_modelWarmMax :: duration
  Server_queue :: Queue
  Server_waiters :: "(string, nat) gomap"
  Server_waitMail :: "(nat, JobResult list) gomap"
  Server_nextWaiter :: nat
  Server_capacity :: bool
  Server_quota :: Engine
  Server_sessionMgr :: "Manager option"
  Server_audit :: "AuditRecord list"
  Server_affinityHits :: uint64
  Server_affinityMisses :: uint64
  Server_affinityRebinds :: uint64
  Server_waitCount :: uint64
  Server_waitSumMs :: uint64
  Server_waitMaxMs :: uint64
  Server_waitBuckets :: "uint64 list"

definition DefaultHeartbeatTimeout :: duration where
  "DefaultHeartbeatTimeout = 45 * second"

definition defaultModelWarmMax :: duration where
  "defaultModelWarmMax = hour"

definition waitBucketBounds :: "uint64 list" where
  "waitBucketBounds = [10, 100, 1000, 10000]"

definition WithQuota :: "Engine option \<Rightarrow> Server \<Rightarrow> Server" where
  "WithQuota q s = (case q of None \<Rightarrow> s | Some q \<Rightarrow> s\<lparr>Server_quota := q\<rparr>)"

definition WithSessionManager :: "Manager option \<Rightarrow> Server \<Rightarrow> Server" where
  "WithSessionManager m s = (if m \<noteq> None then s\<lparr>Server_sessionMgr := m\<rparr> else s)"

definition WithModelWarmMax :: "duration \<Rightarrow> Server \<Rightarrow> Server" where
  "WithModelWarmMax d s = (if d > 0 then s\<lparr>Server_modelWarmMax := d\<rparr> else s)"

definition WithHeartbeatTimeout :: "duration \<Rightarrow> Server \<Rightarrow> Server" where
  "WithHeartbeatTimeout d s = (if d > 0 then s\<lparr>Server_heartbeatTimeout := d\<rparr> else s)"

definition WithEvictScanInterval :: "duration \<Rightarrow> Server \<Rightarrow> Server" where
  "WithEvictScanInterval d s = (if d > 0 then s\<lparr>Server_evictScan := d\<rparr> else s)"

definition WithPlaceScanInterval :: "duration \<Rightarrow> Server \<Rightarrow> Server" where
  "WithPlaceScanInterval d s = (if d > 0 then s\<lparr>Server_placeScan := d\<rparr> else s)"

definition WithQueue :: "Queue option \<Rightarrow> Server \<Rightarrow> Server" where
  "WithQueue q s = (case q of None \<Rightarrow> s | Some q \<Rightarrow> s\<lparr>Server_queue := q\<rparr>)"

text \<open>
  The constructor. The queue and the quota engine start as the defaults that the code installs when no
  option set them.
\<close>

definition NewServer :: "(Server \<Rightarrow> Server) list \<Rightarrow> Server" where
  "NewServer opts =
     (let s = \<lparr>Server_conns = [], Server_workers = [], Server_nextConn = 0, Server_nextSes = 0, Server_sent = [],
               Server_cancelled = [], Server_heartbeatTimeout = DefaultHeartbeatTimeout, Server_evictScan = 0,
               Server_placeScan = 0, Server_modelWarmMax = 0, Server_queue = New [], Server_waiters = [],
               Server_waitMail = [], Server_nextWaiter = 0, Server_capacity = False, Server_quota = NewEngine [] [],
               Server_sessionMgr = None, Server_audit = [], Server_affinityHits = 0, Server_affinityMisses = 0,
               Server_affinityRebinds = 0, Server_waitCount = 0, Server_waitSumMs = 0, Server_waitMaxMs = 0,
               Server_waitBuckets = replicate (length waitBucketBounds) 0\<rparr>;
          s = fold (\<lambda>o' s. o' s) opts s;
          s = (if Server_evictScan s \<le> 0
               then let s = s\<lparr>Server_evictScan := go_div (Server_heartbeatTimeout s) 2\<rparr>
                    in if Server_evictScan s \<le> 0 then s\<lparr>Server_evictScan := go_div DefaultHeartbeatTimeout 2\<rparr> else s
               else s);
          s = (if Server_placeScan s \<le> 0 then s\<lparr>Server_placeScan := Server_evictScan s\<rparr> else s)
      in if Server_modelWarmMax s \<le> 0 then s\<lparr>Server_modelWarmMax := defaultModelWarmMax\<rparr> else s)"

text \<open>The worker behind a connection, and an update of it.\<close>

definition conn :: "Server \<Rightarrow> nat \<Rightarrow> worker" where
  "conn s c = gomap_get (new_worker [] None 0) (Server_conns s) c"

definition on_conn :: "nat \<Rightarrow> (worker \<Rightarrow> worker) \<Rightarrow> Server \<Rightarrow> Server" where
  "on_conn c f s = s\<lparr>Server_conns := AList.update c (f (conn s c)) (Server_conns s)\<rparr>"

definition send_msg :: "nat \<Rightarrow> ServerMsg \<Rightarrow> Server \<Rightarrow> Server" where
  "send_msg c msg s = s\<lparr>Server_sent := Server_sent s @ [(c, msg)]\<rparr>"

section \<open>The registry\<close>

definition WorkerCount :: "Server \<Rightarrow> nat" where
  "WorkerCount s = length (Server_workers s)"

definition signalCapacity :: "Server \<Rightarrow> Server" where
  "signalCapacity s = s\<lparr>Server_capacity := True\<rparr>"

text \<open>The new connection's worker is put in the store and registered; the result is the session number.\<close>

definition addWorker :: "worker \<Rightarrow> Server \<Rightarrow> nat \<times> uint64 \<times> Server" where
  "addWorker w s =
     (let c = Server_nextConn s; ses = Server_nextSes s + 1
      in (c, ses, s\<lparr>Server_nextConn := c + 1, Server_nextSes := ses,
                    Server_conns := AList.update c w (Server_conns s),
                    Server_workers := AList.update (worker_id w) c (Server_workers s)\<rparr>))"

definition unregister :: "nat \<Rightarrow> Server \<Rightarrow> Server" where
  "unregister c s =
     (let i = worker_id (conn s c)
      in if map_of (Server_workers s) i = Some c then s\<lparr>Server_workers := AList.delete i (Server_workers s)\<rparr> else s)"

definition removeWorker :: "nat \<Rightarrow> Server \<Rightarrow> Server" where
  "removeWorker c s =
     on_conn c (failAllPending \<lparr>JobError_Code = ''worker_disconnected'', JobError_Message = ''worker stream closed''\<rparr>)
       (unregister c s)"

definition evictWorker :: "nat \<Rightarrow> JobError \<Rightarrow> Server \<Rightarrow> Server" where
  "evictWorker c err s = on_conn c (failAllPending err) (unregister c s)"

definition worker_stale_error :: JobError where
  "worker_stale_error = \<lparr>JobError_Code = ''worker_stale'', JobError_Message = ''worker missed heartbeats''\<rparr>"

definition evictStale :: "gotime \<Rightarrow> Server \<Rightarrow> Server" where
  "evictStale now s =
     (let stale = filter (\<lambda>c. isStale now (Server_heartbeatTimeout s) (conn s c)) (map snd (Server_workers s))
      in fold (\<lambda>c s. evictWorker c worker_stale_error s) stale s)"

definition Fleet :: "gotime \<Rightarrow> Server \<Rightarrow> Worker list" where
  "Fleet now s = map (\<lambda>c. snapshot now (Server_heartbeatTimeout s) (conn s c)) (map snd (Server_workers s))"

definition WorkerByID :: "gotime \<Rightarrow> string \<Rightarrow> Server \<Rightarrow> Worker option" where
  "WorkerByID now i s =
     (case map_of (Server_workers s) i of
        None \<Rightarrow> None
      | Some c \<Rightarrow> Some (snapshot now (Server_heartbeatTimeout s) (conn s c)))"

text \<open>
  The scheduler picks from the snapshot taken at \<open>now\<close>; the live handle is checked again at \<open>now'\<close>,
  possibly in a later state.
\<close>

definition pick_handle :: "gotime \<Rightarrow> string option \<Rightarrow> Server \<Rightarrow> nat option" where
  "pick_handle now' picked s =
     (case picked of
        None \<Rightarrow> None
      | Some i \<Rightarrow>
          (case map_of (Server_workers s) i of
             None \<Rightarrow> None
           | Some c \<Rightarrow> if \<not> available now' (Server_heartbeatTimeout s) (conn s c) then None else Some c))"

definition pickWorker :: "gotime \<Rightarrow> gotime \<Rightarrow> string \<Rightarrow> string \<Rightarrow> Server \<Rightarrow> nat option" where
  "pickWorker now now' model preferred s = pick_handle now' (PickPreferring (Fleet now s) model preferred) s"

definition modelServed :: "gotime \<Rightarrow> string \<Rightarrow> Server \<Rightarrow> bool" where
  "modelServed now model s =
     list_ex (\<lambda>wk. Worker_Status wk \<noteq> WorkerStale \<and> list_ex (\<lambda>m. Model_Name m = model) (Worker_Models wk)) (Fleet now s)"

section \<open>Draining\<close>

text \<open>The drain that a request applies at once; the result says whether a reaper was started.\<close>

definition DrainWorkerWithDeadline :: "string \<Rightarrow> duration \<Rightarrow> Server \<Rightarrow> (ServerError + nat option) \<times> Server" where
  "DrainWorkerWithDeadline i deadline s =
     (case map_of (Server_workers s) i of
        None \<Rightarrow> (Inl ErrWorkerNotFound, s)
      | Some c \<Rightarrow>
          let s = on_conn c markDraining s in (Inr (if deadline \<le> 0 then None else Some c), s))"

definition DrainWorker :: "string \<Rightarrow> Server \<Rightarrow> (ServerError + nat option) \<times> Server" where
  "DrainWorker i s = DrainWorkerWithDeadline i 0 s"

definition forceEvictWorker :: "nat \<Rightarrow> Server \<Rightarrow> Server" where
  "forceEvictWorker c s =
     (let s = evictWorker c \<lparr>JobError_Code = ''worker_evicted'', JobError_Message = ''worker drained and evicted''\<rparr> s
      in s\<lparr>Server_cancelled := c # Server_cancelled s\<rparr>)"

text \<open>One wakeup of the reaper: its context, the deadline timer or a tick. It ends unless a tick finds jobs.\<close>

datatype ReapWake = ReapGone | ReapDeadline | ReapTick

definition reapDrainedWorker :: "ReapWake \<Rightarrow> nat \<Rightarrow> Server \<Rightarrow> bool \<times> Server" where
  "reapDrainedWorker wake c s =
     (case wake of
        ReapGone \<Rightarrow> (True, s)
      | ReapDeadline \<Rightarrow> (True, forceEvictWorker c s)
      | ReapTick \<Rightarrow> if inFlight (conn s c) = 0 then (True, forceEvictWorker c s) else (False, s))"

definition reap_interval :: "duration \<Rightarrow> duration" where
  "reap_interval deadline =
     (let interval = go_div deadline 20;
          interval = (if interval < 10 * go_div second 1000 then 10 * go_div second 1000 else interval)
      in if interval > second then second else interval)"

section \<open>Waiters of queued jobs\<close>

definition addWaiter :: "string \<Rightarrow> Server \<Rightarrow> nat \<times> Server" where
  "addWaiter jobID s =
     (let ch = Server_nextWaiter s
      in (ch, s\<lparr>Server_nextWaiter := ch + 1, Server_waitMail := AList.update ch [] (Server_waitMail s),
                Server_waiters := AList.update jobID ch (Server_waiters s)\<rparr>))"

definition removeWaiter :: "string \<Rightarrow> Server \<Rightarrow> Server" where
  "removeWaiter jobID s = s\<lparr>Server_waiters := AList.delete jobID (Server_waiters s)\<rparr>"

definition send_waiter :: "nat \<Rightarrow> JobResult \<Rightarrow> Server \<Rightarrow> Server" where
  "send_waiter ch res s =
     s\<lparr>Server_waitMail := AList.update ch (gomap_get [] (Server_waitMail s) ch @ [res]) (Server_waitMail s)\<rparr>"

definition resolveWaiter :: "JobResult \<Rightarrow> Server \<Rightarrow> bool \<times> Server" where
  "resolveWaiter res s =
     (case map_of (Server_waiters s) (JobResult_JobID res) of
        None \<Rightarrow> (False, s)
      | Some ch \<Rightarrow> (True, send_waiter ch res (s\<lparr>Server_waiters := AList.delete (JobResult_JobID res) (Server_waiters s)\<rparr>)))"

definition failAllWaiters :: "JobError \<Rightarrow> Server \<Rightarrow> Server" where
  "failAllWaiters err s =
     fold (\<lambda>(j, ch) s. send_waiter ch (zero_JobResult\<lparr>JobResult_JobID := j, JobResult_Err := Some err\<rparr>) s)
       (Server_waiters s) (s\<lparr>Server_waiters := []\<rparr>)"

section \<open>Counters\<close>

record AffinityStats =
  AffinityStats_Hits :: uint64
  AffinityStats_Misses :: uint64
  AffinityStats_Rebinds :: uint64

definition Server_AffinityStats :: "Server \<Rightarrow> AffinityStats" where
  "Server_AffinityStats s =
     \<lparr>AffinityStats_Hits = Server_affinityHits s, AffinityStats_Misses = Server_affinityMisses s,
      AffinityStats_Rebinds = Server_affinityRebinds s\<rparr>"

record WaitBucket =
  WaitBucket_LeMs :: uint64
  WaitBucket_Count :: uint64

record WaitTimeStats =
  WaitTimeStats_Count :: uint64
  WaitTimeStats_SumMs :: uint64
  WaitTimeStats_MaxMs :: uint64
  WaitTimeStats_Buckets :: "WaitBucket list"

definition recordWait :: "duration \<Rightarrow> Server \<Rightarrow> Server" where
  "recordWait d s =
     (let ms = go_div d 1000000; ms = (if ms < 0 then 0 else ms); waitMs = word_of_int ms
      in s\<lparr>Server_waitCount := Server_waitCount s + 1, Server_waitSumMs := Server_waitSumMs s + waitMs,
           Server_waitMaxMs := (if waitMs > Server_waitMaxMs s then waitMs else Server_waitMaxMs s),
           Server_waitBuckets :=
             map2 (\<lambda>bound n. if waitMs \<le> bound then n + 1 else n) waitBucketBounds (Server_waitBuckets s)\<rparr>)"

definition Server_WaitTimeStats :: "Server \<Rightarrow> WaitTimeStats" where
  "Server_WaitTimeStats s =
     \<lparr>WaitTimeStats_Count = Server_waitCount s, WaitTimeStats_SumMs = Server_waitSumMs s,
      WaitTimeStats_MaxMs = Server_waitMaxMs s,
      WaitTimeStats_Buckets =
        map2 (\<lambda>bound n. \<lparr>WaitBucket_LeMs = bound, WaitBucket_Count = n\<rparr>) waitBucketBounds (Server_waitBuckets s) @
        [\<lparr>WaitBucket_LeMs = 0, WaitBucket_Count = Server_waitCount s\<rparr>]\<rparr>"

definition SetHeartbeatTimeout :: "duration \<Rightarrow> Server \<Rightarrow> Server" where
  "SetHeartbeatTimeout d s = (if d \<le> 0 then s else s\<lparr>Server_heartbeatTimeout := d\<rparr>)"

definition SetModelWarmMax :: "duration \<Rightarrow> Server \<Rightarrow> Server" where
  "SetModelWarmMax d s = (if d \<le> 0 then s else s\<lparr>Server_modelWarmMax := d\<rparr>)"

section \<open>A worker's stream\<close>

text \<open>What a worker sends; \<open>WPUnknown\<close> is a payload the switch does not know.\<close>

datatype WorkerPayload =
    WPRegister string "pb_Model option slice"
  | WPHeartbeat "pb_Heartbeat option"
  | WPResult "pb_JobResult option"
  | WPChunk "pb_JobChunk option"
  | WPDeregister
  | WPUnknown

text \<open>The handshake of \<^verbatim>\<open>Connect\<close>: the first message must be a registration with an id.\<close>

definition Connect_register ::
  "gotime \<Rightarrow> WorkerPayload \<Rightarrow> Server \<Rightarrow> (ServerError + nat) \<times> Server" where
  "Connect_register now first s =
     (case first of
        WPRegister i ms \<Rightarrow>
          if i = [] then (Inl ErrInvalidArgument, s)
          else let (c, ses, s) = addWorker (new_worker i (ModelsFromProto ms) now) s;
                   s = send_msg c (MsgRegisterAck (i @ ''-'' @ decimal (unat ses))) s
               in (Inr c, signalCapacity s)
      | _ \<Rightarrow> (Inl ErrInvalidArgument, s))"

text \<open>One message of the reader loop; \<open>Some\<close> is the error \<^verbatim>\<open>Connect\<close> returns with.\<close>

definition Connect_message :: "gotime \<Rightarrow> nat \<Rightarrow> WorkerPayload \<Rightarrow> Server \<Rightarrow> ServerError option \<times> Server" where
  "Connect_message now c msg s =
     (case msg of
        WPHeartbeat hb \<Rightarrow> (None, signalCapacity (on_conn c (applyHeartbeat (HeartbeatFromProto hb) now) s))
      | WPResult r \<Rightarrow> (None, signalCapacity (on_conn c (resolve (JobResultFromProto r)) s))
      | WPChunk k \<Rightarrow>
          let chunk = JobChunkFromProto k; s = on_conn c (accumulate chunk) s
          in (None, if JobChunk_Done chunk then signalCapacity s else s)
      | WPDeregister \<Rightarrow> (None, on_conn c markDraining s)
      | WPRegister i ms \<Rightarrow> (Some ErrFailedPrecondition, s)
      | WPUnknown \<Rightarrow> (None, s))"

section \<open>The registry: lemmas\<close>

named_theorems server_simps \<open>fields of the server after an operation\<close>

lemma on_conn_simps [server_simps]:
  "conn (on_conn c f s) d = (if d = c then f (conn s c) else conn s d)"
  "Server_workers (on_conn c f s) = Server_workers s"
  "Server_nextConn (on_conn c f s) = Server_nextConn s"
  "Server_heartbeatTimeout (on_conn c f s) = Server_heartbeatTimeout s"
  by (simp_all add: on_conn_def conn_def gomap_simps)

lemma unregister_simps [server_simps]:
  "conn (unregister c s) d = conn s d"
  "Server_nextConn (unregister c s) = Server_nextConn s"
  "Server_heartbeatTimeout (unregister c s) = Server_heartbeatTimeout s"
  by (simp_all add: unregister_def conn_def Let_def)

lemma evictWorker_simps [server_simps]:
  "conn (evictWorker c err s) d = (if d = c then failAllPending err (conn s c) else conn s d)"
  "Server_workers (evictWorker c err s) = Server_workers (unregister c s)"
  "Server_nextConn (evictWorker c err s) = Server_nextConn s"
  "Server_heartbeatTimeout (evictWorker c err s) = Server_heartbeatTimeout s"
  by (simp_all add: evictWorker_def server_simps)

text \<open>No worker operation changes the id, the heartbeat or the models by itself, but for a heartbeat.\<close>

lemma send_result_ident [simp]: "worker_id (send_result ch res w) = worker_id w"
  by (simp add: send_result_def)

lemma forwardChunk_ident [simp]: "worker_id (forwardChunk obs c w) = worker_id w"
  by (simp add: forwardChunk_def Let_def split: option.split prod.split)

lemma resolve_ident [simp]: "worker_id (resolve res w) = worker_id w"
  by (simp add: resolve_def split: option.split)

lemma close_chan_ident [simp]: "worker_id (close_chan ch w) = worker_id w"
  by (simp add: close_chan_def)

lemma accumulate_ident [simp]: "worker_id (accumulate c w) = worker_id w"
  by (simp add: accumulate_def accumulate_delta_def Let_def split: option.split)

lemma fail_pending_ident [simp]: "worker_id (fail_pending err es w) = worker_id w"
  by (induction es arbitrary: w) simp_all

lemma fail_observers_ident [simp]: "worker_id (fail_observers err es w) = worker_id w"
  by (induction es arbitrary: w) simp_all

lemma failAllPending_ident [simp]: "worker_id (failAllPending err w) = worker_id w"
  by (simp add: failAllPending_def)

lemma applyHeartbeat_ident [simp]: "worker_id (applyHeartbeat hb now w) = worker_id w"
  by (simp add: applyHeartbeat_def Let_def)

lemma markDraining_ident [simp]: "worker_id (markDraining w) = worker_id w"
  by (simp add: markDraining_def)

text \<open>The registry is a map from ids to connections that carry those ids and were handed out before.\<close>

definition registry_inv :: "Server \<Rightarrow> bool" where
  "registry_inv s \<longleftrightarrow> gomap_wf (Server_workers s) \<and>
     (\<forall>i c. map_of (Server_workers s) i = Some c \<longrightarrow> worker_id (conn s c) = i \<and> c < Server_nextConn s)"

lemma registry_wf: "registry_inv s \<Longrightarrow> gomap_wf (Server_workers s)"
  unfolding registry_inv_def by blast

lemma registry_lookup:
  "registry_inv s \<Longrightarrow> map_of (Server_workers s) i = Some c \<Longrightarrow> worker_id (conn s c) = i \<and> c < Server_nextConn s"
  unfolding registry_inv_def by blast

lemma registry_invI:
  assumes "gomap_wf (Server_workers s)"
    and "\<And>i c. map_of (Server_workers s) i = Some c \<Longrightarrow> worker_id (conn s c) = i \<and> c < Server_nextConn s"
  shows "registry_inv s"
  using assms unfolding registry_inv_def by blast

lemma registry_inv_on_conn:
  "registry_inv s \<Longrightarrow> (\<And>w. worker_id (f w) = worker_id w) \<Longrightarrow> registry_inv (on_conn c f s)"
  by (simp add: registry_inv_def server_simps)

lemma unregister_workers:
  assumes "registry_inv s"
  shows "map_of (Server_workers (unregister c s)) i =
    (if map_of (Server_workers s) i = Some c then None else map_of (Server_workers s) i)"
proof (cases "map_of (Server_workers s) i = Some c")
  case True
  then have "worker_id (conn s c) = i" using registry_lookup [OF assms] by blast
  then show ?thesis using True by (simp add: unregister_def Let_def delete_conv')
next
  case False
  then show ?thesis by (auto simp: unregister_def Let_def delete_conv')
qed

lemma registry_inv_unregister:
  assumes "registry_inv s"
  shows "registry_inv (unregister c s)"
proof (rule registry_invI)
  show "gomap_wf (Server_workers (unregister c s))"
    using registry_wf [OF assms] by (simp add: unregister_def Let_def)
  fix i d assume "map_of (Server_workers (unregister c s)) i = Some d"
  then have "map_of (Server_workers s) i = Some d" unfolding unregister_workers [OF assms] by (simp split: if_splits)
  from registry_lookup [OF assms this]
  show "worker_id (conn (unregister c s) d) = i \<and> d < Server_nextConn (unregister c s)"
    unfolding server_simps .
qed

lemma registry_inv_addWorker:
  assumes "registry_inv s" and "addWorker w s = (c, ses, s')"
  shows "registry_inv s'"
proof (rule registry_invI)
  have s': "Server_workers s' = AList.update (worker_id w) (Server_nextConn s) (Server_workers s)"
    "Server_nextConn s' = Server_nextConn s + 1"
    using assms(2) by (auto simp: addWorker_def Let_def)
  have conn: "conn s' d = (if d = Server_nextConn s then w else conn s d)" for d
    using assms(2) by (auto simp: addWorker_def Let_def conn_def gomap_simps)
  show "gomap_wf (Server_workers s')" unfolding s' using registry_wf [OF assms(1)] by simp
  fix i d assume "map_of (Server_workers s') i = Some d"
  then have "i = worker_id w \<and> d = Server_nextConn s \<or> map_of (Server_workers s) i = Some d"
    unfolding s' by (auto simp: update_conv' split: if_splits)
  then show "worker_id (conn s' d) = i \<and> d < Server_nextConn s'"
  proof
    assume "map_of (Server_workers s) i = Some d"
    from registry_lookup [OF assms(1) this] show ?thesis unfolding s' conn by simp
  qed (simp add: s' conn)
qed

lemma registry_inv_evictWorker: "registry_inv s \<Longrightarrow> registry_inv (evictWorker c err s)"
  unfolding evictWorker_def by (rule registry_inv_on_conn [OF registry_inv_unregister]) simp_all

lemma registry_mem: "registry_inv s \<Longrightarrow> (i, c) \<in> set (Server_workers s) \<longleftrightarrow> map_of (Server_workers s) i = Some c"
  by (rule gomap_mem_iff [OF registry_wf])

lemma registry_conns:
  assumes "registry_inv s"
  shows "c \<in> set (map snd (Server_workers s)) \<longleftrightarrow> (\<exists>i. map_of (Server_workers s) i = Some c)"
proof -
  have "c \<in> set (map snd (Server_workers s)) \<longleftrightarrow> (\<exists>i. (i, c) \<in> set (Server_workers s))" by force
  then show ?thesis unfolding registry_mem [OF assms] .
qed

lemma registry_distinct:
  assumes "registry_inv s"
  shows "distinct (map snd (Server_workers s))" and "distinct (map Worker_ID (Fleet now s))"
proof -
  have "handles_ok (Server_workers s) (Server_nextConn s) (\<lambda>_. True)"
    unfolding handles_ok_def using registry_wf [OF assms] registry_lookup [OF assms] by blast
  then show "distinct (map snd (Server_workers s))" by (rule handles_ok_distinct)
  have "map Worker_ID (Fleet now s) = map fst (Server_workers s)"
    unfolding Fleet_def map_map
  proof (rule map_cong [OF refl])
    fix e assume "e \<in> set (Server_workers s)"
    then have "map_of (Server_workers s) (fst e) = Some (snd e)" using registry_mem [OF assms, of "fst e" "snd e"] by simp
    from registry_lookup [OF assms this]
    show "(Worker_ID \<circ> ((\<lambda>c. snapshot now (Server_heartbeatTimeout s) (conn s c)) \<circ> snd)) e = fst e"
      by (simp add: snapshot_def Let_def)
  qed
  then show "distinct (map Worker_ID (Fleet now s))" using registry_wf [OF assms] by (simp add: gomap_wf_def)
qed

section \<open>What the registry promises\<close>

text \<open>
  The steps that other goroutines may take on the registry, in any order: a handshake, a message on
  some connection, the end of a stream, the eviction scan, a drain request and a wakeup of a reaper.
\<close>

inductive registry_step :: "Server \<Rightarrow> Server \<Rightarrow> bool" where
  handshake: "registry_step s (snd (Connect_register now p s))"
| message: "registry_step s (snd (Connect_message now c p s))"
| stream_end: "registry_step s (removeWorker c s)"
| evict_scan: "registry_step s (evictStale now s)"
| drain: "registry_step s (snd (DrainWorkerWithDeadline i d s))"
| reap: "registry_step s (snd (reapDrainedWorker wake c s))"

lemma send_signal_simps [server_simps]:
  "conn (send_msg c m s) d = conn s d" "Server_workers (send_msg c m s) = Server_workers s"
  "Server_nextConn (send_msg c m s) = Server_nextConn s"
  "conn (signalCapacity s) d = conn s d" "Server_workers (signalCapacity s) = Server_workers s"
  "Server_nextConn (signalCapacity s) = Server_nextConn s"
  by (simp_all add: send_msg_def signalCapacity_def conn_def)

lemma registry_inv_cong:
  "Server_workers s' = Server_workers s \<Longrightarrow> Server_nextConn s' = Server_nextConn s \<Longrightarrow> Server_conns s' = Server_conns s
   \<Longrightarrow> registry_inv s' = registry_inv s"
  by (simp add: registry_inv_def conn_def)

lemma registry_inv_irrelevant [simp]:
  "registry_inv (send_msg c m s) = registry_inv s" "registry_inv (signalCapacity s) = registry_inv s"
  "registry_inv (s\<lparr>Server_cancelled := xs\<rparr>) = registry_inv s"
  by (rule registry_inv_cong; simp add: send_msg_def signalCapacity_def)+

lemma registry_inv_removeWorker: "registry_inv s \<Longrightarrow> registry_inv (removeWorker c s)"
  unfolding removeWorker_def by (rule registry_inv_on_conn [OF registry_inv_unregister]) simp_all

lemma registry_inv_evictAll: "registry_inv s \<Longrightarrow> registry_inv (fold (\<lambda>c s. evictWorker c err s) cs s)"
  by (induction cs arbitrary: s) (simp_all add: registry_inv_evictWorker)

lemma registry_inv_Connect_register: "registry_inv s \<Longrightarrow> registry_inv (snd (Connect_register now p s))"
  by (auto simp: Connect_register_def Let_def split: WorkerPayload.split prod.split dest: registry_inv_addWorker)

lemma registry_inv_Connect_message: "registry_inv s \<Longrightarrow> registry_inv (snd (Connect_message now c p s))"
  by (cases p) (simp_all add: Connect_message_def Let_def registry_inv_on_conn)

lemma registry_inv_reap: "registry_inv s \<Longrightarrow> registry_inv (snd (reapDrainedWorker wake c s))"
  by (cases wake) (simp_all add: reapDrainedWorker_def forceEvictWorker_def Let_def registry_inv_evictWorker)

lemma registry_inv_drain: "registry_inv s \<Longrightarrow> registry_inv (snd (DrainWorkerWithDeadline i d s))"
  by (simp add: DrainWorkerWithDeadline_def Let_def registry_inv_on_conn split: option.split)

lemma registry_step_inv: "registry_step s s' \<Longrightarrow> registry_inv s \<Longrightarrow> registry_inv s'"
proof (induction rule: registry_step.induct)
  case (evict_scan s now)
  then show ?case unfolding evictStale_def Let_def by (rule registry_inv_evictAll)
qed (fact registry_inv_Connect_register registry_inv_Connect_message registry_inv_removeWorker
      registry_inv_drain registry_inv_reap)+

lemma registry_steps_inv: "registry_step\<^sup>*\<^sup>* s s' \<Longrightarrow> registry_inv s \<Longrightarrow> registry_inv s'"
  by (induction rule: rtranclp_induct) (simp_all add: registry_step_inv)

lemma registry_inv_empty: "Server_workers s = [] \<Longrightarrow> registry_inv s"
  by (simp add: registry_inv_def)

text \<open>A connection can run a model when it is available and serves it, or has free memory for it.\<close>

definition can_run :: "gotime \<Rightarrow> string \<Rightarrow> Server \<Rightarrow> nat \<Rightarrow> bool" where
  "can_run now model s c \<longleftrightarrow> available now (Server_heartbeatTimeout s) (conn s c) \<and>
     (hasModel (snapshot now (Server_heartbeatTimeout s) (conn s c)) model \<or> worker_freeVRAM (conn s c) > 0)"

lemma runnable_snapshot:
  "runnable (snapshot now (Server_heartbeatTimeout s) (conn s c)) model = can_run now model s c"
  by (simp add: runnable_def can_run_def snapshot_def available_def Let_def hasModel_def)

lemma can_run_available: "can_run now model s c \<Longrightarrow> available now (Server_heartbeatTimeout s) (conn s c)"
  by (simp add: can_run_def)

lemma Fleet_ball: "(\<forall>w\<in>set (Fleet now s). P w) \<longleftrightarrow>
    (\<forall>c\<in>set (map snd (Server_workers s)). P (snapshot now (Server_heartbeatTimeout s) (conn s c)))"
  by (simp add: Fleet_def)

lemma pickWorker_picked:
  assumes inv: "registry_inv s" and p: "PickPreferring (Fleet now s) model pref = Some i"
  obtains c where "map_of (Server_workers s) i = Some c" "can_run now model s c"
proof -
  obtain w where w: "w \<in> set (Fleet now s)" "Worker_ID w = i" "runnable w model"
    using PickPreferring_some [OF registry_distinct(2) [OF inv] p] by metis
  then obtain c where c: "c \<in> set (map snd (Server_workers s))"
    and ws: "w = snapshot now (Server_heartbeatTimeout s) (conn s c)" by (auto simp: Fleet_def)
  obtain j where j: "map_of (Server_workers s) j = Some c" using c registry_conns [OF inv] by blast
  have "worker_id (conn s c) = j" using registry_lookup [OF inv j] by simp
  then have "j = i" using w(2) ws by (simp add: snapshot_def Let_def)
  with that j w(3) show ?thesis unfolding ws runnable_snapshot by blast
qed


text \<open>A small fleet for the examples: two workers, of which the first goes silent.\<close>

definition wit_server :: Server where
  "wit_server =
     (let s = snd (Connect_register 1 (WPRegister ''w1'' (Some [Some \<lparr>pb_Model_Name = ''m'', pb_Model_Digest = []\<rparr>])) (NewServer []));
          s = snd (Connect_register 1 (WPRegister ''w2'' (Some [Some \<lparr>pb_Model_Name = ''m'', pb_Model_Digest = []\<rparr>])) s)
      in snd (Connect_message (60 * second) 1 (WPHeartbeat None) s))"


lemma wit_server_reached: "registry_step\<^sup>*\<^sup>* (NewServer []) wit_server"
  unfolding wit_server_def Let_def
  by (meson registry_step.handshake registry_step.message rtranclp.rtrancl_into_rtrancl rtranclp.rtrancl_refl)

lemma NewServer_workers: "Server_workers (NewServer []) = []"
  by (simp add: NewServer_def Let_def)


text \<open>What a fold of evictions does to the registry and to the connections.\<close>

lemma evictAll_workers:
  assumes "registry_inv s"
  shows "map_of (Server_workers (fold (\<lambda>c s. evictWorker c err s) cs s)) i =
    (case map_of (Server_workers s) i of None \<Rightarrow> None | Some c \<Rightarrow> if c \<in> set cs then None else Some c)"
  using assms
proof (induction cs arbitrary: s)
  case Nil
  show ?case by (simp split: option.split)
next
  case (Cons c cs)
  show ?case
    using Cons.IH [OF registry_inv_evictWorker [OF Cons.prems], of c err]
    by (simp add: evictWorker_simps unregister_workers [OF Cons.prems] split: option.split)
qed

lemma evictAll_conn:
  "distinct cs \<Longrightarrow> conn (fold (\<lambda>c s. evictWorker c err s) cs s) d =
     (if d \<in> set cs then failAllPending err (conn s d) else conn s d)"
  by (induction cs arbitrary: s) (auto simp: evictWorker_simps)



definition disconnect_error :: JobError where
  "disconnect_error = \<lparr>JobError_Code = ''worker_disconnected'', JobError_Message = ''worker stream closed''\<rparr>"

lemma removeWorker_simps [server_simps]:
  "conn (removeWorker c s) d = (if d = c then failAllPending disconnect_error (conn s c) else conn s d)"
  "Server_workers (removeWorker c s) = Server_workers (unregister c s)"
  by (simp_all add: removeWorker_def server_simps disconnect_error_def)

text \<open>
  C29. A worker that reconnects keeps its registration: when a worker registers again under an id that an
  older connection still holds and the older stream ends afterwards, the id belongs to the new
  connection, with the models of the new registration, nobody else is affected, and the jobs of the
  old connection fail with the disconnect error. Without the reconnect the id is gone.
\<close>

theorem reconnect_survives_old_stream:
  assumes "registry_step\<^sup>*\<^sup>* s0 s" and "Server_workers s0 = []"
    and "map_of (Server_workers s) i = Some c" and "i \<noteq> []"
  shows "(let s1 = snd (Connect_register now (WPRegister i ms) s); s2 = removeWorker c s1
    in (\<exists>c'. c' \<noteq> c \<and> map_of (Server_workers s2) i = Some c' \<and> conn s2 c' = new_worker i (ModelsFromProto ms) now) \<and>
       conn s2 c = failAllPending disconnect_error (conn s c) \<and>
       (\<forall>j. j \<noteq> i \<longrightarrow> map_of (Server_workers s2) j = map_of (Server_workers s) j) \<and>
       map_of (Server_workers (removeWorker c s)) i = None)"
proof -
  have inv: "registry_inv s" using registry_steps_inv [OF assms(1) registry_inv_empty [OF assms(2)]] .
  note c = registry_lookup [OF inv assms(3)]
  define s1 where "s1 = snd (Connect_register now (WPRegister i ms) s)"
  have s1: "map_of (Server_workers s1) j = (if j = i then Some (Server_nextConn s) else map_of (Server_workers s) j)"
    "conn s1 d = (if d = Server_nextConn s then new_worker i (ModelsFromProto ms) now else conn s d)" for j d
    using assms(4) by (simp_all add: s1_def Connect_register_def addWorker_def Let_def server_simps)
      (simp_all add: conn_def new_worker_def gomap_simps)
  have inv1: "registry_inv s1" unfolding s1_def by (rule registry_inv_Connect_register [OF inv])
  have other: "map_of (Server_workers s) j \<noteq> Some c" if "j \<noteq> i" for j
    using registry_lookup [OF inv, of j c] c that by blast
  have "map_of (Server_workers (removeWorker c s1)) j =
      (if j = i then Some (Server_nextConn s) else map_of (Server_workers s) j)" for j
    unfolding removeWorker_simps unregister_workers [OF inv1] s1 using c other by simp
  then show ?thesis
    using c unfolding Let_def s1_def [symmetric] removeWorker_simps(1) s1(2)
    by (simp add: removeWorker_simps unregister_workers [OF inv] assms(3))
qed

theorem reconnect_survives_old_stream_witness:
  "let s1 = snd (Connect_register 7 (WPRegister ''w1'' None) wit_server)
   in map_of (Server_workers wit_server) ''w1'' = Some 0 \<and>
      (\<exists>c'. c' \<noteq> 0 \<and> map_of (Server_workers (removeWorker 0 s1)) ''w1'' = Some c')"
proof -
  have "map_of (Server_workers wit_server) ''w1'' = Some 0" by code_simp
  then show ?thesis
    using reconnect_survives_old_stream [OF wit_server_reached NewServer_workers, of "''w1''" 0 7 None]
    by (auto simp: Let_def)
qed

text \<open>A wait in whole milliseconds, a negative one counted as none.\<close>

definition wait_ms :: "duration \<Rightarrow> int" where
  "wait_ms d = max 0 (go_div d 1000000)"

lemma wait_ms_range: "d < 2 ^ 63 \<Longrightarrow> 0 \<le> wait_ms d \<and> uint (word_of_int (wait_ms d) :: uint64) = wait_ms d"
  by (auto simp: wait_ms_def go_div_def max_def sgn_if uint_word_of_int_eq take_bit_int_eq_self_iff)

lemma recordWait_waits:
  "Server_waitCount (recordWait d s) = Server_waitCount s + 1"
  "Server_waitSumMs (recordWait d s) = Server_waitSumMs s + word_of_int (wait_ms d)"
  "Server_waitMaxMs (recordWait d s) = max (Server_waitMaxMs s) (word_of_int (wait_ms d))"
  "Server_waitBuckets (recordWait d s) =
     map2 (\<lambda>bound n. if word_of_int (wait_ms d) \<le> bound then n + 1 else n) waitBucketBounds (Server_waitBuckets s)"
  by (simp_all add: recordWait_def wait_ms_def Let_def max_def not_less) (auto simp: not_le)

lemma waits_recorded:
  assumes "\<forall>d\<in>set ds. d < 2 ^ 63"
  shows "Server_waitCount (fold recordWait ds (NewServer [])) = of_nat (length ds) \<and>
    Server_waitSumMs (fold recordWait ds (NewServer [])) = word_of_int (sum_list (map wait_ms ds)) \<and>
    uint (Server_waitMaxMs (fold recordWait ds (NewServer []))) = Max (insert 0 (wait_ms ` set ds)) \<and>
    Server_waitBuckets (fold recordWait ds (NewServer [])) =
      map (\<lambda>b. of_nat (length (filter (\<lambda>d. wait_ms d \<le> uint b) ds))) waitBucketBounds"
  using assms
proof (induction ds rule: rev_induct)
  case Nil
  show ?case by (simp add: NewServer_def Let_def waitBucketBounds_def)
next
  case (snoc d ds)
  then have IH: "Server_waitCount (fold recordWait ds (NewServer [])) = of_nat (length ds)"
    "Server_waitSumMs (fold recordWait ds (NewServer [])) = word_of_int (sum_list (map wait_ms ds))"
    "uint (Server_waitMaxMs (fold recordWait ds (NewServer []))) = Max (insert 0 (wait_ms ` set ds))"
    "Server_waitBuckets (fold recordWait ds (NewServer [])) =
      map (\<lambda>b. of_nat (length (filter (\<lambda>d. wait_ms d \<le> uint b) ds))) waitBucketBounds" by simp_all
  have d: "0 \<le> wait_ms d" "uint (word_of_int (wait_ms d) :: uint64) = wait_ms d"
    using wait_ms_range [of d] snoc.prems by simp_all
  have "uint (max (Server_waitMaxMs (fold recordWait ds (NewServer []))) (word_of_int (wait_ms d))) =
      Max (insert 0 (wait_ms ` set (ds @ [d])))"
  proof -
    have "insert 0 (wait_ms ` set (ds @ [d])) = insert (wait_ms d) (insert 0 (wait_ms ` set ds))" by auto
    then have "Max (insert 0 (wait_ms ` set (ds @ [d]))) = max (Max (insert 0 (wait_ms ` set ds))) (wait_ms d)"
      by (simp only: Max_insert [of "insert 0 (wait_ms ` set ds)"] finite_insert finite_imageI finite_set
          insert_not_empty simp_thms max.commute)
    then show ?thesis unfolding IH(3) [symmetric] using d(2) by (simp add: max_def word_le_def)
  qed
  then show ?case
    using d(2) by (simp add: recordWait_waits IH(1,2,4) word_le_def waitBucketBounds_def)
qed

text \<open>
  The wait-time histogram is cumulative and counts every sample: after the waits \<open>ds\<close> were recorded
  on a fresh server, each bucket holds the number of waits of at most its bound in milliseconds, the
  unbounded bucket and the count hold the number of all waits, and the maximum is the longest wait.
  Counters wrap at 64 bits.
\<close>

theorem wait_histogram_cumulative:
  assumes "\<forall>d\<in>set ds. d < 2 ^ 63"
  shows "(let st = Server_WaitTimeStats (fold recordWait ds (NewServer []))
    in WaitTimeStats_Count st = of_nat (length ds) \<and>
       WaitTimeStats_SumMs st = word_of_int (sum_list (map wait_ms ds)) \<and>
       uint (WaitTimeStats_MaxMs st) = Max (insert 0 (wait_ms ` set ds)) \<and>
       WaitTimeStats_Buckets st =
         map (\<lambda>b. \<lparr>WaitBucket_LeMs = b, WaitBucket_Count = of_nat (length (filter (\<lambda>d. wait_ms d \<le> uint b) ds))\<rparr>)
           waitBucketBounds @ [\<lparr>WaitBucket_LeMs = 0, WaitBucket_Count = of_nat (length ds)\<rparr>])"
  by (simp add: Let_def Server_WaitTimeStats_def waits_recorded [OF assms] waitBucketBounds_def)

theorem wait_histogram_cumulative_witness:
  "map WaitBucket_Count (WaitTimeStats_Buckets (Server_WaitTimeStats
     (fold recordWait [-5, 10 * second, 11000000] (NewServer [])))) = [1, 2, 2, 3, 3]"
proof -
  have "\<forall>d\<in>set [-5, 10 * second, 11000000]. d < 2 ^ 63" by (simp add: second_def)
  from wait_histogram_cumulative [OF this]
  show ?thesis by (simp add: Let_def waitBucketBounds_def wait_ms_def go_div_def second_def)
qed

end
