(* ===== verification/Dispatch.thy ===== *)
theory Dispatch
  imports Registry
begin

text \<open>
  The request path of \<^verbatim>\<open>internal/server/server.go\<close>: session affinity and model warmth, dispatch of a
  job to a worker, the submission of a job with its fast path and its queue, the placement loop, the
  authorized and the streaming submission, model pulls and unloads, and shutdown.

  A call that blocks is split where it blocks: \<open>_start\<close> runs up to the wait, \<open>_finish\<close> from the wakeup
  on, and other goroutines may change the server in between. Which branch a \<^verbatim>\<open>select\<close> takes is an
  argument. A part between two waits reads the clock once.
\<close>

section \<open>Sessions: affinity and warmth\<close>

definition session_of :: "gotime \<Rightarrow> Job \<Rightarrow> string \<Rightarrow> Server \<Rightarrow> Session option" where
  "session_of now job keyID s =
     (case Server_sessionMgr s of
        None \<Rightarrow> None
      | Some m \<Rightarrow>
          if Job_SessionID job = [] \<or> keyID = [] then None
          else (case Manager_Get (Job_SessionID job) keyID now m of Inl err \<Rightarrow> None | Inr ses \<Rightarrow> Some ses))"

definition affinityFor :: "gotime \<Rightarrow> Job \<Rightarrow> string \<Rightarrow> Server \<Rightarrow> string" where
  "affinityFor now job keyID s = (case session_of now job keyID s of None \<Rightarrow> [] | Some ses \<Rightarrow> Session_BoundWorkerID ses)"

definition warmWindowSeconds :: "duration \<Rightarrow> duration \<Rightarrow> int" where
  "warmWindowSeconds ttl max' =
     (let window = (if ttl \<le> 0 \<or> max' > 0 \<and> ttl > max' then max' else ttl);
          secs = go_div window second
      in if secs < 1 then 1 else secs)"

definition sessionDispatchHints :: "gotime \<Rightarrow> Job \<Rightarrow> string \<Rightarrow> Server \<Rightarrow> string \<times> int" where
  "sessionDispatchHints now job keyID s =
     (case session_of now job keyID s of
        None \<Rightarrow> ([], 0)
      | Some ses \<Rightarrow> (Session_BoundWorkerID ses, warmWindowSeconds (Session_TTL ses) (Server_modelWarmMax s)))"

definition bind_session :: "gotime \<Rightarrow> Job \<Rightarrow> string \<Rightarrow> string \<Rightarrow> Server \<Rightarrow> Server" where
  "bind_session now job keyID chosen s =
     (case Server_sessionMgr s of
        None \<Rightarrow> s
      | Some m \<Rightarrow> s\<lparr>Server_sessionMgr := Some (snd (Bind (Job_SessionID job) keyID chosen now m))\<rparr>)"

definition recordAffinity :: "gotime \<Rightarrow> Job \<Rightarrow> string \<Rightarrow> string \<Rightarrow> string \<Rightarrow> Server \<Rightarrow> Server" where
  "recordAffinity now job keyID chosen preferred s =
     (if Server_sessionMgr s = None \<or> Job_SessionID job = [] \<or> keyID = [] then s
      else if preferred = [] then bind_session now job keyID chosen s
      else if chosen = preferred then s\<lparr>Server_affinityHits := Server_affinityHits s + 1\<rparr>
      else bind_session now job keyID chosen
             (s\<lparr>Server_affinityMisses := Server_affinityMisses s + 1, Server_affinityRebinds := Server_affinityRebinds s + 1\<rparr>))"

section \<open>Dispatch to a worker\<close>

text \<open>Up to the hand-over on the send channel; \<open>sent\<close> says that the \<^verbatim>\<open>select\<close> took the send.\<close>

definition dispatchTo_start :: "bool \<Rightarrow> nat \<Rightarrow> Job \<Rightarrow> Server \<Rightarrow> nat option \<times> Server" where
  "dispatchTo_start sent c job s =
     (let (resCh, w) = addPending (Job_ID job) (conn s c); s = on_conn c (\<lambda>_. w) s
      in if sent then (Some resCh, send_msg c (MsgJob (Job_Proto job)) s)
         else (None, on_conn c (dropPending (Job_ID job)) s))"

text \<open>
  The wait for the result: the context ends, or a result arrives. \<open>None\<close> means that there is no result
  yet and the call goes on waiting.
\<close>

datatype Wake = CtxDone | Received

definition dispatchTo_finish ::
  "Wake \<Rightarrow> nat \<Rightarrow> nat \<Rightarrow> Job \<Rightarrow> Server \<Rightarrow> (JobResult \<times> ServerError option) option \<times> Server" where
  "dispatchTo_finish wake c resCh job s =
     (case wake of
        CtxDone \<Rightarrow> (Some (zero_JobResult, Some ErrContext), on_conn c (dropPending (Job_ID job)) s)
      | Received \<Rightarrow>
          (case gomap_get [] (worker_mail (conn s c)) resCh of
             [] \<Rightarrow> (None, s)
           | res # _ \<Rightarrow> (Some (res, map_option ErrJob (JobResult_Err res)), s)))"

section \<open>Submission\<close>

datatype SubmitState =
    SubmitDone JobResult "ServerError option"
  | SubmitDispatched nat nat Job string
  | SubmitQueued nat Job

text \<open>
  The shared core \<^verbatim>\<open>submit\<close> up to its first wait. A dispatch whose context ended before the hand-over is
  done at once.
\<close>

definition submit_start ::
  "gotime \<Rightarrow> bool \<Rightarrow> Job \<Rightarrow> string \<Rightarrow> int \<Rightarrow> Server \<Rightarrow> SubmitState \<times> Server" where
  "submit_start now sent job keyID prio s =
     (case Job_Validate job of
        Some err \<Rightarrow> (SubmitDone zero_JobResult (Some (ErrInvalid err)), s)
      | None \<Rightarrow>
          let (preferred, keepAlive) = sessionDispatchHints now job keyID s;
              job = job\<lparr>Job_KeepAliveSeconds := keepAlive\<rparr>
          in if \<not> modelServed now (Job_Model job) s then (SubmitDone zero_JobResult (Some ErrModelUnavailable), s)
             else (case pickWorker now now (Job_Model job) preferred s of
                    Some c \<Rightarrow>
                      (case dispatchTo_start sent c job s of
                         (None, s) \<Rightarrow> (SubmitDone zero_JobResult (Some ErrContext), s)
                       | (Some resCh, s) \<Rightarrow> (SubmitDispatched c resCh job preferred, s))
                  | None \<Rightarrow>
                      let (resCh, s) = addWaiter (Job_ID job) s
                      in (case Enqueue now job keyID prio (Server_queue s) of
                           (Some err, q) \<Rightarrow>
                             let s = removeWaiter (Job_ID job) (s\<lparr>Server_queue := q\<rparr>)
                             in (SubmitDone zero_JobResult (Some (if err = ErrClosed then ErrShuttingDown else ErrQueue err)), s)
                         | (None, q) \<Rightarrow> (SubmitQueued resCh job, signalCapacity (s\<lparr>Server_queue := q\<rparr>)))))"

definition submit_finish ::
  "gotime \<Rightarrow> Wake \<Rightarrow> string \<Rightarrow> SubmitState \<Rightarrow> Server \<Rightarrow> (JobResult \<times> ServerError option) option \<times> Server" where
  "submit_finish now wake keyID st s =
     (case st of
        SubmitDone res err \<Rightarrow> (Some (res, err), s)
      | SubmitDispatched c resCh job preferred \<Rightarrow>
          (case dispatchTo_finish wake c resCh job s of
             (None, s) \<Rightarrow> (None, s)
           | (Some (res, err), s) \<Rightarrow>
               (Some (res, err), if err = None then recordAffinity now job keyID (worker_id (conn s c)) preferred s else s))
      | SubmitQueued resCh job \<Rightarrow>
          (case wake of
             CtxDone \<Rightarrow> (Some (zero_JobResult, Some ErrContext), removeWaiter (Job_ID job) s)
           | Received \<Rightarrow>
               (case gomap_get [] (Server_waitMail s) resCh of
                  [] \<Rightarrow> (None, s)
                | res # _ \<Rightarrow> (Some (res, map_option ErrJob (JobResult_Err res)), s))))"

definition SubmitJob_start :: "gotime \<Rightarrow> bool \<Rightarrow> Job \<Rightarrow> Server \<Rightarrow> SubmitState \<times> Server" where
  "SubmitJob_start now sent job s = submit_start now sent job [] PriorityNormal s"

section \<open>Placement of queued jobs\<close>

text \<open>The error as a job error; \<open>text\<close> is the text of an error that is none.\<close>

definition jobErr :: "string \<Rightarrow> ServerError \<Rightarrow> JobError" where
  "jobErr text err =
     (case err of ErrJob je \<Rightarrow> je | _ \<Rightarrow> \<lparr>JobError_Code = ''dispatch_failed'', JobError_Message = text\<rparr>)"

definition ctx_canceled :: string where
  "ctx_canceled = ''context canceled''"

definition shutting_down_error :: JobError where
  "shutting_down_error = \<lparr>JobError_Code = ''shutting_down'', JobError_Message = ''server shutting down''\<rparr>"

datatype PlaceState = PlaceParked | PlaceDispatched nat nat string | PlaceDone

definition place_resolve :: "JobResult \<Rightarrow> Server \<Rightarrow> Server" where
  "place_resolve res s = snd (resolveWaiter res s)"

text \<open>One attempt of \<^verbatim>\<open>placeItem\<close>: it dispatches, or parks until something changes.\<close>

definition placeItem_attempt :: "gotime \<Rightarrow> bool \<Rightarrow> Item \<Rightarrow> Server \<Rightarrow> PlaceState \<times> Server" where
  "placeItem_attempt now sent item s =
     (let preferred = affinityFor now (Item_Job item) (Item_Key item) s
      in (case pickWorker now now (Job_Model (Item_Job item)) preferred s of
           None \<Rightarrow> (PlaceParked, s)
         | Some c \<Rightarrow>
             (case dispatchTo_start sent c (Item_Job item) s of
                (Some resCh, s) \<Rightarrow> (PlaceDispatched c resCh preferred, s)
              | (None, s) \<Rightarrow>
                  (PlaceDone, place_resolve (zero_JobResult\<lparr>JobResult_JobID := Job_ID (Item_Job item),
                                JobResult_Err := Some (jobErr ctx_canceled ErrContext)\<rparr>) s))))"

definition placeItem_finish :: "gotime \<Rightarrow> Wake \<Rightarrow> Item \<Rightarrow> nat \<Rightarrow> nat \<Rightarrow> string \<Rightarrow> Server \<Rightarrow> bool \<times> Server" where
  "placeItem_finish now wake item c resCh preferred s =
     (case dispatchTo_finish wake c resCh (Item_Job item) s of
        (None, s) \<Rightarrow> (False, s)
      | (Some (res, Some err), s) \<Rightarrow>
          (True, place_resolve (zero_JobResult\<lparr>JobResult_JobID := Job_ID (Item_Job item),
                   JobResult_Err := Some (jobErr ctx_canceled err)\<rparr>) s)
      | (Some (res, None), s) \<Rightarrow>
          let s = recordAffinity now (Item_Job item) (Item_Key item) (worker_id (conn s c)) preferred s;
              s = recordWait (time_sub now (Item_EnqueuedAt item)) s
          in (True, place_resolve res s))"

text \<open>The parked attempt whose context ends.\<close>

definition placeItem_stop :: "Item \<Rightarrow> Server \<Rightarrow> Server" where
  "placeItem_stop item s =
     place_resolve (zero_JobResult\<lparr>JobResult_JobID := Job_ID (Item_Job item), JobResult_Err := Some shutting_down_error\<rparr>) s"

text \<open>The dequeue of the placement loop; \<open>None\<close> means that the loop ends.\<close>

definition placeLoop_next :: "bool \<Rightarrow> Server \<Rightarrow> Item option option \<times> Server" where
  "placeLoop_next ctxDone s =
     (case DequeueWait_turn ctxDone (Server_queue s) of
        (TurnReturn (Inl err), q) \<Rightarrow> (None, s\<lparr>Server_queue := q\<rparr>)
      | (TurnReturn (Inr it), q) \<Rightarrow> (Some (Some it), s\<lparr>Server_queue := q\<rparr>)
      | (TurnWait, q) \<Rightarrow> (Some None, s\<lparr>Server_queue := q\<rparr>))"

text \<open>Shutdown, as two parts around the wait for the placement loop.\<close>

definition Close_stop :: "Server \<Rightarrow> Server" where
  "Close_stop s = s\<lparr>Server_queue := Queue_Close (Server_queue s)\<rparr>"

definition Close_release :: "Server \<Rightarrow> Server" where
  "Close_release s = failAllWaiters shutting_down_error s"

section \<open>Authorized requests\<close>

text \<open>The gates in front of a worker: the job is valid, the key may infer, the quota has room.\<close>

definition authorize :: "APIKey \<Rightarrow> string \<Rightarrow> Action \<Rightarrow> Server \<Rightarrow> AuthzError option \<times> Server" where
  "authorize key model action s =
     (let (err, rec) = Authorize key model action in (err, s\<lparr>Server_audit := Server_audit s @ [rec]\<rparr>))"

definition reserve :: "gotime \<Rightarrow> APIKey \<Rightarrow> Server \<Rightarrow> QuotaError option \<times> Server" where
  "reserve now key s = (let (err, q) = CheckAndReserve now key (Server_quota s) in (err, s\<lparr>Server_quota := q\<rparr>))"

definition record_tokens :: "gotime \<Rightarrow> string \<Rightarrow> uint64 \<Rightarrow> Server \<Rightarrow> Server" where
  "record_tokens now keyID n s =
     s\<lparr>Server_quota := RecordGlobalTokens now n (RecordTokens now keyID n (Server_quota s))\<rparr>"

definition SubmitAuthorizedJob_start ::
  "gotime \<Rightarrow> bool \<Rightarrow> APIKey \<Rightarrow> Job \<Rightarrow> Server \<Rightarrow> (ServerError + SubmitState) \<times> Server" where
  "SubmitAuthorizedJob_start now sent key job s =
     (case Job_Validate job of
        Some err \<Rightarrow> (Inl (ErrInvalid err), s)
      | None \<Rightarrow>
          (case authorize key (Job_Model job) Infer s of
             (Some err, s) \<Rightarrow> (Inl (ErrAuthz err), s)
           | (None, s) \<Rightarrow>
               (case reserve now key s of
                  (Some err, s) \<Rightarrow> (Inl (ErrQuota err), s)
                | (None, s) \<Rightarrow>
                    let (st, s) = submit_start now sent job (APIKey_ID key) (PriorityForRoles (APIKey_Roles key)) s
                    in (Inr st, s))))"

definition SubmitAuthorizedJob_finish ::
  "gotime \<Rightarrow> Wake \<Rightarrow> APIKey \<Rightarrow> SubmitState \<Rightarrow> Server \<Rightarrow> (JobResult \<times> ServerError option) option \<times> Server" where
  "SubmitAuthorizedJob_finish now wake key st s =
     (case submit_finish now wake (APIKey_ID key) st s of
        (None, s) \<Rightarrow> (None, s)
      | (Some (res, err), s) \<Rightarrow> (Some (res, err), record_tokens now (APIKey_ID key) (JobResult_Tokens res) s))"

section \<open>Streaming\<close>

text \<open>
  A stream that was set up: the connection, the observer's channel and the stamped job. The goroutine
  behind it also holds the result of its dispatch once that has returned.
\<close>

record StreamState =
  Stream_conn :: nat
  Stream_obs :: nat
  Stream_job :: Job
  Stream_out :: "JobChunk list"
  Stream_done :: "JobResult option"
  Stream_closed :: bool

definition SubmitAuthorizedJobStream_start ::
  "gotime \<Rightarrow> APIKey \<Rightarrow> Job \<Rightarrow> Server \<Rightarrow> (ServerError + StreamState) \<times> Server" where
  "SubmitAuthorizedJobStream_start now key job s =
     (case Job_Validate job of
        Some err \<Rightarrow> (Inl (ErrInvalid err), s)
      | None \<Rightarrow>
          (case authorize key (Job_Model job) Infer s of
             (Some err, s) \<Rightarrow> (Inl (ErrAuthz err), s)
           | (None, s) \<Rightarrow>
               (case reserve now key s of
                  (Some err, s) \<Rightarrow> (Inl (ErrQuota err), s)
                | (None, s) \<Rightarrow>
                    let (preferred, keepAlive) = sessionDispatchHints now job (APIKey_ID key) s;
                        job = job\<lparr>Job_KeepAliveSeconds := keepAlive\<rparr>
                    in (case pickWorker now now (Job_Model job) preferred s of
                         None \<Rightarrow>
                           if \<not> modelServed now (Job_Model job) s then (Inl ErrModelUnavailable, s)
                           else (Inl (ErrQueue ErrQueueFull), s)
                       | Some c \<Rightarrow>
                           let s = recordAffinity now job (APIKey_ID key) (worker_id (conn s c)) preferred s;
                               (obs, w) = addObserver (Job_ID job) (conn s c)
                           in (Inr \<lparr>Stream_conn = c, Stream_obs = obs, Stream_job = job, Stream_out = [],
                                    Stream_done = None, Stream_closed = False\<rparr>, on_conn c (\<lambda>_. w) s)))))"

text \<open>
  One turn of the forwarding loop. The context ends (also while it waits to pass a chunk on), or the
  observer has something: a chunk is passed on, and a closed channel ends the stream once the dispatch
  has returned, with its tokens recorded. A turn with nothing to do leaves everything as it is.
\<close>

datatype StreamWake = StreamCancelled | StreamChunk | StreamChunkCancelled

definition SubmitAuthorizedJobStream_turn ::
  "gotime \<Rightarrow> StreamWake \<Rightarrow> string \<Rightarrow> StreamState \<Rightarrow> Server \<Rightarrow> StreamState \<times> Server" where
  "SubmitAuthorizedJobStream_turn now wake keyID st s =
     (let c = Stream_conn st; detach = on_conn c (removeObserver (Job_ID (Stream_job st)))
      in if Stream_closed st then (st, s)
         else (case wake of
           StreamCancelled \<Rightarrow> (st\<lparr>Stream_closed := True\<rparr>, detach s)
         | _ \<Rightarrow>
             (case recvObserver (Stream_obs st) (conn s c) of
                (Some chunk, _, w) \<Rightarrow>
                  let s = on_conn c (\<lambda>_. w) s
                  in if wake = StreamChunkCancelled then (st\<lparr>Stream_closed := True\<rparr>, detach s)
                     else (st\<lparr>Stream_out := Stream_out st @ [chunk]\<rparr>, s)
              | (None, True, w) \<Rightarrow> (st, s)
              | (None, False, w) \<Rightarrow>
                  (case Stream_done st of
                     None \<Rightarrow> (st, s)
                   | Some res \<Rightarrow> (st\<lparr>Stream_closed := True\<rparr>, record_tokens now keyID (JobResult_Tokens res) s)))))"

section \<open>Model management\<close>

definition PullModel :: "bool \<Rightarrow> APIKey \<Rightarrow> string \<Rightarrow> string \<Rightarrow> Server \<Rightarrow> ServerError option \<times> Server" where
  "PullModel sent key workerID model s =
     (case authorize key model Pull s of
        (Some err, s) \<Rightarrow> (Some (ErrAuthz err), s)
      | (None, s) \<Rightarrow>
          (case map_of (Server_workers s) workerID of
             None \<Rightarrow> (Some ErrWorkerNotFound, s)
           | Some c \<Rightarrow> if sent then (None, send_msg c (MsgPullModel model) s) else (Some ErrContext, s)))"

definition UnloadSessionModel :: "bool \<Rightarrow> string \<Rightarrow> string \<Rightarrow> Server \<Rightarrow> Server" where
  "UnloadSessionModel sent workerID model s =
     (if workerID = [] \<or> model = [] then s
      else case map_of (Server_workers s) workerID of
             None \<Rightarrow> s
           | Some c \<Rightarrow> if sent then send_msg c (MsgUnloadModel model) s else s)"

definition AdminPullModel :: "bool \<Rightarrow> string \<Rightarrow> string \<Rightarrow> Server \<Rightarrow> ServerError option \<times> Server" where
  "AdminPullModel sent workerID model s =
     (case map_of (Server_workers s) workerID of
        None \<Rightarrow> (Some ErrWorkerNotFound, s)
      | Some c \<Rightarrow> if sent then (None, send_msg c (MsgPullModel model) s) else (Some ErrContext, s))"

definition AdminUnloadModel :: "bool \<Rightarrow> string \<Rightarrow> string \<Rightarrow> Server \<Rightarrow> ServerError option \<times> Server" where
  "AdminUnloadModel sent workerID model s =
     (case map_of (Server_workers s) workerID of
        None \<Rightarrow> (Some ErrWorkerNotFound, s)
      | Some c \<Rightarrow> if sent then (None, send_msg c (MsgUnloadModel model) s) else (Some ErrContext, s))"

section \<open>The gates in front of the workers\<close>

lemma authorize_eq:
  "authorize key model action s =
     (fst (Authorize key model action), s\<lparr>Server_audit := Server_audit s @ [snd (Authorize key model action)]\<rparr>)"
  by (simp add: authorize_def split: prod.split)

lemma reserve_eq:
  "reserve now key s =
     (fst (CheckAndReserve now key (Server_quota s)), s\<lparr>Server_quota := snd (CheckAndReserve now key (Server_quota s))\<rparr>)"
  by (simp add: reserve_def split: prod.split)

named_theorems frame \<open>fields that an operation of the request path leaves alone\<close>

lemma bind_session_frame [frame]:
  "Server_conns (bind_session now job k c s) = Server_conns s"
  "Server_workers (bind_session now job k c s) = Server_workers s"
  "Server_nextConn (bind_session now job k c s) = Server_nextConn s"
  "Server_waiters (bind_session now job k c s) = Server_waiters s"
  "Server_waitMail (bind_session now job k c s) = Server_waitMail s"
  "Server_nextWaiter (bind_session now job k c s) = Server_nextWaiter s"
  "Server_quota (bind_session now job k c s) = Server_quota s"
  "Server_audit (bind_session now job k c s) = Server_audit s"
  "Server_queue (bind_session now job k c s) = Server_queue s"
  "Server_sent (bind_session now job k c s) = Server_sent s"
  "Server_waitCount (bind_session now job k c s) = Server_waitCount s"
  by (simp_all add: bind_session_def split: option.split)

lemma recordAffinity_frame [frame]:
  "Server_conns (recordAffinity now job k c p s) = Server_conns s"
  "Server_workers (recordAffinity now job k c p s) = Server_workers s"
  "Server_nextConn (recordAffinity now job k c p s) = Server_nextConn s"
  "Server_waiters (recordAffinity now job k c p s) = Server_waiters s"
  "Server_waitMail (recordAffinity now job k c p s) = Server_waitMail s"
  "Server_nextWaiter (recordAffinity now job k c p s) = Server_nextWaiter s"
  "Server_quota (recordAffinity now job k c p s) = Server_quota s"
  "Server_audit (recordAffinity now job k c p s) = Server_audit s"
  "Server_queue (recordAffinity now job k c p s) = Server_queue s"
  "Server_sent (recordAffinity now job k c p s) = Server_sent s"
  "Server_waitCount (recordAffinity now job k c p s) = Server_waitCount s"
  by (simp_all add: recordAffinity_def frame)

lemma recordAffinity_conn [simp]: "conn (recordAffinity now job k c p s) d = conn s d"
  by (simp add: conn_def frame)

lemma dispatchTo_start_frame [frame]:
  "Server_workers (snd (dispatchTo_start sent c job s)) = Server_workers s"
  "Server_nextConn (snd (dispatchTo_start sent c job s)) = Server_nextConn s"
  "Server_waiters (snd (dispatchTo_start sent c job s)) = Server_waiters s"
  "Server_waitMail (snd (dispatchTo_start sent c job s)) = Server_waitMail s"
  "Server_nextWaiter (snd (dispatchTo_start sent c job s)) = Server_nextWaiter s"
  "Server_quota (snd (dispatchTo_start sent c job s)) = Server_quota s"
  "Server_audit (snd (dispatchTo_start sent c job s)) = Server_audit s"
  "Server_queue (snd (dispatchTo_start sent c job s)) = Server_queue s"
  by (simp_all add: dispatchTo_start_def on_conn_def send_msg_def Let_def split: prod.split)

lemma submit_start_frame [frame]:
  "Server_quota (snd (submit_start now sent job k prio s)) = Server_quota s"
  "Server_audit (snd (submit_start now sent job k prio s)) = Server_audit s"
  using dispatchTo_start_frame(6,7)
  by (auto simp: submit_start_def Let_def addWaiter_def removeWaiter_def signalCapacity_def
      split: option.split prod.split)

text \<open>
  C5. A request reaches a worker, the queue or a session only through all three gates, in this order: an
  invalid job changes nothing at all; a forbidden one leaves one audit record and nothing else, so it
  costs no quota; one over quota leaves the audit record and the rolled counters and nothing else. This
  holds for the plain and for the streaming request alike. A request that passes has one audit record
  and one reservation, and a forbidden pull sends no message.
\<close>

theorem gates_before_work:
  fixes key :: APIKey and job :: Job and s :: Server and now :: gotime and sent :: bool
  defines "a \<equiv> Authorize key (Job_Model job) Infer" and "q \<equiv> CheckAndReserve now key (Server_quota s)"
    and "audited \<equiv> \<lambda>r. s\<lparr>Server_audit := Server_audit s @ [r]\<rparr>"
    and "plain \<equiv> SubmitAuthorizedJob_start now sent key job s"
    and "stream \<equiv> SubmitAuthorizedJobStream_start now key job s"
  shows "(\<forall>e. Job_Validate job = Some e \<longrightarrow> plain = (Inl (ErrInvalid e), s) \<and> stream = (Inl (ErrInvalid e), s)) \<and>
    (\<forall>e. Job_Validate job = None \<and> fst a = Some e \<longrightarrow>
       plain = (Inl (ErrAuthz e), audited (snd a)) \<and> stream = (Inl (ErrAuthz e), audited (snd a))) \<and>
    (\<forall>e. Job_Validate job = None \<and> fst a = None \<and> fst q = Some e \<longrightarrow>
       plain = (Inl (ErrQuota e), (audited (snd a))\<lparr>Server_quota := snd q\<rparr>) \<and>
       stream = (Inl (ErrQuota e), (audited (snd a))\<lparr>Server_quota := snd q\<rparr>)) \<and>
    (Job_Validate job = None \<and> fst a = None \<and> fst q = None \<longrightarrow>
       Server_audit (snd plain) = Server_audit s @ [snd a] \<and> Server_quota (snd plain) = snd q \<and>
       Server_audit (snd stream) = Server_audit s @ [snd a] \<and> Server_quota (snd stream) = snd q) \<and>
    (\<forall>e. fst (Authorize key model Pull) = Some e \<longrightarrow>
       PullModel sent key w model s = (Some (ErrAuthz e), audited (snd (Authorize key model Pull))))"
  unfolding a_def q_def audited_def plain_def stream_def
  by (auto simp: SubmitAuthorizedJob_start_def SubmitAuthorizedJobStream_start_def PullModel_def authorize_eq reserve_eq
      Let_def on_conn_def frame case_prod_beta split: option.split)


section \<open>The whole server: steps and invariant\<close>

text \<open>Every part of the request path that runs without waiting, in any order and with any arguments.\<close>

inductive server_step :: "Server \<Rightarrow> Server \<Rightarrow> bool" where
  registry: "registry_step s s' \<Longrightarrow> server_step s s'"
| submitted: "server_step s (snd (submit_start now sent job k prio s))"
| submit_returned: "server_step s (snd (submit_finish now wake k st s))"
| request: "server_step s (snd (SubmitAuthorizedJob_start now sent key job s))"
| request_returned: "server_step s (snd (SubmitAuthorizedJob_finish now wake key st s))"
| stream_request: "server_step s (snd (SubmitAuthorizedJobStream_start now key job s))"
| stream_turn: "server_step s (snd (SubmitAuthorizedJobStream_turn now swake k ss s))"
| dispatched: "server_step s (snd (dispatchTo_start sent c job s))"
| dispatch_returned: "server_step s (snd (dispatchTo_finish wake c ch job s))"
| dequeued: "server_step s (snd (placeLoop_next ctxDone s))"
| place_try: "server_step s (snd (placeItem_attempt now sent item s))"
| placed: "server_step s (snd (placeItem_finish now wake item c ch p s))"
| place_stop: "server_step s (placeItem_stop item s)"
| close_stop: "server_step s (Close_stop s)"
| close_release: "server_step s (Close_release s)"
| pull: "server_step s (snd (PullModel sent key i model s))"
| unload: "server_step s (UnloadSessionModel sent i model s)"
| admin_pull: "server_step s (snd (AdminPullModel sent i model s))"
| admin_unload: "server_step s (snd (AdminUnloadModel sent i model s))"
| set_timeout: "server_step s (SetHeartbeatTimeout d s)"
| set_warm: "server_step s (SetModelWarmMax d s)"

abbreviation wait_mail :: "Server \<Rightarrow> nat \<Rightarrow> JobResult list" where
  "wait_mail s ch \<equiv> gomap_get [] (Server_waitMail s) ch"

definition waiter_inv :: "Server \<Rightarrow> bool" where
  "waiter_inv s \<longleftrightarrow> handles_ok (Server_waiters s) (Server_nextWaiter s) (\<lambda>ch. wait_mail s ch = []) \<and>
     (\<forall>ch. length (wait_mail s ch) \<le> 1)"

definition conns_inv :: "Server \<Rightarrow> bool" where
  "conns_inv s \<longleftrightarrow> (\<forall>c. worker_inv (conn s c))"

definition server_inv :: "Server \<Rightarrow> bool" where
  "server_inv s \<longleftrightarrow> registry_inv s \<and> conns_inv s \<and> waiter_inv s"

lemma server_invD: assumes "server_inv s" shows "registry_inv s" "conns_inv s" "waiter_inv s" "worker_inv (conn s c)"
  using assms unfolding server_inv_def conns_inv_def by blast+

text \<open>The invariant reads six fields.\<close>

definition same_core :: "Server \<Rightarrow> Server \<Rightarrow> bool" where
  "same_core s s' \<longleftrightarrow> Server_conns s' = Server_conns s \<and> Server_workers s' = Server_workers s \<and>
     Server_nextConn s' = Server_nextConn s \<and> Server_waiters s' = Server_waiters s \<and>
     Server_waitMail s' = Server_waitMail s \<and> Server_nextWaiter s' = Server_nextWaiter s"

lemma same_core_inv: "server_inv s \<Longrightarrow> same_core s s' \<Longrightarrow> server_inv s'"
  by (simp add: same_core_def server_inv_def conns_inv_def waiter_inv_def registry_inv_def conn_def)

text \<open>A change of one connection's worker keeps the invariant when it keeps the worker's and its id.\<close>

lemma on_conn_core:
  "Server_waiters (on_conn c f s) = Server_waiters s" "Server_waitMail (on_conn c f s) = Server_waitMail s"
  "Server_nextWaiter (on_conn c f s) = Server_nextWaiter s"
  by (simp_all add: on_conn_def)

lemma on_conn_registry: "registry_inv s \<Longrightarrow> worker_id (f (conn s c)) = worker_id (conn s c) \<Longrightarrow> registry_inv (on_conn c f s)"
  by (simp add: registry_inv_def server_simps)

lemma on_conn_inv:
  assumes "server_inv s" "worker_inv (f (conn s c))" "worker_id (f (conn s c)) = worker_id (conn s c)"
  shows "server_inv (on_conn c f s)"
proof -
  have "registry_inv (on_conn c f s)" by (rule on_conn_registry) (use server_invD(1) [OF assms(1)] assms(3) in blast)+
  moreover have "conns_inv (on_conn c f s)"
    unfolding conns_inv_def on_conn_simps using assms(2) server_invD(4) [OF assms(1)] by simp
  moreover have "waiter_inv (on_conn c f s)"
    using server_invD(3) [OF assms(1)] unfolding waiter_inv_def on_conn_core .
  ultimately show ?thesis unfolding server_inv_def by blast
qed

lemma on_conn_event_inv:
  "server_inv s \<Longrightarrow> f (conn s c) = worker_event e (conn s c) \<Longrightarrow> worker_id (f (conn s c)) = worker_id (conn s c)
   \<Longrightarrow> server_inv (on_conn c f s)"
  by (rule on_conn_inv) (simp_all add: worker_event_inv server_invD(4))

lemma pending_ident [simp]:
  "worker_id (snd (addPending j w)) = worker_id w" "worker_id (dropPending j w) = worker_id w"
  "worker_id (snd (addObserver j w)) = worker_id w" "worker_id (removeObserver j w) = worker_id w"
  "worker_id (snd (snd (recvObserver ch w))) = worker_id w"
  by (simp_all add: addPending_def dropPending_def addObserver_def removeObserver_def recvObserver_def Let_def
      split: prod.split list.split)

lemma same_core_refl [simp]: "same_core s s"
  by (simp add: same_core_def)

lemma same_core_trans: "same_core s s' \<Longrightarrow> same_core s' s'' \<Longrightarrow> same_core s s''"
  by (simp add: same_core_def)

lemma same_core_updates [simp]:
  "same_core s (s\<lparr>Server_quota := q\<rparr>)" "same_core s (s\<lparr>Server_audit := a\<rparr>)" "same_core s (s\<lparr>Server_queue := qu\<rparr>)"
  "same_core s (s\<lparr>Server_audit := a, Server_quota := q\<rparr>)"
  "same_core s (send_msg c m s)" "same_core s (signalCapacity s)" "same_core s (recordAffinity now job k ch p s)"
  "same_core s (recordWait d s)" "same_core s (SetHeartbeatTimeout d s)" "same_core s (SetModelWarmMax d s)"
  "same_core s (record_tokens now k n s)" "same_core s (Close_stop s)"
  by (simp_all add: same_core_def send_msg_def signalCapacity_def frame recordWait_def SetHeartbeatTimeout_def
      SetModelWarmMax_def record_tokens_def Close_stop_def Let_def)

lemma dispatchTo_start_inv:
  assumes "server_inv s"
  shows "server_inv (snd (dispatchTo_start sent c job s))"
proof -
  let ?w = "snd (addPending (Job_ID job) (conn s c))"
  have s1: "server_inv (on_conn c (\<lambda>_. ?w) s)"
    by (rule on_conn_event_inv [OF assms, where e = "EvDispatch (Job_ID job)"]) simp_all
  have "server_inv (on_conn c (dropPending (Job_ID job)) (on_conn c (\<lambda>_. ?w) s))"
    by (rule on_conn_event_inv [OF s1, where e = "WorkerEvent.EvCancel (Job_ID job)"]) simp_all
  then show ?thesis
    using same_core_inv [OF s1 same_core_updates(5)] by (simp add: dispatchTo_start_def Let_def case_prod_beta)
qed

lemma dispatchTo_finish_inv:
  assumes "server_inv s"
  shows "server_inv (snd (dispatchTo_finish wake c ch job s))"
proof -
  have "server_inv (on_conn c (dropPending (Job_ID job)) s)"
    by (rule on_conn_event_inv [OF assms, where e = "WorkerEvent.EvCancel (Job_ID job)"]) simp_all
  then show ?thesis using assms by (simp add: dispatchTo_finish_def split: Wake.split list.split)
qed

lemma registry_step_waiters:
  "registry_step s s' \<Longrightarrow> Server_waiters s' = Server_waiters s \<and> Server_waitMail s' = Server_waitMail s \<and>
     Server_nextWaiter s' = Server_nextWaiter s"
proof (induction rule: registry_step.induct)
  case (handshake s now p)
  show ?case
    by (cases p) (simp_all add: Connect_register_def addWorker_def send_msg_def signalCapacity_def Let_def)
next
  case (message s now c p)
  show ?case by (cases p) (simp_all add: Connect_message_def signalCapacity_def on_conn_core Let_def)
next
  case (stream_end s c)
  show ?case by (simp add: removeWorker_def on_conn_core unregister_def Let_def)
next
  case (evict_scan s now)
  have "Server_waiters (fold (\<lambda>c s. evictWorker c e s) cs s) = Server_waiters s \<and>
      Server_waitMail (fold (\<lambda>c s. evictWorker c e s) cs s) = Server_waitMail s \<and>
      Server_nextWaiter (fold (\<lambda>c s. evictWorker c e s) cs s) = Server_nextWaiter s" for e cs
    by (induction cs arbitrary: s) (simp_all add: evictWorker_def on_conn_core unregister_def Let_def)
  then show ?case by (simp add: evictStale_def Let_def)
next
  case (drain s i d)
  show ?case by (simp add: DrainWorkerWithDeadline_def on_conn_core Let_def split: option.split)
next
  case (reap s wake c)
  show ?case
    by (simp add: reapDrainedWorker_def forceEvictWorker_def evictWorker_def on_conn_core unregister_def Let_def
        split: ReapWake.split)
qed

lemma conns_inv_cong: "Server_conns s' = Server_conns s \<Longrightarrow> conns_inv s' = conns_inv s"
  by (simp add: conns_inv_def conn_def)

lemma conns_inv_on_conn: "conns_inv s \<Longrightarrow> worker_inv (f (conn s c)) \<Longrightarrow> conns_inv (on_conn c f s)"
  by (simp add: conns_inv_def server_simps)

lemma conns_inv_evictWorker: "conns_inv s \<Longrightarrow> conns_inv (evictWorker c e s)"
  by (simp add: conns_inv_def server_simps failAllPending_inv)

lemma registry_step_conns: "registry_step s s' \<Longrightarrow> conns_inv s \<Longrightarrow> conns_inv s'"
proof (induction rule: registry_step.induct)
  case (handshake s now p)
  then show ?case
    by (cases p) (simp_all add: Connect_register_def addWorker_def Let_def conns_inv_def server_simps,
        simp add: conn_def gomap_simps new_worker_inv)
next
  case (message s now c p)
  have w: "worker_inv (conn s c)" using message unfolding conns_inv_def by blast
  have c: "conns_inv (signalCapacity t) = conns_inv t" for t by (rule conns_inv_cong) (simp add: signalCapacity_def)
  show ?case
    using conns_inv_on_conn [OF message] worker_event_inv [OF w, of "EvHeartbeat _ now"]
      worker_event_inv [OF w, of EvDrain]
    by (cases p) (simp_all add: Connect_message_def Let_def c message resolve_inv [OF w] accumulate_inv [OF w])
next
  case (stream_end s c)
  then show ?case by (simp add: conns_inv_def server_simps failAllPending_inv)
next
  case (evict_scan s now)
  have "conns_inv (fold (\<lambda>c s. evictWorker c e s) cs s)" for e cs
    using evict_scan by (induction cs arbitrary: s) (simp_all add: conns_inv_evictWorker)
  then show ?case by (simp add: evictStale_def Let_def)
next
  case (drain s i d)
  have "worker_inv (markDraining (conn s c))" for c
    using drain worker_event_inv [of "conn s c" EvDrain] unfolding conns_inv_def by simp
  then show ?case
    using drain by (simp add: DrainWorkerWithDeadline_def Let_def conns_inv_on_conn split: option.split)
next
  case (reap s wake c)
  have c: "conns_inv (t\<lparr>Server_cancelled := x\<rparr>) = conns_inv t" for t x by (rule conns_inv_cong) simp
  show ?case
    using reap by (simp add: reapDrainedWorker_def forceEvictWorker_def Let_def c conns_inv_evictWorker split: ReapWake.split)
qed

lemma registry_step_server_inv:
  assumes "registry_step s s'" "server_inv s"
  shows "server_inv s'"
  using registry_step_inv [OF assms(1) server_invD(1) [OF assms(2)]]
    registry_step_conns [OF assms(1) server_invD(2) [OF assms(2)]]
    registry_step_waiters [OF assms(1)] server_invD(3) [OF assms(2)]
  by (simp add: server_inv_def waiter_inv_def)

lemma addWaiter_inv:
  assumes "server_inv s"
  shows "server_inv (snd (addWaiter j s))"
proof -
  let ?s = "snd (addWaiter j s)"
  note w = server_invD(3) [OF assms, unfolded waiter_inv_def]
  have "handles_ok (AList.update j (Server_nextWaiter s) (Server_waiters s)) (Server_nextWaiter s + 1)
      (\<lambda>ch. wait_mail ?s ch = [])"
    by (rule handles_ok_update [OF conjunct1 [OF w]]) (simp_all add: addWaiter_def Let_def gomap_simps)
  then have "waiter_inv ?s" using w by (simp add: waiter_inv_def addWaiter_def Let_def gomap_simps)
  then show ?thesis
    using server_invD(1,2) [OF assms]
    by (simp add: server_inv_def registry_inv_def conns_inv_def conn_def addWaiter_def Let_def)
qed

lemma removeWaiter_inv:
  assumes "server_inv s"
  shows "server_inv (removeWaiter j s)"
proof -
  note w = server_invD(3) [OF assms, unfolded waiter_inv_def]
  have "handles_ok (AList.delete j (Server_waiters s)) (Server_nextWaiter s) (\<lambda>ch. wait_mail s ch = [])"
    by (rule handles_ok_delete [OF conjunct1 [OF w]]) simp
  then have "waiter_inv (removeWaiter j s)" using w by (simp add: waiter_inv_def removeWaiter_def)
  then show ?thesis
    using server_invD(1,2) [OF assms] by (simp add: server_inv_def registry_inv_def conns_inv_def conn_def removeWaiter_def)
qed

lemma send_waiter_simps:
  "wait_mail (send_waiter ch res s) k = (if k = ch then wait_mail s k @ [res] else wait_mail s k)"
  "Server_waiters (send_waiter ch res s) = Server_waiters s"
  "Server_nextWaiter (send_waiter ch res s) = Server_nextWaiter s"
  "Server_workers (send_waiter ch res s) = Server_workers s" "Server_nextConn (send_waiter ch res s) = Server_nextConn s"
  "Server_conns (send_waiter ch res s) = Server_conns s" "Server_waitCount (send_waiter ch res s) = Server_waitCount s"
  by (simp_all add: send_waiter_def gomap_simps)

lemma place_resolve_simps:
  "Server_waiters (place_resolve res s) = AList.delete (JobResult_JobID res) (Server_waiters s)"
  "Server_nextWaiter (place_resolve res s) = Server_nextWaiter s"
  "Server_workers (place_resolve res s) = Server_workers s" "Server_nextConn (place_resolve res s) = Server_nextConn s"
  "Server_conns (place_resolve res s) = Server_conns s" "Server_waitCount (place_resolve res s) = Server_waitCount s"
  by (simp_all add: place_resolve_def resolveWaiter_def send_waiter_simps map_of_eq_None_iff split: option.split)

lemma place_resolve_mail:
  "wait_mail (place_resolve res s) ch =
     (if map_of (Server_waiters s) (JobResult_JobID res) = Some ch then wait_mail s ch @ [res] else wait_mail s ch)"
  by (simp add: place_resolve_def resolveWaiter_def send_waiter_simps split: option.split)

lemma place_resolve_inv:
  assumes "server_inv s"
  shows "server_inv (place_resolve res s)"
proof -
  note w = server_invD(3) [OF assms, unfolded waiter_inv_def]
  let ?s = "place_resolve res s"
  have "handles_ok (AList.delete (JobResult_JobID res) (Server_waiters s)) (Server_nextWaiter s) (\<lambda>ch. wait_mail ?s ch = [])"
    by (rule handles_ok_delete [OF conjunct1 [OF w]]) (simp add: place_resolve_mail)
  moreover have "length (wait_mail ?s ch) \<le> 1" for ch
    using handles_ok_lookup [OF conjunct1 [OF w], of "JobResult_JobID res" ch] w by (simp add: place_resolve_mail)
  ultimately have "waiter_inv ?s" by (simp add: waiter_inv_def place_resolve_simps)
  then show ?thesis
    using server_invD(1,2) [OF assms] by (simp add: server_inv_def registry_inv_def conns_inv_def conn_def place_resolve_simps)
qed

lemma fail_waiters_fields:
  fixes err :: JobError and s :: Server and ws :: "(string \<times> nat) list"
  defines "s' \<equiv> fold (\<lambda>(j, ch) s. send_waiter ch (zero_JobResult\<lparr>JobResult_JobID := j, JobResult_Err := Some err\<rparr>) s) ws s"
  shows "Server_waiters s' = Server_waiters s \<and> Server_nextWaiter s' = Server_nextWaiter s \<and>
    Server_workers s' = Server_workers s \<and> Server_nextConn s' = Server_nextConn s \<and> Server_conns s' = Server_conns s"
  unfolding s'_def by (induction ws arbitrary: s) (auto simp: send_waiter_simps)

lemma fail_waiters_mail:
  "distinct (map snd ws) \<Longrightarrow>
   wait_mail (fold (\<lambda>(j, ch) s. send_waiter ch (zero_JobResult\<lparr>JobResult_JobID := j, JobResult_Err := Some err\<rparr>) s) ws s) ch =
   wait_mail s ch @ (case find (\<lambda>e. snd e = ch) ws of None \<Rightarrow> [] | Some e \<Rightarrow> [error_result err (fst e)])"
proof (induction ws arbitrary: s)
  case (Cons e ws)
  obtain j k where e: "e = (j, k)" by (cases e)
  have "k = ch \<Longrightarrow> find (\<lambda>e. snd e = ch) ws = None" using Cons.prems e by (auto simp: find_None_iff image_iff)
  then show ?case using Cons e by (auto simp: send_waiter_simps error_result_def)
qed simp

lemma Close_release_mail:
  assumes "server_inv s"
  shows "wait_mail (Close_release s) ch =
    wait_mail s ch @ (case find (\<lambda>e. snd e = ch) (Server_waiters s) of
       None \<Rightarrow> [] | Some e \<Rightarrow> [error_result shutting_down_error (fst e)])"
  using fail_waiters_mail [OF handles_ok_distinct
      [OF conjunct1 [OF server_invD(3) [OF assms, unfolded waiter_inv_def]]], of shutting_down_error "s\<lparr>Server_waiters := []\<rparr>"]
  by (simp add: Close_release_def failAllWaiters_def)

lemma Close_release_told:
  assumes "server_inv s" "map_of (Server_waiters s) j = Some ch"
  shows "wait_mail (Close_release s) ch = [error_result shutting_down_error j]"
proof -
  note w = conjunct1 [OF server_invD(3) [OF assms(1), unfolded waiter_inv_def]]
  obtain e where e: "find (\<lambda>e. snd e = ch) (Server_waiters s) = Some e"
    using map_of_SomeD [OF assms(2)] by (cases "find (\<lambda>e. snd e = ch) (Server_waiters s)") (auto simp: find_None_iff)
  then have "(fst e, ch) \<in> set (Server_waiters s)" by (auto simp: find_Some_iff)
  then have "map_of (Server_waiters s) (fst e) = Some ch" using w unfolding handles_ok_def by (metis gomap_mem_iff)
  then have "fst e = j" using handles_ok_inj [OF w] assms(2) by blast
  then show ?thesis using e handles_ok_lookup [OF w assms(2)] by (simp add: Close_release_mail [OF assms(1)])
qed

lemma Close_release_inv:
  assumes "server_inv s"
  shows "server_inv (Close_release s)"
proof -
  note w = server_invD(3) [OF assms, unfolded waiter_inv_def]
  have "length (wait_mail (Close_release s) ch) \<le> 1" for ch
  proof (cases "\<exists>j. map_of (Server_waiters s) j = Some ch")
    case True
    then show ?thesis using Close_release_told [OF assms] by force
  next
    case False
    then have "find (\<lambda>e. snd e = ch) (Server_waiters s) = None"
      using w unfolding handles_ok_def find_None_iff by (metis gomap_mem_iff prod.collapse)
    then show ?thesis using w by (simp add: Close_release_mail [OF assms])
  qed
  then show ?thesis
    using server_invD(1,2) [OF assms] fail_waiters_fields
    by (simp add: server_inv_def waiter_inv_def registry_inv_def conns_inv_def conn_def Close_release_def failAllWaiters_def)
qed


lemma submit_start_inv:
  assumes "server_inv s"
  shows "server_inv (snd (submit_start now sent job k prio s))"
proof -
  have d: "server_inv s'" if "dispatchTo_start sent c j s = (r, s')" for c j r s'
    using dispatchTo_start_inv [OF assms, of sent c j] that by simp
  have w: "server_inv t" if "addWaiter j s = (ch, t)" for j ch t
    using addWaiter_inv [OF assms, of j] that by simp
  have q: "server_inv (t\<lparr>Server_queue := q\<rparr>)" if "server_inv t" for t q
    by (rule same_core_inv [OF that]) simp
  have c: "server_inv (signalCapacity t)" if "server_inv t" for t
    by (rule same_core_inv [OF that]) simp
  show ?thesis
    unfolding submit_start_def Let_def
    by (auto simp: assms d w q c removeWaiter_inv dispatchTo_start_inv split: option.split prod.split)
qed

lemma submit_finish_inv:
  assumes "server_inv s"
  shows "server_inv (snd (submit_finish now wake k st s))"
proof (cases st)
  case (SubmitDispatched c ch job p)
  have d: "server_inv (snd (dispatchTo_finish wake c ch job s))" by (rule dispatchTo_finish_inv [OF assms])
  have a: "server_inv (recordAffinity now job k x p t)" if "server_inv t" for t x
    by (rule same_core_inv [OF that]) simp
  show ?thesis
    using d by (auto simp: SubmitDispatched submit_finish_def a split: option.split prod.split)
qed (simp_all add: submit_finish_def assms removeWaiter_inv split: Wake.split list.split)

lemma stream_start_inv:
  assumes "server_inv s"
  shows "server_inv (snd (SubmitAuthorizedJobStream_start now key job s))"
proof -
  have o: "server_inv (on_conn c (\<lambda>_. snd (addObserver j (conn t c))) t)" if "server_inv t" for c j t
    by (rule on_conn_event_inv [OF that, where e = "EvObserve j"]) simp_all
  have a: "server_inv (recordAffinity now j k x p t)" if "server_inv t" for j k x p t
    by (rule same_core_inv [OF that]) simp
  have u: "server_inv (s\<lparr>Server_audit := x\<rparr>)" "server_inv (s\<lparr>Server_audit := x, Server_quota := y\<rparr>)" for x y
    by (rule same_core_inv [OF assms], simp)+
  show ?thesis
    unfolding SubmitAuthorizedJobStream_start_def authorize_eq reserve_eq Let_def case_prod_beta
    using assms o [OF a [OF u(2)]] by (simp add: u split: option.split)
qed

lemma stream_turn_inv:
  assumes "server_inv s"
  shows "server_inv (snd (SubmitAuthorizedJobStream_turn now wake k st s))"
proof -
  let ?c = "Stream_conn st"
  let ?w = "snd (snd (recvObserver (Stream_obs st) (conn s ?c)))"
  have d: "server_inv (on_conn ?c (removeObserver j) t)" if "server_inv t" for j t
    by (rule on_conn_event_inv [OF that, where e = "EvUnobserve j"]) simp_all
  have r: "server_inv (on_conn ?c (\<lambda>_. ?w) s)"
    by (rule on_conn_event_inv [OF assms, where e = "EvRecv (Stream_obs st)"]) simp_all
  have t: "server_inv (record_tokens now k n s)" for n
    by (rule same_core_inv [OF assms]) simp
  obtain x alive w where rx: "recvObserver (Stream_obs st) (conn s ?c) = (x, alive, w)" by (metis prod_cases3)
  show ?thesis
    using r by (auto simp: SubmitAuthorizedJobStream_turn_def Let_def rx assms d t
        split: StreamWake.split option.split bool.split)
qed

lemma place_inv:
  assumes "server_inv s"
  shows "server_inv (snd (placeItem_attempt now sent item s))"
    and "server_inv (snd (placeItem_finish now wake item c ch p s))"
    and "server_inv (placeItem_stop item s)"
    and "server_inv (snd (placeLoop_next ctxDone s))"
proof -
  have d: "server_inv s'" if "dispatchTo_start sent c j s = (r, s')" for c j r s'
    using dispatchTo_start_inv [OF assms, of sent c j] that by simp
  show "server_inv (snd (placeItem_attempt now sent item s))"
    unfolding placeItem_attempt_def Let_def
    by (auto simp: assms place_resolve_inv d split: option.split prod.split)
  have f: "server_inv s'" if "dispatchTo_finish wake c ch (Item_Job item) s = (r, s')" for r s'
    using dispatchTo_finish_inv [OF assms, of wake c ch "Item_Job item"] that by simp
  have a: "server_inv (recordWait w (recordAffinity now j k x p t))" if "server_inv t" for w j k x p t
    by (rule same_core_inv [OF same_core_inv [OF that same_core_updates(7)] same_core_updates(8)])
  show "server_inv (snd (placeItem_finish now wake item c ch p s))"
    unfolding placeItem_finish_def Let_def
    by (auto simp: place_resolve_inv f a split: option.split prod.split)
  show "server_inv (placeItem_stop item s)" by (simp add: placeItem_stop_def place_resolve_inv assms)
  have "same_core s (snd (placeLoop_next ctxDone s))"
    by (simp add: placeLoop_next_def same_core_def split: prod.split WaitTurn.split sum.split)
  then show "server_inv (snd (placeLoop_next ctxDone s))" by (rule same_core_inv [OF assms])
qed

lemma request_inv:
  assumes "server_inv s"
  shows "server_inv (snd (SubmitAuthorizedJob_start now sent key job s))"
    and "server_inv (snd (SubmitAuthorizedJob_finish now wake key st s))"
proof -
  have u: "server_inv (s\<lparr>Server_audit := x\<rparr>)" "server_inv (s\<lparr>Server_audit := x, Server_quota := y\<rparr>)" for x y
    by (rule same_core_inv [OF assms], simp)+
  show "server_inv (snd (SubmitAuthorizedJob_start now sent key job s))"
    unfolding SubmitAuthorizedJob_start_def authorize_eq reserve_eq Let_def case_prod_beta
    by (simp add: assms u submit_start_inv split: option.split)
  have f: "server_inv s'" if "submit_finish now wake (APIKey_ID key) st s = (r, s')" for r s'
    using submit_finish_inv [OF assms, of now wake "APIKey_ID key" st] that by simp
  have t: "server_inv (record_tokens now k n t)" if "server_inv t" for k n t
    by (rule same_core_inv [OF that]) simp
  show "server_inv (snd (SubmitAuthorizedJob_finish now wake key st s))"
    by (auto simp: SubmitAuthorizedJob_finish_def f t split: option.split prod.split)
qed

lemma model_ops_core:
  "same_core s (snd (PullModel sent key i model s))" "same_core s (UnloadSessionModel sent i model s)"
  "same_core s (snd (AdminPullModel sent i model s))" "same_core s (snd (AdminUnloadModel sent i model s))"
  by (simp_all add: PullModel_def UnloadSessionModel_def AdminPullModel_def AdminUnloadModel_def authorize_eq
      same_core_def send_msg_def split: option.split)

lemma server_step_inv: "server_step s s' \<Longrightarrow> server_inv s \<Longrightarrow> server_inv s'"
proof (induction rule: server_step.induct)
  case (registry s s')
  then show ?case by (rule registry_step_server_inv)
qed (simp_all add: submit_start_inv submit_finish_inv request_inv stream_start_inv stream_turn_inv dispatchTo_start_inv
      dispatchTo_finish_inv place_inv Close_release_inv same_core_inv [OF _ model_ops_core(1)]
      same_core_inv [OF _ model_ops_core(2)] same_core_inv [OF _ model_ops_core(3)]
      same_core_inv [OF _ model_ops_core(4)] same_core_inv [OF _ same_core_updates(9)]
      same_core_inv [OF _ same_core_updates(10)] same_core_inv [OF _ same_core_updates(12)])

lemma server_fresh: "server_inv (NewServer [])"
  by (simp add: server_inv_def registry_inv_empty NewServer_workers conns_inv_def waiter_inv_def)
    (simp add: NewServer_def Let_def conn_def new_worker_inv)

lemma server_steps_inv: "server_step\<^sup>*\<^sup>* (NewServer []) s \<Longrightarrow> server_inv s"
  by (induction rule: rtranclp_induct) (simp_all add: server_fresh server_step_inv)


section \<open>Properties of the request path\<close>

text \<open>
  C6. Nobody is told twice and no send blocks: in every state that any interleaving of worker messages,
  requests, streams, placements, evictions, drains, model operations and shutdown can reach, each
  one-place result channel, of a worker's pending job and of a queued job, has been sent at most one
  result, those still registered have been sent none, and the registry files every connection under
  its own id.
\<close>

theorem sends_never_block:
  assumes "server_step\<^sup>*\<^sup>* (NewServer []) s"
  shows "(\<forall>c ch. length (gomap_get [] (worker_mail (conn s c)) ch) \<le> 1) \<and>
    (\<forall>ch. length (gomap_get [] (Server_waitMail s) ch) \<le> 1) \<and>
    (\<forall>c j ch. map_of (worker_pending (conn s c)) j = Some ch \<longrightarrow> gomap_get [] (worker_mail (conn s c)) ch = []) \<and>
    (\<forall>j ch. map_of (Server_waiters s) j = Some ch \<longrightarrow> gomap_get [] (Server_waitMail s) ch = []) \<and>
    (\<forall>i c. map_of (Server_workers s) i = Some c \<longrightarrow> worker_id (conn s c) = i) \<and>
    distinct (map Worker_ID (Fleet now s))"
proof -
  note inv = server_steps_inv [OF assms]
  note w = server_invD(3) [OF inv, unfolded waiter_inv_def]
  have "length (mail (conn s c) ch) \<le> 1" "map_of (worker_pending (conn s c)) j = Some ch \<Longrightarrow> mail (conn s c) ch = []"
    for c ch j
    using server_invD(4) [OF inv, of c] handles_ok_lookup [of "worker_pending (conn s c)"] unfolding worker_inv_def by blast+
  moreover have "map_of (Server_waiters s) j = Some ch \<Longrightarrow> wait_mail s ch = []" for j ch
    using handles_ok_lookup [OF conjunct1 [OF w]] by blast
  ultimately show ?thesis
    using w registry_lookup [OF server_invD(1) [OF inv]] registry_distinct(2) [OF server_invD(1) [OF inv]] by blast
qed

lemma dispatchTo_finish_received:
  "gomap_get [] (worker_mail (conn s c)) ch = [res] \<Longrightarrow>
   dispatchTo_finish Received c ch job s = (Some (res, map_option ErrJob (JobResult_Err res)), s)"
  by (simp add: dispatchTo_finish_def)

text \<open>
  C15. The answer to a queued job reaches its caller: when the placement loop receives the worker's result
  for a job whose waiter is still registered, the loop is done with the job, the waiter is gone, the
  blocked caller returns with exactly that result, or with the worker's error, and the wait is counted
  exactly when the job succeeded.
\<close>

theorem queued_result_delivered:
  assumes "server_step\<^sup>*\<^sup>* (NewServer []) s"
    and "map_of (Server_waiters s) (Job_ID (Item_Job item)) = Some wch"
    and "gomap_get [] (worker_mail (conn s c)) ch = [res]" and "JobResult_JobID res = Job_ID (Item_Job item)"
  shows "(let (finished, s') = placeItem_finish now Received item c ch p s
    in finished \<and> map_of (Server_waiters s') (Job_ID (Item_Job item)) = None \<and>
       fst (submit_finish now' Received k (SubmitQueued wch (Item_Job item)) s') =
         Some (case JobResult_Err res of
                 None \<Rightarrow> (res, None)
               | Some e \<Rightarrow> (zero_JobResult\<lparr>JobResult_JobID := Job_ID (Item_Job item), JobResult_Err := Some e\<rparr>,
                            Some (ErrJob e))) \<and>
       Server_waitCount s' = Server_waitCount s + (if JobResult_Err res = None then 1 else 0))"
proof -
  note w = server_invD(3) [OF server_steps_inv [OF assms(1)], unfolded waiter_inv_def]
  have mail: "wait_mail s wch = []" using handles_ok_lookup [OF conjunct1 [OF w] assms(2)] by simp
  have pass: "Server_waiters (recordWait d (recordAffinity now j k x p s)) = Server_waiters s"
    "wait_mail (recordWait d (recordAffinity now j k x p s)) y = wait_mail s y"
    "Server_waitCount (recordWait d (recordAffinity now j k x p s)) = Server_waitCount s + 1" for d j k x y
    by (simp_all add: recordWait_def frame Let_def)
  show ?thesis
    using assms(2,4) mail
    by (cases "JobResult_Err res")
      (simp_all add: placeItem_finish_def dispatchTo_finish_received [OF assms(3)] Let_def submit_finish_def jobErr_def
        place_resolve_mail place_resolve_simps pass gomap_simps)
qed



lemma delete_update_new: "map_of m k = None \<Longrightarrow> AList.delete k (AList.update k v m) = m"
  by (induction m) (auto simp: AList.delete_simps split: if_splits)

lemma pickWorker_registered:
  assumes inv: "registry_inv s"
  shows "pickWorker now now model p s = Some c \<Longrightarrow>
      map_of (Server_workers s) (worker_id (conn s c)) = Some c \<and> can_run now model s c"
    and "pickWorker now now model p s = None \<Longrightarrow> map_of (Server_workers s) i = Some d \<Longrightarrow> \<not> can_run now model s d"
proof -
  show "map_of (Server_workers s) (worker_id (conn s c)) = Some c \<and> can_run now model s c"
    if pick: "pickWorker now now model p s = Some c"
  proof -
    obtain i where i: "PickPreferring (Fleet now s) model p = Some i" "map_of (Server_workers s) i = Some c"
      using pick by (auto simp: pickWorker_def pick_handle_def split: option.splits if_splits)
    then have "can_run now model s c" using pickWorker_picked [OF inv i(1)] by (metis option.inject)
    then show ?thesis using i(2) registry_lookup [OF inv i(2)] by simp
  qed
  show "\<not> can_run now model s d" if pick: "pickWorker now now model p s = None" and d: "map_of (Server_workers s) i = Some d"
  proof (cases "PickPreferring (Fleet now s) model p")
    case None
    then show ?thesis using d registry_conns [OF inv, of d] unfolding PickPreferring_none Fleet_ball runnable_snapshot by blast
  next
    case (Some j)
    then obtain c where "map_of (Server_workers s) j = Some c" "can_run now model s c"
      using pickWorker_picked [OF inv] by blast
    then have "pickWorker now now model p s = Some c" using Some by (simp add: pickWorker_def pick_handle_def can_run_available)
    with pick show ?thesis by simp
  qed
qed



lemma warmWindowSeconds_bounds:
  assumes "0 < max'"
  shows "1 \<le> warmWindowSeconds ttl max'" "warmWindowSeconds ttl max' * second \<le> max second max'"
    "0 < ttl \<Longrightarrow> warmWindowSeconds ttl max' * second \<le> max second ttl"
    "second \<le> ttl \<Longrightarrow> ttl \<le> max' \<Longrightarrow> warmWindowSeconds ttl max' = ttl div second"
proof -
  have div: "go_div a second = a div second" if "0 \<le> a" for a
    using that by (cases "a = 0") (simp_all add: go_div_def second_def)
  have le: "a div second * second \<le> a" for a :: int by (simp add: second_def)
  define w where "w = (if ttl \<le> 0 \<or> max' > 0 \<and> ttl > max' then max' else ttl)"
  have w: "0 < w" "w \<le> max'" "0 < ttl \<Longrightarrow> w \<le> ttl" using assms by (auto simp: w_def)
  have eq: "warmWindowSeconds ttl max' = max 1 (w div second)"
    unfolding warmWindowSeconds_def Let_def w_def [symmetric] using w(1) by (simp add: div max_def)
  show "1 \<le> warmWindowSeconds ttl max'" by (simp add: eq)
  have b: "warmWindowSeconds ttl max' * second \<le> max second w" using le [of w] by (simp add: eq max_def)
  then show "warmWindowSeconds ttl max' * second \<le> max second max'" using w by linarith
  show "warmWindowSeconds ttl max' * second \<le> max second ttl" if "0 < ttl" using b w(3) [OF that] by linarith
  show "warmWindowSeconds ttl max' = ttl div second" if "second \<le> ttl" "ttl \<le> max'"
    using that unfolding eq by (simp add: w_def second_def)
qed

text \<open>
  C35. The keep-alive a session's job carries is bounded and never zero: with a positive cap, which the
  constructor and the setter guarantee, it is at least one second, no longer than the cap nor than the
  session's idle time, each rounded up to a second, and a session whose idle time lies between one
  second and the cap gets its idle time in whole seconds. A job without a live session of its key
  carries none and has no preferred worker.
\<close>

theorem keep_alive_bounded:
  assumes "0 < Server_modelWarmMax s"
  shows "(case session_of now job k s of
      None \<Rightarrow> sessionDispatchHints now job k s = ([], 0)
    | Some ses \<Rightarrow>
        let (p, ka) = sessionDispatchHints now job k s
        in p = Session_BoundWorkerID ses \<and> 1 \<le> ka \<and> ka * second \<le> max second (Server_modelWarmMax s) \<and>
           (0 < Session_TTL ses \<longrightarrow> ka * second \<le> max second (Session_TTL ses)) \<and>
           (second \<le> Session_TTL ses \<and> Session_TTL ses \<le> Server_modelWarmMax s \<longrightarrow> ka = Session_TTL ses div second)) \<and>
    0 < Server_modelWarmMax (NewServer opts) \<and> 0 < Server_modelWarmMax (SetModelWarmMax d s)"
  using warmWindowSeconds_bounds [OF assms] assms
  by (simp add: sessionDispatchHints_def NewServer_def SetModelWarmMax_def defaultModelWarmMax_def hour_def minute_def
      second_def Let_def split: option.split)

lemma session_of_cong:
  "Server_sessionMgr s' = Server_sessionMgr s \<Longrightarrow> session_of now job k s' = session_of now job k s"
  by (simp add: session_of_def)

lemma bind_session_affinity:
  assumes "session_of now job k s = Some ses" "Session_ID ses = Job_SessionID job"
  shows "affinityFor now job k (bind_session now job k chosen s) = chosen"
proof -
  obtain m where m: "Server_sessionMgr s = Some m" "Job_SessionID job \<noteq> []" "k \<noteq> []"
    "ownedActive (Job_SessionID job) k now m = Inr ses"
    using assms(1) by (auto simp: session_of_def Manager_Get_def split: option.splits if_splits sum.splits)
  have "Session_OwnerKeyID ses = k"
    using m(4) by (auto simp: ownedActive_def split: sum.splits if_splits)
  moreover have "\<not> expired (ses\<lparr>Session_BoundWorkerID := chosen, Session_LastActiveAt := now\<rparr>) now"
    by (simp add: expired_def time_defs)
  ultimately show ?thesis
    using m assms(2)
    by (simp add: affinityFor_def session_of_def bind_session_def Bind_def touch_session_def Session_Put_def
        Manager_Get_def ownedActive_def [of _ _ _ "m\<lparr>Manager_sessions := _\<rparr>"] Session_Get_def gomap_simps)
qed

text \<open>
  Affinity sticks: when a job of a live session comes back from the worker it was dispatched to, the
  caller gets the result and the session is bound to that worker afterwards; a first binding counts
  neither way, a return to the bound worker counts one hit, and a move to another worker counts one miss
  and one rebind.
\<close>

theorem affinity_sticks:
  assumes "session_of now job k s = Some ses" and "Session_ID ses = Job_SessionID job"
    and "gomap_get [] (worker_mail (conn s c)) ch = [res]" and "JobResult_Err res = None"
  shows "(let bound = Session_BoundWorkerID ses; chosen = worker_id (conn s c);
              (r, s') = submit_finish now Received k (SubmitDispatched c ch job bound) s
    in r = Some (res, None) \<and> affinityFor now job k s' = chosen \<and>
       Server_affinityHits s' = Server_affinityHits s + (if bound \<noteq> [] \<and> chosen = bound then 1 else 0) \<and>
       Server_affinityMisses s' = Server_affinityMisses s + (if bound \<noteq> [] \<and> chosen \<noteq> bound then 1 else 0) \<and>
       Server_affinityRebinds s' = Server_affinityRebinds s + (if bound \<noteq> [] \<and> chosen \<noteq> bound then 1 else 0))"
proof -
  let ?chosen = "worker_id (conn s c)" and ?bound = "Session_BoundWorkerID ses"
  let ?s' = "recordAffinity now job k ?chosen ?bound s"
  have some: "Server_sessionMgr s \<noteq> None" "Job_SessionID job \<noteq> []" "k \<noteq> []"
    using assms(1) by (auto simp: session_of_def split: option.splits if_splits)
  let ?t = "s\<lparr>Server_affinityMisses := Server_affinityMisses s + 1, Server_affinityRebinds := Server_affinityRebinds s + 1\<rparr>"
  have t: "session_of now job k ?t = Some ses" using assms(1) session_of_cong [of ?t s] by simp
  have bind: "affinityFor now job k (bind_session now job k ?chosen s) = ?chosen"
    "affinityFor now job k (bind_session now job k ?chosen ?t) = ?chosen"
    using bind_session_affinity [OF _ assms(2)] assms(1) t by blast+
  have hit: "affinityFor now job k (s\<lparr>Server_affinityHits := x\<rparr>) = ?bound" for x
    using assms(1) session_of_cong [of "s\<lparr>Server_affinityHits := x\<rparr>" s] by (simp add: affinityFor_def)
  have counters: "Server_affinityHits (bind_session now job k x y) = Server_affinityHits y"
    "Server_affinityMisses (bind_session now job k x y) = Server_affinityMisses y"
    "Server_affinityRebinds (bind_session now job k x y) = Server_affinityRebinds y" for x y
    by (simp_all add: bind_session_def split: option.split)
  show ?thesis
    using some bind hit
    by (auto simp: submit_finish_def dispatchTo_finish_received [OF assms(3)] assms(4) recordAffinity_def counters Let_def)
qed


section \<open>A run of the server\<close>

text \<open>
  A draining worker serves the model, so the job is queued; a second worker connects, gets the job and
  answers.
\<close>

definition wit_request :: Job where
  "wit_request = zero_Job\<lparr>Job_ID := ''j'', Job_Model := ''m''\<rparr>"

definition wit_models :: "pb_Model option slice" where
  "wit_models = Some [Some \<lparr>pb_Model_Name = ''m'', pb_Model_Digest = []\<rparr>]"

definition wit_draining :: Server where
  "wit_draining = snd (DrainWorkerWithDeadline ''w1'' 0 (snd (Connect_register 1 (WPRegister ''w1'' wit_models) (NewServer []))))"

definition wit_queued :: Server where
  "wit_queued = snd (submit_start 1 True wit_request [] PriorityNormal wit_draining)"

definition wit_result :: JobResult where
  "wit_result = zero_JobResult\<lparr>JobResult_JobID := ''j'', JobResult_Output := ''hi'', JobResult_Tokens := 2\<rparr>"

definition wit_answered :: Server where
  "wit_answered = snd (Connect_message 2 1 (WPResult (Some (JobResult_Proto wit_result)))
     (snd (dispatchTo_start True 1 wit_request
       (snd (placeLoop_next False (snd (Connect_register 1 (WPRegister ''w2'' wit_models) wit_queued)))))))"

definition wit_item :: Item where
  "wit_item = \<lparr>Item_Job = wit_request, Item_Key = [], Item_Priority = PriorityNormal, Item_Seq = 0, Item_EnqueuedAt = 1\<rparr>"

lemma wit_queued_reached: "server_step\<^sup>*\<^sup>* (NewServer []) wit_draining" "server_step\<^sup>*\<^sup>* (NewServer []) wit_queued"
proof -
  show d: "server_step\<^sup>*\<^sup>* (NewServer []) wit_draining"
    unfolding wit_draining_def
    by (meson server_step.registry registry_step.handshake registry_step.drain rtranclp.intros)
  show "server_step\<^sup>*\<^sup>* (NewServer []) wit_queued"
    unfolding wit_queued_def using d server_step.submitted by (rule rtranclp.rtrancl_into_rtrancl)
qed

lemma wit_answered_reached: "server_step\<^sup>*\<^sup>* (NewServer []) wit_answered"
  unfolding wit_answered_def using wit_queued_reached(2)
  by (meson server_step.registry registry_step.handshake registry_step.message server_step.dispatched server_step.dequeued
      rtranclp.rtrancl_into_rtrancl)

lemma wit_facts:
  "map_of (Server_waiters wit_queued) ''j'' = Some 0" "map_of (Server_waiters wit_answered) ''j'' = Some 0"
  "gomap_get [] (worker_mail (conn wit_answered 1)) 0 = [wit_result]"
  "submit_start 1 True wit_request [] PriorityNormal wit_draining = (SubmitQueued 0 wit_request, wit_queued)"
  by code_simp+

theorem sends_never_block_witness:
  "length (gomap_get [] (worker_mail (conn wit_answered 1)) 0) = 1 \<and>
   gomap_get [] (Server_waitMail wit_answered) 0 = []"
  using sends_never_block [OF wit_answered_reached, of 3] wit_facts by simp

theorem queued_result_delivered_witness:
  "fst (submit_finish 3 Received [] (SubmitQueued 0 wit_request)
     (snd (placeItem_finish 3 Received wit_item 1 0 [] wit_answered))) = Some (wit_result, None)"
  using queued_result_delivered [OF wit_answered_reached, of wit_item 0 1 0 wit_result 3 "[]" 3 "[]"] wit_facts
  by (simp add: wit_item_def wit_request_def wit_result_def zero_JobResult_def Let_def case_prod_beta)



theorem gates_before_work_witness:
  "let key = zero_APIKey\<lparr>APIKey_ID := ''k''\<rparr>
   in \<exists>s'. SubmitAuthorizedJob_start 5 True key wit_request wit_draining = (Inl (ErrAuthz ErrForbidden), s') \<and>
      Server_quota s' = Server_quota wit_draining"
proof -
  let ?key = "zero_APIKey\<lparr>APIKey_ID := ''k''\<rparr>"
  have "Job_Validate wit_request = None" "fst (Authorize ?key (Job_Model wit_request) Infer) = Some ErrForbidden" by code_simp+
  then show ?thesis using gates_before_work [of wit_request 5 True ?key wit_draining] by auto
qed

text \<open>The same server with a session manager, and a job of its one session.\<close>

definition wit_chat :: Server where
  "wit_chat = wit_answered\<lparr>Server_sessionMgr := Some wit_created\<rparr>"

definition wit_chat_session :: Session where
  "wit_chat_session = snd (List.hd (Manager_sessions wit_created))"

definition wit_chat_turn :: Job where
  "wit_chat_turn = wit_request\<lparr>Job_SessionID := Session_ID wit_chat_session\<rparr>"

lemma wit_chat_facts:
  "session_of 6 wit_chat_turn ''k'' wit_chat = Some wit_chat_session" "Session_ID wit_chat_session = Job_SessionID wit_chat_turn"
  "gomap_get [] (worker_mail (conn wit_chat 1)) 0 = [wit_result]" "JobResult_Err wit_result = None"
  "0 < Server_modelWarmMax wit_chat" "worker_id (conn wit_chat 1) = ''w2''"
  by code_simp+

theorem keep_alive_bounded_witness:
  "let (p, ka) = sessionDispatchHints 6 wit_chat_turn ''k'' wit_chat in p = Session_BoundWorkerID wit_chat_session \<and> 1 \<le> ka"
  using keep_alive_bounded [OF wit_chat_facts(5), of 6 wit_chat_turn "''k''"] by (simp add: wit_chat_facts(1) Let_def case_prod_beta)

theorem affinity_sticks_witness:
  "affinityFor 6 wit_chat_turn ''k''
     (snd (submit_finish 6 Received ''k'' (SubmitDispatched 1 0 wit_chat_turn (Session_BoundWorkerID wit_chat_session)) wit_chat)) = ''w2''"
  using affinity_sticks [OF wit_chat_facts(1-4)] by (simp add: Let_def case_prod_beta wit_chat_facts(6) del: One_nat_def)

end
