(* ===== verification/Gpu_Capacity.thy ===== *)
theory Gpu_Capacity
  imports Strconv "HOL-Library.Char_ord" "HOL-Library.List_Lexorder"
begin

text \<open>
  GPU detection of \<^verbatim>\<open>internal/gpu\<close>: the vendors' tools, the parsers of what they print, and the
  aggregation of devices into the capacity a worker reports. What a tool does is an argument. Where a
  tool prints JSON the argument is the decoded document, \<open>None\<close> when it does not decode. The Unicode
  case mappings \<^verbatim>\<open>strings.ToLower\<close> and \<^verbatim>\<open>strings.ToUpper\<close> are arguments too.
\<close>

section \<open>Capacity\<close>

record Capacity =
  Capacity_Type :: string
  Capacity_TotalVRAM :: uint64
  Capacity_FreeVRAM :: uint64
  Capacity_Load :: uint32

record Device =
  Device_Name :: string
  Device_TotalVRAM :: uint64
  Device_FreeVRAM :: uint64
  Device_Load :: uint32

definition CPUType :: string where
  "CPUType = ''cpu''"

definition cpuFallback :: Capacity where
  "cpuFallback = \<lparr>Capacity_Type = CPUType, Capacity_TotalVRAM = 0, Capacity_FreeVRAM = 0, Capacity_Load = 0\<rparr>"

definition device_name :: "Device \<Rightarrow> string" where
  "device_name dev = (let name = TrimSpace (Device_Name dev) in if name = [] then ''GPU'' else name)"

fun count_names :: "Device list \<Rightarrow> (string, nat) gomap \<Rightarrow> string list \<Rightarrow> (string, nat) gomap \<times> string list" where
  "count_names [] counts order = (counts, order)"
| "count_names (dev # devs) counts order =
     (let name = device_name dev;
          order = (if map_of counts name = None then order @ [name] else order)
      in count_names devs (AList.update name (gomap_get 0 counts name + 1) counts) order)"

definition counted :: "(string, nat) gomap \<Rightarrow> string \<Rightarrow> string" where
  "counted counts name = decimal (gomap_get 0 counts name) @ ''x '' @ name"

definition combineNames :: "Device list \<Rightarrow> string" where
  "combineNames devices =
     (if devices = [] then CPUType
      else let (counts, order) = count_names devices [] []
           in if length order = 1
              then let name = order ! 0 in if gomap_get 0 counts name = 1 then name else counted counts name
              else Join '' + '' (map (counted counts) (sort order)))"

definition aggregate :: "Device list \<Rightarrow> Capacity" where
  "aggregate devices =
     (if devices = [] then cpuFallback
      else let total = fold (\<lambda>dev n. n + Device_TotalVRAM dev) devices 0;
               free = fold (\<lambda>dev n. n + Device_FreeVRAM dev) devices 0;
               loadSum = fold (\<lambda>dev n. n + ucast (Device_Load dev)) devices (0 :: uint64);
               mean = (loadSum + of_nat (length devices) div 2) div of_nat (length devices);
               mean = (if mean > 100 then 100 else mean)
           in \<lparr>Capacity_Type = combineNames devices, Capacity_TotalVRAM = total, Capacity_FreeVRAM = free,
               Capacity_Load = ucast mean\<rparr>)"

section \<open>NVIDIA\<close>

datatype 'a ToolOutput = ToolMissing | ToolFailed | ToolPrinted 'a

definition mib :: uint64 where
  "mib = 1024 * 1024"

definition parseUintField :: "string \<Rightarrow> uint64 option" where
  "parseUintField field = ParseUint (TrimSpace field)"

definition parseNvidiaLine :: "string \<Rightarrow> Device option" where
  "parseNvidiaLine line =
     (let fields = Split (CHR '','') line
      in if length fields < 3 then None
         else (case parseUintField (fields ! 1) of
                 None \<Rightarrow> None
               | Some totalMiB \<Rightarrow>
                   (case parseUintField (fields ! 2) of
                      None \<Rightarrow> None
                    | Some freeMiB \<Rightarrow>
                        let util = (if length fields \<ge> 4 then (case parseUintField (fields ! 3) of None \<Rightarrow> 0 | Some u \<Rightarrow> if u > 100 then 100 else u)
                                    else 0)
                        in Some \<lparr>Device_Name = TrimSpace (fields ! 0), Device_TotalVRAM = totalMiB * mib,
                                 Device_FreeVRAM = freeMiB * mib, Device_Load = ucast util\<rparr>)))"

fun parseNvidiaLines :: "string list \<Rightarrow> Device list option" where
  "parseNvidiaLines [] = Some []"
| "parseNvidiaLines (raw # raws) =
     (let line = TrimSpace raw
      in if line = [] then parseNvidiaLines raws
         else (case parseNvidiaLine line of
                 None \<Rightarrow> None
               | Some dev \<Rightarrow> (case parseNvidiaLines raws of None \<Rightarrow> None | Some devs \<Rightarrow> Some (dev # devs))))"

definition parseNvidiaSMI :: "string \<Rightarrow> Device list option" where
  "parseNvidiaSMI out = parseNvidiaLines (Split (CHR 0x0A) out)"

definition detectNVIDIA :: "string ToolOutput \<Rightarrow> Device list option" where
  "detectNVIDIA smi = (case smi of ToolPrinted out \<Rightarrow> parseNvidiaSMI out | _ \<Rightarrow> None)"

section \<open>AMD\<close>

type_synonym rocm_entry = "(string, string) gomap"

text \<open>The entries of a map come in the order the iteration takes.\<close>

fun rocmStrBySubstr :: "(string \<Rightarrow> string) \<Rightarrow> rocm_entry \<Rightarrow> string \<Rightarrow> string option" where
  "rocmStrBySubstr lower [] substr = None"
| "rocmStrBySubstr lower ((k, v) # entry) substr =
     (if Contains (lower k) (lower substr) \<and> TrimSpace v \<noteq> [] then Some (TrimSpace v)
      else rocmStrBySubstr lower entry substr)"

definition rocmUintBySubstr :: "(string \<Rightarrow> string) \<Rightarrow> rocm_entry \<Rightarrow> string \<Rightarrow> uint64 option" where
  "rocmUintBySubstr lower entry substr =
     (case rocmStrBySubstr lower entry substr of None \<Rightarrow> None | Some v \<Rightarrow> ParseUint (TrimSpace v))"

fun first_str :: "(string \<Rightarrow> string) \<Rightarrow> rocm_entry \<Rightarrow> string list \<Rightarrow> string" where
  "first_str lower entry [] = []"
| "first_str lower entry (want # wants) =
     (case rocmStrBySubstr lower entry want of Some v \<Rightarrow> v | None \<Rightarrow> first_str lower entry wants)"

definition rocmName :: "(string \<Rightarrow> string) \<Rightarrow> rocm_entry \<Rightarrow> string" where
  "rocmName lower entry =
     first_str lower entry [''card series'', ''card model'', ''card vendor'', ''gpu name'', ''product name'']"

definition rocmDevice :: "(string \<Rightarrow> string) \<Rightarrow> rocm_entry \<Rightarrow> Device option" where
  "rocmDevice lower entry =
     (let total = rocmUintBySubstr lower entry ''vram total memory'';
          used = rocmUintBySubstr lower entry ''vram total used memory'';
          util = (case rocmUintBySubstr lower entry ''gpu use'' of None \<Rightarrow> 0 | Some u \<Rightarrow> if u > 100 then 100 else u);
          name = rocmName lower entry
      in if name = [] \<and> total = None then None
         else Some \<lparr>Device_Name = name, Device_TotalVRAM = (case total of None \<Rightarrow> 0 | Some t \<Rightarrow> t),
                    Device_FreeVRAM = (case (total, used) of (Some t, Some u) \<Rightarrow> if u \<le> t then t - u else 0 | _ \<Rightarrow> 0),
                    Device_Load = ucast util\<rparr>)"

definition parseRocmSMI :: "(string \<Rightarrow> string) \<Rightarrow> (string, rocm_entry) gomap option \<Rightarrow> Device list option" where
  "parseRocmSMI lower doc =
     (case doc of
        None \<Rightarrow> None
      | Some raw \<Rightarrow>
          Some (List.map_filter (\<lambda>i. if HasPrefix (lower i) ''card'' then rocmDevice lower (gomap_get [] raw i) else None)
            (sort (map fst raw))))"

record amdGPU =
  amdGPU_MarketName :: string
  amdGPU_value :: uint64
  amdGPU_unit :: string

definition amdVRAMToBytes :: "uint64 \<Rightarrow> string \<Rightarrow> uint64" where
  "amdVRAMToBytes value unit =
     (if value = 0 then 0
      else if unit = ''gb'' \<or> unit = ''gib'' then value * 1024 * 1024 * 1024
      else if unit = ''kb'' \<or> unit = ''kib'' then value * 1024
      else if unit = ''b'' \<or> unit = ''bytes'' then value
      else value * mib)"

definition amdDevice :: "amdGPU \<Rightarrow> Device option" where
  "amdDevice g =
     (let dev = \<lparr>Device_Name = TrimSpace (amdGPU_MarketName g), Device_TotalVRAM = amdVRAMToBytes (amdGPU_value g) (amdGPU_unit g),
                 Device_FreeVRAM = 0, Device_Load = 0\<rparr>
      in if Device_Name dev = [] \<and> Device_TotalVRAM dev = 0 then None else Some dev)"

definition parseAmdSMI :: "amdGPU list option \<Rightarrow> Device list option" where
  "parseAmdSMI doc = (case doc of None \<Rightarrow> None | Some gpus \<Rightarrow> Some (List.map_filter amdDevice gpus))"

definition detectAMD ::
  "(string \<Rightarrow> string) \<Rightarrow> amdGPU list option ToolOutput \<Rightarrow> (string, rocm_entry) gomap option ToolOutput \<Rightarrow> Device list option" where
  "detectAMD lower amd rocm =
     (let fallback = (case rocm of ToolPrinted doc \<Rightarrow> parseRocmSMI lower doc | _ \<Rightarrow> None)
      in case amd of
           ToolPrinted doc \<Rightarrow>
             (case parseAmdSMI doc of
                Some devices \<Rightarrow> if devices \<noteq> [] then Some devices else fallback
              | None \<Rightarrow> fallback)
         | _ \<Rightarrow> fallback)"

section \<open>Apple\<close>

record spDisplay =
  spDisplay_Model :: string
  spDisplay_Name :: string
  spDisplay_VRAM :: string
  spDisplay_VRAMShared :: string

definition parseAppleVRAM :: "(string \<Rightarrow> string) \<Rightarrow> string \<Rightarrow> uint64 option" where
  "parseAppleVRAM upper s =
     (let fields = Fields (TrimSpace s)
      in if length fields \<noteq> 2 then None
         else (case ParseUint (fields ! 0) of
                 None \<Rightarrow> None
               | Some value \<Rightarrow>
                   let unit = upper (fields ! 1)
                   in if unit = ''GB'' \<or> unit = ''GIB'' then Some (value * 1024 * 1024 * 1024)
                      else if unit = ''MB'' \<or> unit = ''MIB'' then Some (value * mib)
                      else if unit = ''KB'' \<or> unit = ''KIB'' then Some (value * 1024)
                      else None))"

text \<open>One display: the device, if it carries a signal, and whether its memory is unified.\<close>

definition apple_device :: "(string \<Rightarrow> string) \<Rightarrow> spDisplay \<Rightarrow> Device option \<times> bool" where
  "apple_device upper disp =
     (let name = TrimSpace (spDisplay_Model disp);
          name = (if name = [] then TrimSpace (spDisplay_Name disp) else name);
          vramStr = (if TrimSpace (spDisplay_VRAM disp) = [] then spDisplay_VRAMShared disp else spDisplay_VRAM disp);
          vram = parseAppleVRAM upper vramStr;
          bytes = (case vram of None \<Rightarrow> 0 | Some b \<Rightarrow> b);
          dev = \<lparr>Device_Name = name, Device_TotalVRAM = bytes, Device_FreeVRAM = bytes, Device_Load = 0\<rparr>
      in (if name = [] \<and> bytes = 0 then None else Some dev, vram = None))"

definition parseSystemProfiler :: "(string \<Rightarrow> string) \<Rightarrow> spDisplay list option \<Rightarrow> (Device list \<times> bool) option" where
  "parseSystemProfiler upper doc =
     (case doc of
        None \<Rightarrow> None
      | Some disps \<Rightarrow> Some (List.map_filter (\<lambda>d. fst (apple_device upper d)) disps, list_ex (\<lambda>d. snd (apple_device upper d)) disps))"

definition parseMemsize :: "string \<Rightarrow> uint64 option" where
  "parseMemsize out = (let s = TrimSpace out in if s = [] then None else ParseUint s)"

definition appleUnifiedMemory :: "string ToolOutput \<Rightarrow> uint64" where
  "appleUnifiedMemory sysctl =
     (case sysctl of ToolPrinted out \<Rightarrow> (case parseMemsize out of None \<Rightarrow> 0 | Some mem \<Rightarrow> mem) | _ \<Rightarrow> 0)"

definition detectApple :: "(string \<Rightarrow> string) \<Rightarrow> spDisplay list option ToolOutput \<Rightarrow> string ToolOutput \<Rightarrow> Device list option" where
  "detectApple upper profiler sysctl =
     (case profiler of
        ToolPrinted doc \<Rightarrow>
          (case parseSystemProfiler upper doc of
             None \<Rightarrow> None
           | Some (devices, needMem) \<Rightarrow>
               let mem = appleUnifiedMemory sysctl
               in Some (if needMem \<and> mem > 0
                        then map (\<lambda>dev. if Device_TotalVRAM dev = 0 then dev\<lparr>Device_TotalVRAM := mem, Device_FreeVRAM := mem\<rparr> else dev) devices
                        else devices))
      | _ \<Rightarrow> None)"

section \<open>Detection\<close>

text \<open>What the tools of a host do when they are run.\<close>

record Host =
  Host_goos :: string
  Host_nvidia :: "string ToolOutput"
  Host_amd :: "amdGPU list option ToolOutput"
  Host_rocm :: "(string, rocm_entry) gomap option ToolOutput"
  Host_profiler :: "spDisplay list option ToolOutput"
  Host_sysctl :: "string ToolOutput"

definition probes :: "(string \<Rightarrow> string) \<Rightarrow> (string \<Rightarrow> string) \<Rightarrow> Host \<Rightarrow> Device list option list" where
  "probes lower upper h =
     (if Host_goos h = ''linux'' then [detectNVIDIA (Host_nvidia h), detectAMD lower (Host_amd h) (Host_rocm h)]
      else if Host_goos h = ''windows'' then [detectNVIDIA (Host_nvidia h)]
      else if Host_goos h = ''darwin'' then [detectApple upper (Host_profiler h) (Host_sysctl h)]
      else [])"

fun Detect_loop :: "Device list option list \<Rightarrow> Capacity" where
  "Detect_loop [] = cpuFallback"
| "Detect_loop (p # ps) =
     (case p of None \<Rightarrow> Detect_loop ps | Some devices \<Rightarrow> if devices = [] then Detect_loop ps else aggregate devices)"

definition Detect :: "(string \<Rightarrow> string) \<Rightarrow> (string \<Rightarrow> string) \<Rightarrow> Host \<Rightarrow> Capacity" where
  "Detect lower upper h = Detect_loop (probes lower upper h)"

section \<open>Lemmas\<close>

lemma sum_words: "fold (\<lambda>x n. n + f x) xs (a :: 'a::len word) = a + (\<Sum>x\<leftarrow>xs. f x)"
  by (induction xs arbitrary: a) (simp_all add: add.assoc)

lemma unat_small: "k < 2 ^ 64 \<Longrightarrow> unat (of_nat k :: uint64) = k"
  by (simp add: unat_of_nat)

lemma of_nat_div_small:
  "m < 2 ^ 64 \<Longrightarrow> k < 2 ^ 64 \<Longrightarrow> (of_nat m :: uint64) div of_nat k = of_nat (m div k)"
proof -
  assume "m < 2 ^ 64" "k < 2 ^ 64"
  moreover have "m div k < 2 ^ 64" using \<open>m < 2 ^ 64\<close> by (meson div_le_dividend le_less_trans)
  ultimately have "unat ((of_nat m :: uint64) div of_nat k) = unat (of_nat (m div k) :: uint64)"
    by (simp add: unat_div unat_small)
  then show ?thesis by (simp only: word_unat_eq_iff)
qed

lemma sum_list_bounded: "\<forall>x\<in>set xs. f x \<le> k \<Longrightarrow> (\<Sum>x\<leftarrow>xs. f x) \<le> k * length xs" for k :: nat
  by (induction xs) (simp_all add: add_mono)

lemma sum_list_uint: "(\<Sum>x\<leftarrow>xs. uint (f x)) = int (\<Sum>x\<leftarrow>xs. unat (f x))"
  by (induction xs) simp_all

lemma sum_ucast: "(\<Sum>x\<leftarrow>xs. ucast (f x)) = (of_nat (\<Sum>x\<leftarrow>xs. unat (f x)) :: 'b::len word)" for f :: "'c \<Rightarrow> 'a::len word"
  by (induction xs) simp_all

lemma sum_list_zero: "\<forall>x\<in>set xs. f x = (0 :: 'a::len word) \<Longrightarrow> (\<Sum>x\<leftarrow>xs. f x) = 0"
  by (induction xs) simp_all

lemma mean_rounds:
  fixes n s :: nat
  assumes "0 < n"
  shows "2 * s \<le> 2 * n * ((s + n div 2) div n) + n" "2 * n * ((s + n div 2) div n) \<le> 2 * s + n"
proof -
  let ?q = "(s + n div 2) div n" and ?r = "(s + n div 2) mod n"
  have e: "n * ?q + ?r = s + n div 2" by simp
  have r: "?r < n" using assms by simp
  have "2 * (n * ?q) + 2 * ?r = 2 * s + 2 * (n div 2)" using e by linarith
  moreover have "2 * (n div 2) \<le> n" "n \<le> 2 * (n div 2) + 1" by presburger+
  ultimately show "2 * s \<le> 2 * n * ?q + n" "2 * n * ?q \<le> 2 * s + n"
    using r unfolding mult.assoc by linarith+
qed

lemma mean_bounded: "s \<le> 100 * n \<Longrightarrow> 0 < n \<Longrightarrow> (s + n div 2) div n \<le> (100 :: nat)"
proof -
  assume "s \<le> 100 * n" "0 < n"
  then have "s + n div 2 < 101 * n" by linarith
  then have "(s + n div 2) div n < 101" using \<open>0 < n\<close> by (simp add: div_less_iff_less_mult)
  then show ?thesis by simp
qed

lemma space_seqs_blank: "CHR '' '' # p \<in> set space_seqs \<longleftrightarrow> p = []"
  by (auto simp: space_seqs_def bytes_string_def char_of_eq_iff eq_commute [of "CHR '' ''"])

lemma strip_space: "strip_prefix space_seqs (CHR '' '' # s) = Some s"
proof (cases "find (\<lambda>p. p \<noteq> [] \<and> take (length p) (CHR '' '' # s) = p) space_seqs")
  case None
  then show ?thesis using space_seqs_blank [of "[]"] unfolding find_None_iff by force
next
  case (Some p)
  then have p: "p \<in> set space_seqs" "p \<noteq> []" "take (length p) (CHR '' '' # s) = p"
    by (auto simp: find_Some_iff)
  obtain c q where q: "p = c # q" using p(2) by (cases p) auto
  with p(3) have "p = CHR '' '' # q" by simp
  then have "p = [CHR '' '']" using p(1) space_seqs_blank by blast
  with Some show ?thesis by (simp add: strip_prefix_def)
qed

lemma parseUintField_decimal: "n < 2 ^ 64 \<Longrightarrow> parseUintField (CHR '' '' # decimal n) = Some (of_nat n)"
proof -
  assume n: "n < 2 ^ 64"
  have "TrimSpace (CHR '' '' # decimal n) = decimal n"
    using TrimSpace_clean [OF clean_decimal, of n] trim_left.simps [of space_seqs "CHR '' '' # decimal n"]
    by (simp add: TrimSpace_def strip_space)
  then show ?thesis using n by (simp add: parseUintField_def ParseUint_decimal)
qed

lemma Split_nonempty [simp]: "Split sep s \<noteq> []"
  by (induction s) (auto split: list.split)

lemma Split_none: "sep \<notin> set s \<Longrightarrow> Split sep s = [s]"
  by (induction s) auto

lemma Split_append: "sep \<notin> set s \<Longrightarrow> Split sep (s @ sep # t) = s # Split sep t"
  by (induction s) (auto split: list.split)

lemma decimal_free: "digit c = None \<Longrightarrow> c \<notin> set (decimal n)"
  using decimal_digits by blast


lemma Detect_first:
  "Detect lower upper h =
     (case filter (\<lambda>p. p \<noteq> None \<and> p \<noteq> Some []) (probes lower upper h) of
        Some devs # _ \<Rightarrow> aggregate devs | _ \<Rightarrow> cpuFallback)"
proof -
  have "Detect_loop ps = (case filter (\<lambda>p. p \<noteq> None \<and> p \<noteq> Some []) ps of
      Some devs # _ \<Rightarrow> aggregate devs | _ \<Rightarrow> cpuFallback)" for ps
  proof (induction ps)
    case (Cons p ps)
    then show ?case by (cases p) simp_all
  qed simp
  then show ?thesis unfolding Detect_def .
qed

section \<open>Properties\<close>

text \<open>
  Aggregation: for one or more devices with loads of at most 100 the memory figures are the sums of the
  devices' (modulo \<open>2 ^ 64\<close>), the load is the mean rounded to the nearest whole number and at most 100;
  and detection reports the CPU fallback exactly when no probe of the host finds a device, and otherwise
  the aggregate of the first probe that finds one.
\<close>

theorem aggregate_spec:
  assumes "devices \<noteq> []" and "\<forall>dev\<in>set devices. Device_Load dev \<le> 100" and "length devices < 2 ^ 32"
  shows "(let c = aggregate devices; n = int (length devices); s = (\<Sum>dev\<leftarrow>devices. uint (Device_Load dev))
    in Capacity_TotalVRAM c = (\<Sum>dev\<leftarrow>devices. Device_TotalVRAM dev) \<and>
       Capacity_FreeVRAM c = (\<Sum>dev\<leftarrow>devices. Device_FreeVRAM dev) \<and>
       uint (Capacity_Load c) \<le> 100 \<and> \<bar>2 * s - 2 * n * uint (Capacity_Load c)\<bar> \<le> n) \<and>
    (\<forall>lower upper h. Detect lower upper h =
       (case filter (\<lambda>p. p \<noteq> None \<and> p \<noteq> Some []) (probes lower upper h) of
          Some devs # _ \<Rightarrow> aggregate devs | _ \<Rightarrow> cpuFallback))"
proof -
  define n where "n = length devices"
  define s where "s = (\<Sum>dev\<leftarrow>devices. unat (Device_Load dev))"
  have n: "0 < n" "n < 2 ^ 32" using assms by (auto simp: n_def)
  have "\<forall>dev\<in>set devices. unat (Device_Load dev) \<le> 100" using assms(2) by (simp add: word_le_nat_alt)
  then have sn: "s \<le> 100 * n" unfolding s_def n_def by (rule sum_list_bounded)
  define q where "q = (s + n div 2) div n"
  have q: "q \<le> 100" unfolding q_def using mean_bounded [OF sn n(1)] .
  have loads: "fold (\<lambda>dev n. n + ucast (Device_Load dev)) devices (0 :: uint64) = of_nat s"
    by (simp add: sum_words s_def sum_ucast)
  have "(of_nat n :: uint64) div 2 = of_nat (n div 2)" using of_nat_div_small [of n 2] n by simp
  then have "(of_nat s + of_nat n div 2 :: uint64) = of_nat (s + n div 2)" by simp
  then have mean: "(of_nat s + of_nat n div 2 :: uint64) div of_nat n = of_nat q"
    using of_nat_div_small [of "s + n div 2" n] sn n by (simp add: q_def)
  have small: "unat (of_nat q :: uint64) = q" using q by (simp add: unat_small)
  then have "\<not> (of_nat q :: uint64) > 100" using q by (simp add: word_less_nat_alt)
  then have load: "Capacity_Load (aggregate devices) = ucast (of_nat q :: uint64)"
    using assms(1) mean by (simp add: aggregate_def Let_def loads n_def [symmetric])
  then have ul: "uint (Capacity_Load (aggregate devices)) = int q"
  proof -
    have "(ucast (of_nat q :: uint64) :: uint32) = of_nat (unat (of_nat q :: uint64))" by (rule of_nat_unat [symmetric])
    then have "unat (Capacity_Load (aggregate devices)) = q" using q unfolding load small by (simp add: unat_of_nat)
    then show ?thesis by (metis uint_nat)
  qed
  have si: "(\<Sum>dev\<leftarrow>devices. uint (Device_Load dev)) = int s"
    unfolding s_def by (rule sum_list_uint)
  have "int (2 * s) \<le> int (2 * n * q + n)" "int (2 * n * q) \<le> int (2 * s + n)"
    using mean_rounds [OF n(1), of s] unfolding q_def [symmetric] of_nat_le_iff by blast+
  then have "\<bar>2 * int s - 2 * int n * int q\<bar> \<le> int n" by simp
  moreover have "int q \<le> 100" using q by simp
  moreover have "Capacity_TotalVRAM (aggregate devices) = (\<Sum>dev\<leftarrow>devices. Device_TotalVRAM dev)"
    "Capacity_FreeVRAM (aggregate devices) = (\<Sum>dev\<leftarrow>devices. Device_FreeVRAM dev)"
    using assms(1) by (simp_all add: aggregate_def Let_def sum_words)
  ultimately show ?thesis
    using q Detect_first unfolding Let_def ul si n_def [symmetric] by blast
qed


definition wit_device :: "string \<Rightarrow> uint64 \<Rightarrow> uint32 \<Rightarrow> Device" where
  "wit_device name v l = \<lparr>Device_Name = name, Device_TotalVRAM = v, Device_FreeVRAM = v, Device_Load = l\<rparr>"

theorem aggregate_spec_witness:
  "\<bar>2 * 101 - 2 * 2 * uint (Capacity_Load (aggregate [wit_device ''a'' 5 100, wit_device ''b'' 6 1]))\<bar> \<le> (2 :: int)"
proof -
  have "\<forall>dev\<in>set [wit_device ''a'' 5 100, wit_device ''b'' 6 1]. Device_Load dev \<le> 100" by (simp add: wit_device_def)
  from aggregate_spec [OF _ this] show ?thesis by (simp add: Let_def wit_device_def)
qed

text \<open>A row as the tool prints it, and the device it stands for.\<close>

definition nvidia_row :: "string \<times> nat \<times> nat \<times> nat \<Rightarrow> string" where
  "nvidia_row = (\<lambda>(name, t, f, u). name @ '', '' @ decimal t @ '', '' @ decimal f @ '', '' @ decimal u)"

definition nvidia_device :: "string \<times> nat \<times> nat \<times> nat \<Rightarrow> Device" where
  "nvidia_device = (\<lambda>(name, t, f, u). \<lparr>Device_Name = name, Device_TotalVRAM = of_nat t * mib,
     Device_FreeVRAM = of_nat f * mib, Device_Load = of_nat (min u 100)\<rparr>)"

definition nvidia_row_ok :: "string \<times> nat \<times> nat \<times> nat \<Rightarrow> bool" where
  "nvidia_row_ok = (\<lambda>(name, t, f, u). clean name \<and> name \<noteq> [] \<and> CHR '','' \<notin> set name \<and> CHR 0x0A \<notin> set name \<and>
     t < 2 ^ 64 \<and> f < 2 ^ 64 \<and> u < 2 ^ 64)"

lemma digit_separators: "digit (CHR '','') = None" "digit (CHR '' '') = None" "digit (CHR 0x0A) = None"
  by (simp_all add: digit_def)

lemma strip_none_first: "\<forall>p\<in>set ps. c \<notin> set p \<Longrightarrow> strip_prefix ps (c # s) = None"
  unfolding strip_none by (metis length_greater_0_conv list.set_intros(1) neq_Nil_conv take_Cons')

lemma nvidia_row_clean:
  assumes "nvidia_row_ok r"
  shows "clean (nvidia_row r)"
proof -
  obtain name t f u where r: "r = (name, t, f, u)" by (cases r)
  have comma: "\<forall>p\<in>set space_seqs. CHR '','' \<notin> set p"
    using space_seqs_bytes by fastforce
  have "strip_prefix space_seqs (nvidia_row r) = None"
    using assms strip_none_append [OF _ comma, of name] by (simp add: r nvidia_row_def nvidia_row_ok_def clean_def)
  moreover obtain d ds where d: "rev (decimal u) = d # ds" using decimal_nonempty [of u] by (cases "rev (decimal u)") auto
  then have "digit d \<noteq> None" using decimal_digits [of d u] by (metis list.set_intros(1) set_rev)
  then have "\<forall>p\<in>set (map rev space_seqs). d \<notin> set p" using space_seqs_digit by auto
  then have "strip_prefix (map rev space_seqs) (d # x) = None" for x by (rule strip_none_first)
  then have "strip_prefix (map rev space_seqs) (rev (nvidia_row r)) = None" using d by (simp add: r nvidia_row_def)
  ultimately show ?thesis by (simp add: clean_def)
qed

lemma parseNvidiaLine_row:
  assumes "nvidia_row_ok r"
  shows "parseNvidiaLine (nvidia_row r) = Some (nvidia_device r)"
proof -
  obtain name t f u where r: "r = (name, t, f, u)" by (cases r)
  note ok = assms [unfolded r nvidia_row_ok_def split]
  have sep: "CHR '','' \<notin> set (CHR '' '' # decimal n)" for n using decimal_free [OF digit_separators(1)] by simp
  have row: "nvidia_row r = name @ CHR '','' # ((CHR '' '' # decimal t) @ CHR '','' # ((CHR '' '' # decimal f) @
      CHR '','' # (CHR '' '' # decimal u)))" by (simp add: r nvidia_row_def)
  have split: "Split (CHR '','') (nvidia_row r) =
      [name, CHR '' '' # decimal t, CHR '' '' # decimal f, CHR '' '' # decimal u]"
    unfolding row using ok by (simp only: Split_append [OF sep] Split_none [OF sep] Split_append simp_thms)
  have u: "(if (of_nat u :: uint64) > 100 then 100 else of_nat u) = (of_nat (min u 100) :: uint64)"
    using ok by (simp add: word_less_nat_alt unat_small min_def)
  have lt: "min u 100 < 2 ^ 64" by simp
  have "(ucast (of_nat (min u 100) :: uint64) :: uint32) = of_nat (min u 100)"
    by (metis lt of_nat_unat unat_small)
  then show ?thesis
    unfolding parseNvidiaLine_def split Let_def using ok TrimSpace_clean [of name]
    by (simp add: parseUintField_decimal u nvidia_device_def r)
qed


lemma Split_rows:
  "\<forall>s\<in>set rows. sep \<notin> set s \<Longrightarrow> Split sep (concat (map (\<lambda>s. s @ [sep]) rows)) = rows @ [[]]"
proof (induction rows)
  case (Cons s rows)
  then show ?case using Split_append [of sep s "concat (map (\<lambda>s. s @ [sep]) rows)"] by simp
qed simp

text \<open>
  Reading back what the tool prints: the comma-separated rows of any list of GPUs, with clean names and
  figures in range, parse to exactly those devices, in order, with memory in bytes and the load
  capped at 100; the blank line after the last row is ignored.
\<close>

theorem parseNvidiaSMI_roundtrip:
  assumes "\<forall>r\<in>set rows. nvidia_row_ok r"
  shows "parseNvidiaSMI (concat (map (\<lambda>r. nvidia_row r @ [CHR 0x0A]) rows)) = Some (map nvidia_device rows)"
    (is "?parse = _")
proof -
  have nl: "CHR 0x0A \<notin> set (nvidia_row r)" if "r \<in> set rows" for r
    using assms that decimal_free [OF digit_separators(3)]
    by (cases r) (auto simp: nvidia_row_def nvidia_row_ok_def)
  have "?parse = parseNvidiaLines (map nvidia_row rows @ [[]])"
    using nl Split_rows [of "map nvidia_row rows" "CHR 0x0A"] by (simp add: parseNvidiaSMI_def comp_def)
  also have "\<dots> = Some (map nvidia_device rows)"
    using assms
  proof (induction rows)
    case Nil
    have "TrimSpace [] = []" by (rule TrimSpace_clean) (simp add: clean_digits)
    then show ?case by (simp add: Let_def)
  next
    case (Cons r rows)
    have "nvidia_row r \<noteq> []" using Cons.prems by (cases r) (simp add: nvidia_row_def)
    then show ?case
      using Cons TrimSpace_clean [OF nvidia_row_clean, of r] parseNvidiaLine_row [of r] by (simp add: Let_def)
  qed
  finally show ?thesis .
qed


theorem parseNvidiaSMI_roundtrip_witness:
  "parseNvidiaSMI (nvidia_row (''4090'', 24564, 1024, 7) @ [CHR 0x0A]) =
     Some [\<lparr>Device_Name = ''4090'', Device_TotalVRAM = 24564 * mib, Device_FreeVRAM = 1024 * mib, Device_Load = 7\<rparr>]"
proof -
  have "clean ''4090''" by (rule clean_digits) (simp add: digit_def)
  then have "\<forall>r\<in>set [(''4090'', 24564, 1024, 7)]. nvidia_row_ok r" by (simp add: nvidia_row_ok_def)
  from parseNvidiaSMI_roundtrip [OF this] show ?thesis by (simp add: nvidia_device_def)
qed

text \<open>
  Where the preferred AMD tool answers with a usable device, no free memory is ever reported, although
  the other tool, which knows it, is present and would give it.
\<close>

lemma amd_smi_no_free:
  assumes "parseAmdSMI doc = Some devices" and "devices \<noteq> []"
  shows "detectAMD lower (ToolPrinted doc) rocm = Some devices" and "Capacity_FreeVRAM (aggregate devices) = 0"
proof -
  show "detectAMD lower (ToolPrinted doc) rocm = Some devices" using assms by (simp add: detectAMD_def Let_def)
  have "\<forall>dev\<in>set devices. Device_FreeVRAM dev = 0"
    using assms(1) by (auto simp: parseAmdSMI_def List.map_filter_def amdDevice_def Let_def split: option.splits if_splits)
  then have "(\<Sum>dev\<leftarrow>devices. Device_FreeVRAM dev) = 0" by (rule sum_list_zero)
  then show "Capacity_FreeVRAM (aggregate devices) = 0" by (simp add: aggregate_def cpuFallback_def Let_def sum_words)
qed

lemma rocm_free_le_total:
  "rocmDevice lower entry = Some dev \<Longrightarrow> Device_FreeVRAM dev \<le> Device_TotalVRAM dev"
  by (auto simp: rocmDevice_def Let_def word_sub_le split: option.splits if_splits)

end
