(* ===== verification/Ollama_Client.thy ===== *)
theory Ollama_Client
  imports Agent_Types Strconv
begin

text \<open>
  The worker's client of a local Ollama, \<^verbatim>\<open>internal/ollama/ollama.go\<close>.

  The remote server is a parameter. What a call meets is an \<open>HttpReply\<close>: the request could not be
  built, could not be sent, or was answered with a status, a body and, for the streaming endpoints, the
  lines the scanner yields. Each line comes with the error of the context at the time it is read, if it
  is done by then; the end of the scan is a read error or the end of the stream. The decoder of one
  JSON line (\<^verbatim>\<open>encoding/json\<close> on the response structs) and \<^verbatim>\<open>strings.ToLower\<close> are arguments. The
  requests are the values handed to the JSON encoder; encoding one may fail, because a
  \<^verbatim>\<open>json.RawMessage\<close> is checked then.

  The lemmas give what \<^verbatim>\<open>ChatStream\<close> emits and returns on every kind of stream, and that every failure
  of the client carries one of the five documented codes.
\<close>

section \<open>Codes and wire structs\<close>

definition CodeModelNotFound :: string where "CodeModelNotFound = ''model_not_found''"
definition CodeUnreachable :: string where "CodeUnreachable = ''ollama_unreachable''"
definition CodeOllamaError :: string where "CodeOllamaError = ''ollama_error''"
definition CodeTimeout :: string where "CodeTimeout = ''timeout''"
definition CodeInvalidRequest :: string where "CodeInvalidRequest = ''invalid_request''"

definition DefaultBaseURL :: string where
  "DefaultBaseURL = ''http://localhost:11434''"

text \<open>\<^verbatim>\<open>strings.TrimRight(s, "/")\<close>.\<close>

definition TrimRight_slash :: "string \<Rightarrow> string" where
  "TrimRight_slash s = rev (dropWhile (\<lambda>c. c = CHR ''/'') (rev s))"

definition New_baseURL :: "string \<Rightarrow> string" where
  "New_baseURL baseURL = TrimRight_slash (if baseURL = [] then DefaultBaseURL else baseURL)"

text \<open>A JSON message is kept as the bytes it is; \<open>None\<close> is a nil \<^verbatim>\<open>json.RawMessage\<close>.\<close>

record chatToolCall =
  chatToolCall_Name :: string
  chatToolCall_Arguments :: "string option"

record chatMessage =
  chatMessage_Role :: string
  chatMessage_Content :: string
  chatMessage_ToolCalls :: "chatToolCall list"
  chatMessage_ToolName :: string

record chatTool =
  chatTool_Type :: string
  chatTool_Name :: string
  chatTool_Description :: string
  chatTool_Parameters :: "string option"

record chatRequest =
  chatRequest_Model :: string
  chatRequest_Messages :: "chatMessage list"
  chatRequest_Tools :: "chatTool list"
  chatRequest_Stream :: bool
  chatRequest_KeepAlive :: "int option"

record chatResponse =
  chatResponse_Message :: chatMessage
  chatResponse_Done :: bool
  chatResponse_DoneReason :: string
  chatResponse_EvalCount :: uint64
  chatResponse_PromptEvalCount :: uint64
  chatResponse_Error :: string

record ChatResult =
  ChatResult_PromptTokens :: uint64
  ChatResult_CompletionTokens :: uint64
  ChatResult_Tokens :: uint64
  ChatResult_ToolCalls :: "ToolCall list"
  ChatResult_DoneReason :: string

definition zero_ChatResult :: ChatResult where
  "zero_ChatResult = \<lparr>ChatResult_PromptTokens = 0, ChatResult_CompletionTokens = 0, ChatResult_Tokens = 0,
     ChatResult_ToolCalls = [], ChatResult_DoneReason = []\<rparr>"

record ChatRequest =
  ChatRequest_Model :: string
  ChatRequest_Messages :: "Message list"
  ChatRequest_Tools :: "Tool list"
  ChatRequest_KeepAlive :: "int option"

record pullProgress =
  pullProgress_Status :: string
  pullProgress_Error :: string

record tagModel =
  tagModel_Name :: string
  tagModel_Digest :: string

section \<open>Failures\<close>

text \<open>What \<^verbatim>\<open>errors.Is\<close> tells about a transport error, and its text.\<close>

datatype NetKind = DeadlineExceeded | Canceled | OtherNet

type_synonym net_error = "NetKind \<times> string"

definition transportError :: "net_error \<Rightarrow> string \<Rightarrow> JobError" where
  "transportError err op =
     (let msg = op @ '': '' @ snd err
      in if fst err = DeadlineExceeded then \<lparr>JobError_Code = CodeTimeout, JobError_Message = msg\<rparr>
         else if fst err = Canceled then \<lparr>JobError_Code = CodeTimeout, JobError_Message = msg\<rparr>
         else \<lparr>JobError_Code = CodeUnreachable, JobError_Message = msg\<rparr>)"

definition isModelNotFound :: "(string \<Rightarrow> string) \<Rightarrow> string \<Rightarrow> bool" where
  "isModelNotFound lower msg =
     (let m = lower msg
      in Contains m ''not found'' \<or> Contains m ''no such'' \<or> Contains m ''try pulling'')"

text \<open>\<open>decode\<close> is the \<^verbatim>\<open>error\<close> field of a body that is a JSON object, \<open>None\<close> when it does not decode.\<close>

definition readErrorBody :: "(string \<Rightarrow> string option) \<Rightarrow> string \<Rightarrow> string" where
  "readErrorBody decode body =
     (let trimmed = TrimSpace (take 8192 body)
      in if trimmed = [] then []
         else case decode trimmed of
             None \<Rightarrow> trimmed
           | Some e \<Rightarrow> if e \<noteq> [] then e else trimmed)"

definition errMessage :: "string \<Rightarrow> string \<Rightarrow> nat \<Rightarrow> string" where
  "errMessage op msg status =
     (if msg \<noteq> [] then ''ollama '' @ op @ '': '' @ msg
      else ''ollama '' @ op @ '': status '' @ Itoa (int status))"

definition statusError ::
  "(string \<Rightarrow> string) \<Rightarrow> (string \<Rightarrow> string option) \<Rightarrow> nat \<Rightarrow> string \<Rightarrow> string \<Rightarrow> JobError" where
  "statusError lower decode status body op =
     (let msg = readErrorBody decode body; text = errMessage op msg status
      in if status = 404 then \<lparr>JobError_Code = CodeModelNotFound, JobError_Message = text\<rparr>
         else if status = 400 then \<lparr>JobError_Code = CodeInvalidRequest, JobError_Message = text\<rparr>
         else if isModelNotFound lower msg then \<lparr>JobError_Code = CodeModelNotFound, JobError_Message = text\<rparr>
         else \<lparr>JobError_Code = CodeOllamaError, JobError_Message = text\<rparr>)"

definition errorFromMessage :: "(string \<Rightarrow> string) \<Rightarrow> string \<Rightarrow> JobError" where
  "errorFromMessage lower msg =
     (if isModelNotFound lower msg then \<lparr>JobError_Code = CodeModelNotFound, JobError_Message = msg\<rparr>
      else \<lparr>JobError_Code = CodeOllamaError, JobError_Message = msg\<rparr>)"

section \<open>Translation of messages, tools and tool calls\<close>

definition rawOrNil :: "string \<Rightarrow> string option" where
  "rawOrNil s = (if s = [] then None else Some s)"

definition rawOrNull :: "string \<Rightarrow> string option" where
  "rawOrNull s = (if s = [] then Some ''{}'' else Some s)"

definition toOllamaMessages :: "Message list \<Rightarrow> chatMessage list" where
  "toOllamaMessages ms = map (\<lambda>m.
     \<lparr>chatMessage_Role = Message_Role m, chatMessage_Content = Message_Content m,
      chatMessage_ToolCalls = map (\<lambda>tc. \<lparr>chatToolCall_Name = ToolCall_FunctionName tc,
        chatToolCall_Arguments = rawOrNull (ToolCall_Arguments tc)\<rparr>) (Message_ToolCalls m),
      chatMessage_ToolName = Message_Name m\<rparr>) ms"

definition toOllamaTools :: "Tool list \<Rightarrow> chatTool list" where
  "toOllamaTools ts = map (\<lambda>t.
     \<lparr>chatTool_Type = (if Tool_Type t = [] then ''function'' else Tool_Type t),
      chatTool_Name = ToolFunction_Name (Tool_Function t),
      chatTool_Description = ToolFunction_Description (Tool_Function t),
      chatTool_Parameters = rawOrNil (ToolFunction_Parameters (Tool_Function t))\<rparr>) ts"

definition fromOllamaToolCalls :: "chatToolCall list \<Rightarrow> ToolCall list" where
  "fromOllamaToolCalls calls = map (\<lambda>c.
     let args = (case chatToolCall_Arguments c of None \<Rightarrow> [] | Some a \<Rightarrow> a)
     in \<lparr>ToolCall_ID = [], ToolCall_Type = ''function'', ToolCall_FunctionName = chatToolCall_Name c,
         ToolCall_Arguments = (if args = [] then ''{}'' else args)\<rparr>) calls"

section \<open>The calls\<close>

text \<open>
  \<open>Answered status body lines end\<close>: a response, its body, the lines the scanner yields with the
  error of the context when each is read, and the error that ends the scan.
\<close>

datatype HttpReply =
    NotBuilt net_error
  | NotSent net_error
  | Answered (reply_status: nat) (reply_body: string)
      (reply_lines: "(net_error option \<times> string) list") (reply_end: "net_error option")

text \<open>The JSON decoders and \<^verbatim>\<open>strings.ToLower\<close> the client uses; a left value is the text of an error.\<close>

record Codec =
  Codec_lower :: "string \<Rightarrow> string"
  Codec_error :: "string \<Rightarrow> string option"
  Codec_version :: "string \<Rightarrow> string + string"
  Codec_tags :: "string \<Rightarrow> string + tagModel list"
  Codec_progress :: "string \<Rightarrow> string + pullProgress"
  Codec_chat :: "string \<Rightarrow> string + chatResponse"

definition badStatus :: "Codec \<Rightarrow> HttpReply \<Rightarrow> string \<Rightarrow> JobError" where
  "badStatus cd r op = statusError (Codec_lower cd) (Codec_error cd) (reply_status r) (reply_body r) op"

definition Ollama_Version :: "Codec \<Rightarrow> HttpReply \<Rightarrow> JobError + string" where
  "Ollama_Version cd r =
     (case r of
        NotBuilt err \<Rightarrow> Inl (transportError err ''build version request'')
      | NotSent err \<Rightarrow> Inl (transportError err ''contact ollama'')
      | Answered status body _ _ \<Rightarrow>
          if status \<noteq> 200 then Inl (badStatus cd r ''version'')
          else case Codec_version cd body of
              Inl e \<Rightarrow> Inl \<lparr>JobError_Code = CodeOllamaError, JobError_Message = ''decode version response: '' @ e\<rparr>
            | Inr v \<Rightarrow> Inr v)"

definition Ollama_ListModels :: "Codec \<Rightarrow> HttpReply \<Rightarrow> JobError + Model list" where
  "Ollama_ListModels cd r =
     (case r of
        NotBuilt err \<Rightarrow> Inl (transportError err ''build tags request'')
      | NotSent err \<Rightarrow> Inl (transportError err ''contact ollama'')
      | Answered status body _ _ \<Rightarrow>
          if status \<noteq> 200 then Inl (badStatus cd r ''tags'')
          else case Codec_tags cd body of
              Inl e \<Rightarrow> Inl \<lparr>JobError_Code = CodeOllamaError, JobError_Message = ''decode tags response: '' @ e\<rparr>
            | Inr tags \<Rightarrow> Inr (map (\<lambda>m. \<lparr>Model_Name = tagModel_Name m, Model_Digest = tagModel_Digest m\<rparr>)
                (filter (\<lambda>m. tagModel_Name m \<noteq> []) tags)))"

fun pull_loop :: "Codec \<Rightarrow> (net_error option \<times> string) list \<Rightarrow> net_error option \<Rightarrow> JobError option" where
  "pull_loop cd [] end = (case end of Some err \<Rightarrow> Some (transportError err ''read pull stream'') | None \<Rightarrow> None)"
| "pull_loop cd ((_, raw) # rest) end =
     (let line = TrimSpace raw
      in if line = [] then pull_loop cd rest end
         else case Codec_progress cd line of
             Inl e \<Rightarrow> pull_loop cd rest end
           | Inr p \<Rightarrow>
               if pullProgress_Error p \<noteq> [] then Some (errorFromMessage (Codec_lower cd) (pullProgress_Error p))
               else pull_loop cd rest end)"

definition Ollama_Pull :: "Codec \<Rightarrow> HttpReply \<Rightarrow> JobError option" where
  "Ollama_Pull cd r =
     (case r of
        NotBuilt err \<Rightarrow> Some (transportError err ''build pull request'')
      | NotSent err \<Rightarrow> Some (transportError err ''contact ollama'')
      | Answered status _ lines end \<Rightarrow>
          if status \<noteq> 200 then Some (badStatus cd r ''pull'') else pull_loop cd lines end)"

definition Ollama_Unload :: "Codec \<Rightarrow> HttpReply \<Rightarrow> JobError option" where
  "Ollama_Unload cd r =
     (case r of
        NotBuilt err \<Rightarrow> Some (transportError err ''build unload request'')
      | NotSent err \<Rightarrow> Some (transportError err ''contact ollama'')
      | Answered status _ _ _ \<Rightarrow>
          if status \<noteq> 200 then
            let je = badStatus cd r ''unload''
            in if JobError_Code je = CodeModelNotFound then None else Some je
          else None)"

section \<open>Streaming chat\<close>

definition chat_body :: "ChatRequest \<Rightarrow> chatRequest" where
  "chat_body cr = \<lparr>chatRequest_Model = ChatRequest_Model cr,
     chatRequest_Messages = toOllamaMessages (ChatRequest_Messages cr),
     chatRequest_Tools = toOllamaTools (ChatRequest_Tools cr), chatRequest_Stream = True,
     chatRequest_KeepAlive = ChatRequest_KeepAlive cr\<rparr>"

type_synonym emission = "string \<times> ToolCall list"

text \<open>The scan of a chat stream: what was emitted, the result so far and the error.\<close>

fun chat_loop :: "Codec \<Rightarrow> (net_error option \<times> string) list \<Rightarrow> net_error option \<Rightarrow> ChatResult \<Rightarrow>
    emission list \<times> ChatResult \<times> JobError option" where
  "chat_loop cd [] end result =
     ([], result, case end of
        Some err \<Rightarrow> Some (transportError err ''read chat stream'')
      | None \<Rightarrow> Some \<lparr>JobError_Code = CodeOllamaError, JobError_Message = ''chat stream ended without completion''\<rparr>)"
| "chat_loop cd ((ctx, raw) # rest) end result =
     (case ctx of
        Some err \<Rightarrow> ([], result, Some (transportError err ''chat cancelled''))
      | None \<Rightarrow>
          let line = TrimSpace raw
          in if line = [] then chat_loop cd rest end result
             else (case Codec_chat cd line of
                 Inl e \<Rightarrow> ([], result, Some \<lparr>JobError_Code = CodeOllamaError, JobError_Message = ''decode chat chunk: '' @ e\<rparr>)
               | Inr co \<Rightarrow>
                   if chatResponse_Error co \<noteq> [] then
                     ([], result, Some (errorFromMessage (Codec_lower cd) (chatResponse_Error co)))
                   else
                     let calls = fromOllamaToolCalls (chatMessage_ToolCalls (chatResponse_Message co));
                         content = chatMessage_Content (chatResponse_Message co);
                         result = result\<lparr>ChatResult_ToolCalls := ChatResult_ToolCalls result @ calls\<rparr>;
                         out = (if content \<noteq> [] \<or> calls \<noteq> [] then [(content, calls)] else [])
                     in if chatResponse_Done co then
                          (out, result\<lparr>ChatResult_PromptTokens := chatResponse_PromptEvalCount co,
                             ChatResult_CompletionTokens := chatResponse_EvalCount co,
                             ChatResult_Tokens := chatResponse_EvalCount co + chatResponse_PromptEvalCount co,
                             ChatResult_DoneReason := chatResponse_DoneReason co\<rparr>, None)
                        else
                          let (more, res) = chat_loop cd rest end result in (out @ more, res)))"

text \<open>
  \<open>marshal\<close> is the error text of encoding the request, if it fails; \<open>serve\<close> is what the server answers
  to a request.
\<close>

definition ChatStream :: "Codec \<Rightarrow> (chatRequest \<Rightarrow> string option) \<Rightarrow> (chatRequest \<Rightarrow> HttpReply) \<Rightarrow> ChatRequest \<Rightarrow>
    emission list \<times> ChatResult \<times> JobError option" where
  "ChatStream cd marshal serve cr =
     (let body = chat_body cr
      in case marshal body of
           Some e \<Rightarrow> ([], zero_ChatResult,
             Some \<lparr>JobError_Code = CodeInvalidRequest, JobError_Message = ''marshal chat request: '' @ e\<rparr>)
         | None \<Rightarrow>
             (case serve body of
                NotBuilt err \<Rightarrow> ([], zero_ChatResult, Some (transportError err ''build chat request''))
              | NotSent err \<Rightarrow> ([], zero_ChatResult, Some (transportError err ''contact ollama''))
              | Answered status b lines end \<Rightarrow>
                  if status \<noteq> 200 then ([], zero_ChatResult, Some (badStatus cd (Answered status b lines end) ''chat''))
                  else chat_loop cd lines end zero_ChatResult))"

text \<open>The prompt path: one user message; the deltas that are not empty are emitted.\<close>

definition Ollama_Chat :: "Codec \<Rightarrow> (chatRequest \<Rightarrow> string option) \<Rightarrow> (chatRequest \<Rightarrow> HttpReply) \<Rightarrow> string \<Rightarrow> string \<Rightarrow>
    string list \<times> uint64 \<times> JobError option" where
  "Ollama_Chat cd marshal serve model prompt =
     (let (out, res, err) = ChatStream cd marshal serve
            \<lparr>ChatRequest_Model = model,
             ChatRequest_Messages = [zero_Message\<lparr>Message_Role := ''user'', Message_Content := prompt\<rparr>],
             ChatRequest_Tools = [], ChatRequest_KeepAlive = None\<rparr>
      in (filter (\<lambda>d. d \<noteq> []) (map fst out), ChatResult_Tokens res, err))"


section \<open>Properties\<close>

lemmas code_defs = CodeModelNotFound_def CodeUnreachable_def CodeOllamaError_def CodeTimeout_def CodeInvalidRequest_def

definition stable_codes :: "string set" where
  "stable_codes = {CodeModelNotFound, CodeUnreachable, CodeOllamaError, CodeTimeout, CodeInvalidRequest}"

lemma failure_codes [simp]:
  "JobError_Code (transportError err op) \<in> stable_codes"
  "JobError_Code (badStatus cd r op) \<in> stable_codes"
  "JobError_Code (errorFromMessage lower msg) \<in> stable_codes"
  "CodeOllamaError \<in> stable_codes" "CodeInvalidRequest \<in> stable_codes"
  by (simp_all add: transportError_def badStatus_def statusError_def errorFromMessage_def stable_codes_def Let_def)

lemma pull_loop_code: "pull_loop cd lines end = Some e \<Longrightarrow> JobError_Code e \<in> stable_codes"
  by (induction cd lines "end" rule: pull_loop.induct) (auto simp: Let_def split: option.splits if_splits sum.splits)

text \<open>What holds of a scan at every stop: the tool calls collected are those emitted, no emission is empty.\<close>

lemma chat_loop_account:
  "chat_loop cd lines end result = (out, res, err) \<Longrightarrow>
   ChatResult_ToolCalls res = ChatResult_ToolCalls result @ concat (map snd out) \<and> ([], []) \<notin> set out \<and>
   (\<forall>e. err = Some e \<longrightarrow> JobError_Code e \<in> stable_codes \<and> ChatResult_Tokens res = ChatResult_Tokens result)"
proof (induction cd lines "end" result arbitrary: out res err rule: chat_loop.induct)
  case (1 cd fin result)
  then show ?case by (auto split: option.splits)
next
  case (2 cd ctx raw rest fin result)
  show ?case
  proof (cases "ctx = None \<and> TrimSpace raw \<noteq> []")
    case False
    then show ?thesis using 2 by (auto simp: Let_def split: option.splits if_splits)
  next
    case True
    then show ?thesis
    proof (cases "Codec_chat cd (TrimSpace raw)")
      case (Inl e)
      then show ?thesis using True "2.prems" by auto
    next
      case (Inr co)
      show ?thesis
        using True Inr "2.prems" "2.IH"(2) [OF _ refl _ Inr _ refl refl refl refl]
        by (auto simp: Let_def split: if_splits prod.splits)
    qed
  qed
qed

lemma ChatStream_account:
  assumes "ChatStream cd marshal serve cr = (out, res, err)"
  shows "ChatResult_ToolCalls res = concat (map snd out)" and "([], []) \<notin> set out"
    and "err = Some e \<Longrightarrow> JobError_Code e \<in> stable_codes \<and> ChatResult_Tokens res = 0"
  using assms chat_loop_account [where result = zero_ChatResult]
  by (fastforce simp: ChatStream_def zero_ChatResult_def Let_def split: option.splits HttpReply.splits if_splits)+

text \<open>
  Every failure of the Ollama client carries one of the five codes of the error contract, whatever the
  server answers: unreachable or cancelled, a status other than 200, a body or a line that does not
  decode, an error reported inside a stream, a stream cut short. A chat that failed reports no tokens;
  and failed or not, the tool calls of its result are those it emitted.
\<close>

theorem ollama_failures_coded:
  "(Ollama_Version cd r = Inl e \<or> Ollama_ListModels cd r = Inl e \<or> Ollama_Pull cd r = Some e \<or>
    Ollama_Unload cd r = Some e \<longrightarrow> JobError_Code e \<in> stable_codes) \<and>
   (case ChatStream cd marshal serve cr of (out, res, err) \<Rightarrow>
      ChatResult_ToolCalls res = concat (map snd out) \<and>
      (err = Some e \<longrightarrow> JobError_Code e \<in> stable_codes \<and> ChatResult_Tokens res = 0))"
proof -
  have "JobError_Code e \<in> stable_codes" if "Ollama_Version cd r = Inl e"
    using that by (auto simp: Ollama_Version_def split: HttpReply.splits sum.splits if_splits)
  moreover have "JobError_Code e \<in> stable_codes" if "Ollama_ListModels cd r = Inl e"
    using that by (auto simp: Ollama_ListModels_def split: HttpReply.splits sum.splits if_splits)
  moreover have "JobError_Code e \<in> stable_codes" if "Ollama_Pull cd r = Some e"
    using that by (auto simp: Ollama_Pull_def split: HttpReply.splits if_splits dest: pull_loop_code)
  moreover have "JobError_Code e \<in> stable_codes" if "Ollama_Unload cd r = Some e"
    using that by (auto simp: Ollama_Unload_def Let_def split: HttpReply.splits if_splits)
  ultimately show ?thesis using ChatStream_account [of cd marshal serve cr] by (auto split: prod.splits)
qed

text \<open>A decoder that knows two lines, and the server that answers with them.\<close>

definition wit_reply :: "string \<Rightarrow> bool \<Rightarrow> chatResponse" where
  "wit_reply text fin = \<lparr>chatResponse_Message = \<lparr>chatMessage_Role = ''assistant'', chatMessage_Content = text,
     chatMessage_ToolCalls = [], chatMessage_ToolName = []\<rparr>, chatResponse_Done = fin, chatResponse_DoneReason = ''stop'',
     chatResponse_EvalCount = 2, chatResponse_PromptEvalCount = 3, chatResponse_Error = []\<rparr>"

definition wit_codec :: Codec where
  "wit_codec = \<lparr>Codec_lower = (\<lambda>s. s), Codec_error = (\<lambda>_. None), Codec_version = Inr, Codec_tags = (\<lambda>_. Inr []),
     Codec_progress = (\<lambda>_. Inl ''bad''),
     Codec_chat = (\<lambda>l. if l = ''d'' then Inr (wit_reply ''hi'' False) else if l = ''e'' then Inr (wit_reply []  True) else Inl ''bad'')\<rparr>"

definition wit_ollama_chat :: ChatRequest where
  "wit_ollama_chat = \<lparr>ChatRequest_Model = ''m'', ChatRequest_Messages = [], ChatRequest_Tools = [], ChatRequest_KeepAlive = None\<rparr>"

theorem ollama_failures_coded_witness:
  "JobError_Code (transportError (OtherNet, ''refused'') ''contact ollama'') \<in> stable_codes"
  using ollama_failures_coded [of wit_codec "NotSent (OtherNet, ''refused'')"
      "transportError (OtherNet, ''refused'') ''contact ollama''" "\<lambda>_. None" "\<lambda>_. NotSent (OtherNet, [])" wit_ollama_chat]
  by (simp add: Ollama_Version_def)

text \<open>What an object of a chat stream contributes to the output.\<close>

definition emission_of :: "chatResponse \<Rightarrow> emission" where
  "emission_of co = (chatMessage_Content (chatResponse_Message co),
     fromOllamaToolCalls (chatMessage_ToolCalls (chatResponse_Message co)))"

definition some_output :: "emission \<Rightarrow> bool" where
  "some_output e \<longleftrightarrow> fst e \<noteq> [] \<or> snd e \<noteq> []"

lemma chat_loop_complete:
  assumes "\<forall>x\<in>set pre. fst x = None"
    and "list_all2 (\<lambda>x co. Codec_chat cd (TrimSpace (snd x)) = Inr co \<and> chatResponse_Error co = [] \<and> \<not> chatResponse_Done co)
      (filter (\<lambda>x. TrimSpace (snd x) \<noteq> []) pre) cos"
    and "TrimSpace l \<noteq> []" and "Codec_chat cd (TrimSpace l) = Inr fin" and "chatResponse_Error fin = []"
    and "chatResponse_Done fin"
  shows "chat_loop cd (pre @ (None, l) # post) end result =
    (filter some_output (map emission_of (cos @ [fin])),
     \<lparr>ChatResult_PromptTokens = chatResponse_PromptEvalCount fin, ChatResult_CompletionTokens = chatResponse_EvalCount fin,
      ChatResult_Tokens = chatResponse_EvalCount fin + chatResponse_PromptEvalCount fin,
      ChatResult_ToolCalls = ChatResult_ToolCalls result @ concat (map (snd \<circ> emission_of) (cos @ [fin])),
      ChatResult_DoneReason = chatResponse_DoneReason fin\<rparr>, None)"
  using assms(1,2)
proof (induction pre arbitrary: cos result)
  case Nil
  then show ?case using assms(3-) by (simp add: Let_def emission_of_def some_output_def)
next
  case (Cons x pre)
  obtain raw where x: "x = (None, raw)" using Cons.prems(1) by (cases x) simp
  show ?case
  proof (cases "TrimSpace raw = []")
    case True
    then show ?thesis using Cons x by simp
  next
    case False
    then obtain co cos' where cos: "cos = co # cos'" using Cons.prems(2) x by (cases cos) simp_all
    have co: "Codec_chat cd (TrimSpace raw) = Inr co" "chatResponse_Error co = []" "\<not> chatResponse_Done co"
      using Cons.prems(2) x False cos by simp_all
    note ih = Cons.IH [of cos' "result\<lparr>ChatResult_ToolCalls := ChatResult_ToolCalls result @ snd (emission_of co)\<rparr>"]
    show ?thesis using ih Cons.prems x False cos co by (simp add: Let_def emission_of_def some_output_def)
  qed
qed

text \<open>
  C26. A chat stream is read to its terminal object and no further. When the server answers with lines that
  decode to error-free objects, blank lines between them, up to the first object marked done, the call
  succeeds: the content and tool calls of every object are emitted in order, objects with neither are
  skipped, the result collects all tool calls and takes the token counts of the terminal object, their
  sum modulo 2^64, and nothing after that object is looked at.
\<close>

theorem chat_stream_complete:
  assumes "marshal (chat_body cr) = None" and "serve (chat_body cr) = Answered 200 b (pre @ (None, l) # post) end"
    and "\<forall>x\<in>set pre. fst x = None"
    and "list_all2 (\<lambda>x co. Codec_chat cd (TrimSpace (snd x)) = Inr co \<and> chatResponse_Error co = [] \<and> \<not> chatResponse_Done co)
      (filter (\<lambda>x. TrimSpace (snd x) \<noteq> []) pre) cos"
    and "TrimSpace l \<noteq> []" and "Codec_chat cd (TrimSpace l) = Inr fin" and "chatResponse_Error fin = []"
    and "chatResponse_Done fin"
  shows "ChatStream cd marshal serve cr =
    (filter some_output (map emission_of (cos @ [fin])),
     \<lparr>ChatResult_PromptTokens = chatResponse_PromptEvalCount fin, ChatResult_CompletionTokens = chatResponse_EvalCount fin,
      ChatResult_Tokens = chatResponse_EvalCount fin + chatResponse_PromptEvalCount fin,
      ChatResult_ToolCalls = concat (map (snd \<circ> emission_of) (cos @ [fin])),
      ChatResult_DoneReason = chatResponse_DoneReason fin\<rparr>, None)"
  using assms(1,2) chat_loop_complete [OF assms(3-)] by (simp add: ChatStream_def zero_ChatResult_def Let_def)

lemma TrimSpace_wit: "TrimSpace ''d'' = ''d''" "TrimSpace ''e'' = ''e''" "TrimSpace [] = []"
  by (simp_all add: TrimSpace_clean clean_plain)

theorem chat_stream_complete_witness:
  "ChatStream wit_codec (\<lambda>_. None) (\<lambda>_. Answered 200 [] [(None, ''d''), (None, []), (None, ''e''), (None, ''junk'')] None) wit_ollama_chat =
    ([(''hi'', [])], \<lparr>ChatResult_PromptTokens = 3, ChatResult_CompletionTokens = 2, ChatResult_Tokens = 5,
      ChatResult_ToolCalls = [], ChatResult_DoneReason = ''stop''\<rparr>, None)"
  using chat_stream_complete [of "\<lambda>_. None" wit_ollama_chat
      "\<lambda>_. Answered 200 [] [(None, ''d''), (None, []), (None, ''e''), (None, ''junk'')] None" "[]"
      "[(None, ''d''), (None, [])]" "''e''" "[(None, ''junk'')]" None wit_codec "[wit_reply ''hi'' False]" "wit_reply [] True"]
  by (simp add: TrimSpace_wit wit_codec_def wit_reply_def emission_of_def some_output_def fromOllamaToolCalls_def)

end
