(* ===== verification/Worker_Agent.thy ===== *)
theory Worker_Agent
  imports Ollama_Client Gpu_Capacity Dispatch "HOL-Library.Sublist"
begin

text \<open>
  The worker process: \<^verbatim>\<open>internal/worker/worker.go\<close> and \<^verbatim>\<open>internal/worker/executor.go\<close>.

  An executor call is a function from what the local Ollama answers to the chunks it emits and the
  result it returns. \<^verbatim>\<open>serve\<close> starts four goroutines (receiver, job worker, pull worker, unload worker)
  beside its own loop; \<open>Serve\<close> holds their positions and the buffered channels between them, and
  \<open>serve_event\<close> is one atomic action of one of them, \<open>None\<close> when that action cannot happen (a full or
  empty channel, a goroutine that is elsewhere). Which branch a \<^verbatim>\<open>select\<close> takes, what the stream and
  Ollama answer and what the GPU probe reports are in the event, so a list of events is one
  interleaving. \<open>Serve_log\<close> and \<open>Serve_received\<close> are history: the executions started and the jobs received.

  Not modelled: \<^verbatim>\<open>Backoff.Delay\<close> (floating point and a random source), dialling, and logging.
\<close>

section \<open>Executors\<close>

datatype Executor = EchoExecutor "Model list" | OllamaExecutor Codec

text \<open>Encoding a chat request, and what the Ollama server answers to it.\<close>

type_synonym chat_server = "(chatRequest \<Rightarrow> string option) \<times> (chatRequest \<Rightarrow> HttpReply)"

definition keepAlive :: "int \<Rightarrow> int option" where
  "keepAlive seconds = (if seconds = 0 then None else Some seconds)"

definition finishReason :: "ChatResult \<Rightarrow> string" where
  "finishReason res =
     (if ChatResult_ToolCalls res \<noteq> [] then ''tool_calls''
      else if ChatResult_DoneReason res = ''length'' then ''length''
      else if ChatResult_DoneReason res = [] \<or> ChatResult_DoneReason res = ''stop'' then ''stop''
      else ChatResult_DoneReason res)"

text \<open>An \<^verbatim>\<open>error\<close> value: a \<^verbatim>\<open>*types.JobError\<close>, nil pointer included, or another error with its text.\<close>

datatype GoError = IsJobError "JobError option" | OtherError string

fun jobError :: "GoError option \<Rightarrow> JobError option" where
  "jobError None = None"
| "jobError (Some (IsJobError (Some je))) = Some je"
| "jobError (Some (IsJobError None)) = Some \<lparr>JobError_Code = CodeOllamaError, JobError_Message = JobError_Error None\<rparr>"
| "jobError (Some (OtherError msg)) = Some \<lparr>JobError_Code = CodeOllamaError, JobError_Message = msg\<rparr>"

definition Echo_Execute :: "Job \<Rightarrow> JobChunk list \<times> JobResult" where
  "Echo_Execute job =
     (let output = ''echo: '' @ Job_Prompt job; tokens = of_nat (length (Fields output))
      in ([zero_JobChunk\<lparr>JobChunk_JobID := Job_ID job, JobChunk_Delta := output\<rparr>],
          zero_JobResult\<lparr>JobResult_JobID := Job_ID job, JobResult_Output := output, JobResult_Tokens := tokens,
            JobResult_CompletionTokens := tokens, JobResult_FinishReason := ''stop''\<rparr>))"

definition Ollama_Execute :: "Codec \<Rightarrow> chat_server \<Rightarrow> Job \<Rightarrow> JobChunk list \<times> JobResult" where
  "Ollama_Execute cd env job =
     (let messages = (if Job_Messages job = [] then [zero_Message\<lparr>Message_Role := ''user'', Message_Content := Job_Prompt job\<rparr>]
                      else Job_Messages job);
          (out, res, err) = ChatStream cd (fst env) (snd env)
            \<lparr>ChatRequest_Model = Job_Model job, ChatRequest_Messages = messages, ChatRequest_Tools = Job_Tools job,
             ChatRequest_KeepAlive = keepAlive (Job_KeepAliveSeconds job)\<rparr>;
          chunks = map (\<lambda>(delta, calls). zero_JobChunk\<lparr>JobChunk_JobID := Job_ID job, JobChunk_Delta := delta,
            JobChunk_ToolCalls := calls\<rparr>) (filter (\<lambda>(delta, calls). delta \<noteq> [] \<or> calls \<noteq> []) out);
          output = concat (map fst out)
      in (chunks,
          if err \<noteq> None then
            zero_JobResult\<lparr>JobResult_JobID := Job_ID job, JobResult_Output := output,
              JobResult_Err := jobError (Some (IsJobError err)), JobResult_Tokens := ChatResult_Tokens res\<rparr>
          else
            \<lparr>JobResult_JobID = Job_ID job, JobResult_Output = output, JobResult_Err = None,
             JobResult_Tokens = ChatResult_Tokens res, JobResult_ToolCalls = ChatResult_ToolCalls res,
             JobResult_FinishReason = finishReason res, JobResult_PromptTokens = ChatResult_PromptTokens res,
             JobResult_CompletionTokens = ChatResult_CompletionTokens res\<rparr>))"

fun Execute :: "Executor \<Rightarrow> chat_server \<Rightarrow> Job \<Rightarrow> JobChunk list \<times> JobResult" where
  "Execute (EchoExecutor ms) env job = Echo_Execute job"
| "Execute (OllamaExecutor cd) env job = Ollama_Execute cd env job"

fun ListModels :: "Executor \<Rightarrow> HttpReply \<Rightarrow> JobError + Model list" where
  "ListModels (EchoExecutor ms) r = Inr ms"
| "ListModels (OllamaExecutor cd) r = Ollama_ListModels cd r"

fun Executor_Pull :: "Executor \<Rightarrow> HttpReply \<Rightarrow> JobError option" where
  "Executor_Pull (EchoExecutor ms) r = None"
| "Executor_Pull (OllamaExecutor cd) r = Ollama_Pull cd r"

fun Executor_Unload :: "Executor \<Rightarrow> HttpReply \<Rightarrow> JobError option" where
  "Executor_Unload (EchoExecutor ms) r = None"
| "Executor_Unload (OllamaExecutor cd) r = Ollama_Unload cd r"

section \<open>Configuration and the worker's caches\<close>

text \<open>A \<^verbatim>\<open>float64\<close> is its bit pattern; both zeroes equal zero.\<close>

record Backoff =
  Backoff_Base :: duration
  Backoff_Max :: duration
  Backoff_Factor :: uint64

definition DefaultBackoff :: Backoff where
  "DefaultBackoff = \<lparr>Backoff_Base = 500000000, Backoff_Max = 30000000000, Backoff_Factor = 0x4000000000000000\<rparr>"

definition zero_backoff :: "Backoff \<Rightarrow> bool" where
  "zero_backoff b \<longleftrightarrow> Backoff_Base b = 0 \<and> Backoff_Max b = 0 \<and>
     (Backoff_Factor b = 0 \<or> Backoff_Factor b = 0x8000000000000000)"

text \<open>\<^verbatim>\<open>Config_Detector\<close> tells whether a capacity detector is configured.\<close>

record Config =
  Config_WorkerID :: string
  Config_Models :: "Model list"
  Config_HeartbeatInterval :: duration
  Config_TotalVRAM :: uint64
  Config_FreeVRAM :: uint64
  Config_GPUType :: string
  Config_Load :: uint32
  Config_Detector :: bool
  Config_Backoff :: Backoff
  Config_Executor :: "Executor option"

definition withDefaults :: "Config \<Rightarrow> Config" where
  "withDefaults c =
     (let c = (if Config_HeartbeatInterval c \<le> 0 then c\<lparr>Config_HeartbeatInterval := 15000000000\<rparr> else c);
          c = (if zero_backoff (Config_Backoff c) then c\<lparr>Config_Backoff := DefaultBackoff\<rparr> else c)
      in if Config_Executor c = None then c\<lparr>Config_Executor := Some (EchoExecutor (Config_Models c))\<rparr> else c)"

record Agent =
  Agent_cfg :: Config
  Agent_models :: "Model list"
  Agent_capacity :: Capacity

definition NewAgent :: "Config \<Rightarrow> Agent" where
  "NewAgent cfg =
     (let cfg = withDefaults cfg
      in \<lparr>Agent_cfg = cfg, Agent_models = Config_Models cfg,
          Agent_capacity = \<lparr>Capacity_Type = Config_GPUType cfg, Capacity_TotalVRAM = Config_TotalVRAM cfg,
            Capacity_FreeVRAM = Config_FreeVRAM cfg, Capacity_Load = Config_Load cfg\<rparr>\<rparr>)"

definition executor :: "Agent \<Rightarrow> Executor" where
  "executor w = (case Config_Executor (Agent_cfg w) of Some e \<Rightarrow> e | None \<Rightarrow> EchoExecutor (Config_Models (Agent_cfg w)))"

text \<open>\<^verbatim>\<open>append([]types.Model(nil), w.models...)\<close> of an empty slice is nil.\<close>

definition currentModels :: "Agent \<Rightarrow> Model slice" where
  "currentModels w = (if Agent_models w = [] then None else Some (Agent_models w))"

definition refreshModels :: "HttpReply \<Rightarrow> Agent \<Rightarrow> Agent" where
  "refreshModels r w =
     (case ListModels (executor w) r of
        Inl err \<Rightarrow> w
      | Inr models \<Rightarrow> w\<lparr>Agent_models := models\<rparr>)"

definition detectCapacity :: "Capacity \<Rightarrow> bool \<Rightarrow> Agent \<Rightarrow> Agent" where
  "detectCapacity cap full w =
     (if \<not> Config_Detector (Agent_cfg w) then w
      else if full then w\<lparr>Agent_capacity := cap\<rparr>
      else w\<lparr>Agent_capacity := (Agent_capacity w)\<lparr>Capacity_FreeVRAM := Capacity_FreeVRAM cap,
        Capacity_Load := Capacity_Load cap\<rparr>\<rparr>)"

text \<open>Only the Ollama executor reports a version; \<open>v\<close> and \<open>tags\<close> are the answers to the two probes.\<close>

definition detectBackend :: "HttpReply \<Rightarrow> HttpReply \<Rightarrow> Agent \<Rightarrow> Agent" where
  "detectBackend v tags w =
     (case executor w of
        EchoExecutor ms \<Rightarrow> refreshModels tags w
      | OllamaExecutor cd \<Rightarrow>
          (case Ollama_Version cd v of
             Inl err \<Rightarrow> w
           | Inr version \<Rightarrow> refreshModels tags w))"

definition heartbeat :: "uint32 \<Rightarrow> Agent \<Rightarrow> pb_Heartbeat" where
  "heartbeat activeJobs w = Heartbeat_Proto
     \<lparr>Heartbeat_WorkerID = Config_WorkerID (Agent_cfg w), Heartbeat_ActiveJobs = activeJobs,
      Heartbeat_TotalVRAM = Capacity_TotalVRAM (Agent_capacity w),
      Heartbeat_FreeVRAM = Capacity_FreeVRAM (Agent_capacity w),
      Heartbeat_Load = Capacity_Load (Agent_capacity w), Heartbeat_GPUType = Capacity_Type (Agent_capacity w),
      Heartbeat_AvailableModels = currentModels w\<rparr>"

section \<open>The connect loop\<close>

definition Run_startup :: "HttpReply \<Rightarrow> HttpReply \<Rightarrow> Capacity \<Rightarrow> Agent \<Rightarrow> Agent" where
  "Run_startup v tags cap w = detectCapacity cap True (detectBackend v tags w)"

text \<open>
  The attempt numbers the successive delays are computed from; each connection either registered,
  which resets the count, or did not.
\<close>

primrec Run_attempts :: "nat \<Rightarrow> bool list \<Rightarrow> nat list" where
  "Run_attempts attempt [] = []"
| "Run_attempts attempt (registered # rest) =
     (let attempt = (if registered then 0 else attempt) in attempt # Run_attempts (attempt + 1) rest)"

definition register_message :: "Agent \<Rightarrow> WorkerPayload" where
  "register_message w = WPRegister (Config_WorkerID (Agent_cfg w)) (ModelsToProto (currentModels w))"

text \<open>The answer to the registration must be an acknowledgement.\<close>

definition handshake :: "ServerMsg option \<Rightarrow> string option" where
  "handshake ack = (case ack of Some (MsgRegisterAck session) \<Rightarrow> Some session | _ \<Rightarrow> None)"


section \<open>Serving one connection\<close>

datatype Receiver = Receiving | HoldJob Job | HoldPull string | HoldUnload string | ReceiverGone

text \<open>The job worker: what is still to be emitted of the running job, the terminal chunk last.\<close>

datatype Runner = RunnerIdle | Running Job "JobChunk list" | RunnerGone

datatype Helper = HelperIdle | HelperBusy string | HelperGone

datatype RecvEnd = RecvEOF | RecvError string

datatype ServeEnd = EndNil | EndRecv string | EndSend | EndShutdown

datatype SendLoop = Looping | Leaving | Returned ServeEnd

record Serve =
  Serve_agent :: Agent
  Serve_jobs :: "Job list"
  Serve_pulls :: "string list"
  Serve_unloads :: "string list"
  Serve_chunks :: "JobChunk list"
  Serve_recv :: Receiver
  Serve_recvErr :: "RecvEnd option"
  Serve_runner :: Runner
  Serve_puller :: Helper
  Serve_unloader :: Helper
  Serve_activeJobs :: uint32
  Serve_loop :: SendLoop
  Serve_connDone :: bool
  Serve_sent :: "WorkerPayload list"
  Serve_log :: "(Job \<times> JobChunk list \<times> JobResult) list"
  Serve_received :: "Job list"

definition serve_start :: "Agent \<Rightarrow> Serve" where
  "serve_start w = \<lparr>Serve_agent = w, Serve_jobs = [], Serve_pulls = [], Serve_unloads = [], Serve_chunks = [],
     Serve_recv = Receiving, Serve_recvErr = None, Serve_runner = RunnerIdle, Serve_puller = HelperIdle,
     Serve_unloader = HelperIdle, Serve_activeJobs = 0, Serve_loop = Looping, Serve_connDone = False,
     Serve_sent = [], Serve_log = [], Serve_received = []\<rparr>"

definition chunkBuffer :: nat where "chunkBuffer = 64"
definition jobBuffer :: nat where "jobBuffer = 8"

text \<open>The receiver: one \<^verbatim>\<open>Recv\<close>, then a send on the channel of the message, which may block.\<close>

definition receive :: "ServerMsg \<Rightarrow> Serve \<Rightarrow> Serve option" where
  "receive msg s =
     (if Serve_recv s \<noteq> Receiving \<or> Serve_connDone s then None
      else case msg of
          MsgJob p \<Rightarrow> Some (s\<lparr>Serve_recv := HoldJob (JobFromProto (Some p)),
            Serve_received := Serve_received s @ [JobFromProto (Some p)]\<rparr>)
        | MsgPullModel m \<Rightarrow> Some (s\<lparr>Serve_recv := HoldPull m\<rparr>)
        | MsgUnloadModel m \<Rightarrow> Some (s\<lparr>Serve_recv := HoldUnload m\<rparr>)
        | MsgRegisterAck sid \<Rightarrow> Some s)"

definition receive_error :: "RecvEnd \<Rightarrow> Serve \<Rightarrow> Serve option" where
  "receive_error err s =
     (if Serve_recv s \<noteq> Receiving then None
      else Some (s\<lparr>Serve_recv := ReceiverGone, Serve_recvErr := Some err\<rparr>))"

definition receive_put :: "Serve \<Rightarrow> Serve option" where
  "receive_put s =
     (case Serve_recv s of
        HoldJob j \<Rightarrow> if length (Serve_jobs s) < jobBuffer
          then Some (s\<lparr>Serve_jobs := Serve_jobs s @ [j], Serve_recv := Receiving\<rparr>) else None
      | HoldPull m \<Rightarrow> if length (Serve_pulls s) < jobBuffer
          then Some (s\<lparr>Serve_pulls := Serve_pulls s @ [m], Serve_recv := Receiving\<rparr>) else None
      | HoldUnload m \<Rightarrow> if length (Serve_unloads s) < jobBuffer
          then Some (s\<lparr>Serve_unloads := Serve_unloads s @ [m], Serve_recv := Receiving\<rparr>) else None
      | _ \<Rightarrow> None)"

text \<open>The job worker. The terminal chunk repeats everything of the result but its output.\<close>

definition terminal_chunk :: "Job \<Rightarrow> JobResult \<Rightarrow> JobChunk" where
  "terminal_chunk job res = zero_JobChunk\<lparr>JobChunk_JobID := Job_ID job, JobChunk_Done := True,
     JobChunk_Err := JobResult_Err res, JobChunk_Tokens := JobResult_Tokens res,
     JobChunk_ToolCalls := JobResult_ToolCalls res, JobChunk_FinishReason := JobResult_FinishReason res,
     JobChunk_PromptTokens := JobResult_PromptTokens res,
     JobChunk_CompletionTokens := JobResult_CompletionTokens res\<rparr>"

definition job_chunks :: "Job \<times> JobChunk list \<times> JobResult \<Rightarrow> JobChunk list" where
  "job_chunks e = fst (snd e) @ [terminal_chunk (fst e) (snd (snd e))]"

definition take_job :: "chat_server \<Rightarrow> Serve \<Rightarrow> Serve option" where
  "take_job env s =
     (case (Serve_runner s, Serve_jobs s) of
        (RunnerIdle, job # rest) \<Rightarrow>
          let e = (job, Execute (executor (Serve_agent s)) env job)
          in Some (s\<lparr>Serve_jobs := rest, Serve_activeJobs := Serve_activeJobs s + 1,
                    Serve_runner := Running job (job_chunks e), Serve_log := Serve_log s @ [e]\<rparr>)
      | _ \<Rightarrow> None)"

text \<open>\<^verbatim>\<open>emit\<close>: a send on the chunk channel, given up once the connection is done (\<open>dropped\<close>).\<close>

definition emit_chunk :: "bool \<Rightarrow> Serve \<Rightarrow> Serve option" where
  "emit_chunk dropped s =
     (case Serve_runner s of
        Running job (c # cs) \<Rightarrow>
          if dropped then
            (if Serve_connDone s then Some (s\<lparr>Serve_runner := Running job cs\<rparr>) else None)
          else if length (Serve_chunks s) < chunkBuffer then
            Some (s\<lparr>Serve_runner := Running job cs, Serve_chunks := Serve_chunks s @ [c]\<rparr>)
          else None
      | _ \<Rightarrow> None)"

definition job_done :: "Serve \<Rightarrow> Serve option" where
  "job_done s =
     (case Serve_runner s of
        Running job [] \<Rightarrow> Some (s\<lparr>Serve_runner := RunnerIdle, Serve_activeJobs := Serve_activeJobs s - 1\<rparr>)
      | _ \<Rightarrow> None)"

definition runner_exit :: "Serve \<Rightarrow> Serve option" where
  "runner_exit s =
     (if Serve_runner s = RunnerIdle \<and> Serve_connDone s then Some (s\<lparr>Serve_runner := RunnerGone\<rparr>) else None)"

text \<open>The pull and unload workers.\<close>

definition pull_take :: "Serve \<Rightarrow> Serve option" where
  "pull_take s =
     (case (Serve_puller s, Serve_pulls s) of
        (HelperIdle, m # rest) \<Rightarrow> Some (s\<lparr>Serve_puller := HelperBusy m, Serve_pulls := rest\<rparr>)
      | _ \<Rightarrow> None)"

definition pull_finish :: "HttpReply \<Rightarrow> HttpReply \<Rightarrow> Serve \<Rightarrow> Serve option" where
  "pull_finish r tags s =
     (case Serve_puller s of
        HelperBusy m \<Rightarrow>
          let s = s\<lparr>Serve_puller := HelperIdle\<rparr>
          in (case Executor_Pull (executor (Serve_agent s)) r of
                Some err \<Rightarrow> Some s
              | None \<Rightarrow> Some (s\<lparr>Serve_agent := refreshModels tags (Serve_agent s)\<rparr>))
      | _ \<Rightarrow> None)"

definition pull_exit :: "Serve \<Rightarrow> Serve option" where
  "pull_exit s =
     (if Serve_puller s = HelperIdle \<and> Serve_connDone s then Some (s\<lparr>Serve_puller := HelperGone\<rparr>) else None)"

definition unload_take :: "Serve \<Rightarrow> Serve option" where
  "unload_take s =
     (case (Serve_unloader s, Serve_unloads s) of
        (HelperIdle, m # rest) \<Rightarrow> Some (s\<lparr>Serve_unloader := HelperBusy m, Serve_unloads := rest\<rparr>)
      | _ \<Rightarrow> None)"

text \<open>A failed unload is logged and dropped, a successful one is logged.\<close>

definition unload_finish :: "HttpReply \<Rightarrow> Serve \<Rightarrow> Serve option" where
  "unload_finish r s =
     (case Serve_unloader s of
        HelperBusy m \<Rightarrow>
          (case Executor_Unload (executor (Serve_agent s)) r of
             Some err \<Rightarrow> Some (s\<lparr>Serve_unloader := HelperIdle\<rparr>)
           | None \<Rightarrow> Some (s\<lparr>Serve_unloader := HelperIdle\<rparr>))
      | _ \<Rightarrow> None)"

definition unload_exit :: "Serve \<Rightarrow> Serve option" where
  "unload_exit s =
     (if Serve_unloader s = HelperIdle \<and> Serve_connDone s then Some (s\<lparr>Serve_unloader := HelperGone\<rparr>) else None)"

text \<open>
  The loop of \<^verbatim>\<open>serve\<close>, the only sender on the stream; \<open>ok\<close> tells whether the send succeeded. When it
  returns, the deferred calls of \<^verbatim>\<open>runOnce\<close> close the connection and cancel its context.
\<close>

definition serve_return :: "ServeEnd \<Rightarrow> Serve \<Rightarrow> Serve" where
  "serve_return e s = s\<lparr>Serve_loop := Returned e, Serve_connDone := True\<rparr>"

definition send_payload :: "bool \<Rightarrow> WorkerPayload \<Rightarrow> Serve \<Rightarrow> Serve" where
  "send_payload ok p s =
     (if ok then s\<lparr>Serve_sent := Serve_sent s @ [p]\<rparr> else serve_return EndSend s)"

definition sendHeartbeat :: "HttpReply \<Rightarrow> Capacity \<Rightarrow> bool \<Rightarrow> Serve \<Rightarrow> Serve option" where
  "sendHeartbeat tags cap ok s =
     (if Serve_loop s \<noteq> Looping then None
      else
        let w = detectCapacity cap False (refreshModels tags (Serve_agent s))
        in Some (send_payload ok (WPHeartbeat (Some (heartbeat (Serve_activeJobs s) w))) (s\<lparr>Serve_agent := w\<rparr>)))"

definition send_chunk :: "bool \<Rightarrow> Serve \<Rightarrow> Serve option" where
  "send_chunk ok s =
     (case (Serve_loop s, Serve_chunks s) of
        (Looping, c # rest) \<Rightarrow> Some (send_payload ok (WPChunk (Some (JobChunk_Proto c))) (s\<lparr>Serve_chunks := rest\<rparr>))
      | _ \<Rightarrow> None)"

definition stream_ended :: "Serve \<Rightarrow> Serve option" where
  "stream_ended s =
     (case (Serve_loop s, Serve_recvErr s) of
        (Looping, Some RecvEOF) \<Rightarrow> Some (serve_return EndNil (s\<lparr>Serve_recvErr := None\<rparr>))
      | (Looping, Some (RecvError e)) \<Rightarrow> Some (serve_return (EndRecv e) (s\<lparr>Serve_recvErr := None\<rparr>))
      | _ \<Rightarrow> None)"

text \<open>
  Graceful shutdown: announce the departure, half-close, then wait for the server's side to end or for
  the timer (\<open>deregister_wait\<close>); \<open>ok\<close> is false when the send or the half-close failed.
\<close>

definition deregister :: "bool \<Rightarrow> bool \<Rightarrow> Serve \<Rightarrow> Serve option" where
  "deregister sent closed s =
     (if Serve_loop s \<noteq> Looping then None
      else if \<not> sent then Some (serve_return EndShutdown s)
      else
        let s = s\<lparr>Serve_sent := Serve_sent s @ [WPDeregister]\<rparr>
        in if \<not> closed then Some (serve_return EndShutdown s) else Some (s\<lparr>Serve_loop := Leaving\<rparr>))"

definition deregister_wait :: "bool \<Rightarrow> Serve \<Rightarrow> Serve option" where
  "deregister_wait timer s =
     (if Serve_loop s = Leaving \<and> (timer \<or> Serve_recvErr s \<noteq> None) then Some (serve_return EndShutdown s) else None)"

datatype ServeEvent =
    EvReceive ServerMsg | EvReceiveErr RecvEnd | EvPut
  | EvTakeJob chat_server | EvEmit bool | EvJobDone | EvRunnerExit
  | EvPullTake | EvPullFinish HttpReply HttpReply | EvPullExit
  | EvUnloadTake | EvUnloadFinish HttpReply | EvUnloadExit
  | EvTick HttpReply Capacity bool | EvSendChunk bool | EvStreamEnded | EvShutdown bool bool | EvLeave bool

primrec serve_event :: "ServeEvent \<Rightarrow> Serve \<Rightarrow> Serve option" where
  "serve_event (EvReceive msg) s = receive msg s"
| "serve_event (EvReceiveErr err) s = receive_error err s"
| "serve_event EvPut s = receive_put s"
| "serve_event (EvTakeJob env) s = take_job env s"
| "serve_event (EvEmit dropped) s = emit_chunk dropped s"
| "serve_event EvJobDone s = job_done s"
| "serve_event EvRunnerExit s = runner_exit s"
| "serve_event EvPullTake s = pull_take s"
| "serve_event (EvPullFinish r tags) s = pull_finish r tags s"
| "serve_event EvPullExit s = pull_exit s"
| "serve_event EvUnloadTake s = unload_take s"
| "serve_event (EvUnloadFinish r) s = unload_finish r s"
| "serve_event EvUnloadExit s = unload_exit s"
| "serve_event (EvTick tags cap ok) s = sendHeartbeat tags cap ok s"
| "serve_event (EvSendChunk ok) s = send_chunk ok s"
| "serve_event EvStreamEnded s = stream_ended s"
| "serve_event (EvShutdown sent closed) s = deregister sent closed s"
| "serve_event (EvLeave timer) s = deregister_wait timer s"

text \<open>An interleaving: every event in turn, \<open>None\<close> when one of them cannot happen.\<close>

primrec serve_run :: "ServeEvent list \<Rightarrow> Serve \<Rightarrow> Serve option" where
  "serve_run [] s = Some s"
| "serve_run (e # es) s = (case serve_event e s of None \<Rightarrow> None | Some s' \<Rightarrow> serve_run es s')"


section \<open>The contract of an executor\<close>

text \<open>
  What the job worker and the server rely on: deltas carry the job's id and are not terminal, and they
  add up to the output of the result.
\<close>

locale execution =
  fixes exec :: "Job \<Rightarrow> JobChunk list \<times> JobResult"
  assumes exec_chunk: "c \<in> set (fst (exec job)) \<Longrightarrow> JobChunk_JobID c = Job_ID job \<and> \<not> JobChunk_Done c"
    and exec_output: "concat (map JobChunk_Delta (fst (exec job))) = JobResult_Output (snd (exec job))"
    and exec_JobID: "JobResult_JobID (snd (exec job)) = Job_ID job"

text \<open>What the server hands to the waiter for a result: the output is dropped when there is an error.\<close>

definition delivered :: "JobResult \<Rightarrow> JobResult" where
  "delivered res = (if JobResult_Err res = None then res else res\<lparr>JobResult_Output := []\<rparr>)"

context execution
begin

lemma terminal_result:
  "chunk_result (concat (map JobChunk_Delta (fst (exec job))) @ JobChunk_Delta (terminal_chunk job (snd (exec job))))
     (terminal_chunk job (snd (exec job))) = delivered (snd (exec job))"
  by (rule JobResult.equality)
    (simp_all add: chunk_result_def terminal_chunk_def delivered_def zero_JobChunk_def exec_output exec_JobID Let_def)

lemma job_chunks_shape:
  "\<forall>c\<in>set (job_chunks (job, exec job)). JobChunk_JobID c = Job_ID job"
  "filter JobChunk_Done (job_chunks (job, exec job)) = [terminal_chunk job (snd (exec job))]"
  using exec_chunk by (auto simp: job_chunks_def terminal_chunk_def intro!: filter_False)

end

lemma Echo_execution: "execution Echo_Execute"
  by unfold_locales (auto simp: Echo_Execute_def Let_def zero_JobChunk_def zero_JobResult_def)

lemma concat_nonempty: "concat (map fst (filter (\<lambda>e. fst e \<noteq> [] \<or> P e) xs)) = concat (map fst xs)"
  by (induction xs) auto

lemma Ollama_execution: "execution (Ollama_Execute cd env)"
proof
  fix c job
  show "JobChunk_JobID c = Job_ID job \<and> \<not> JobChunk_Done c" if "c \<in> set (fst (Ollama_Execute cd env job))"
    using that by (auto simp: Ollama_Execute_def Let_def zero_JobChunk_def split: prod.splits)
  show "concat (map JobChunk_Delta (fst (Ollama_Execute cd env job))) = JobResult_Output (snd (Ollama_Execute cd env job))"
    using concat_nonempty [where P = "\<lambda>e. snd e \<noteq> []"]
    by (auto simp: Ollama_Execute_def Let_def zero_JobChunk_def zero_JobResult_def o_def case_prod_unfold)
  show "JobResult_JobID (snd (Ollama_Execute cd env job)) = Job_ID job"
    by (auto simp: Ollama_Execute_def Let_def zero_JobResult_def split: prod.splits)
qed

lemma Execute_execution: "execution (Execute e env)"
proof (cases e)
  case (EchoExecutor ms)
  then have "Execute e env = Echo_Execute" by (intro ext) simp
  then show ?thesis by (simp add: Echo_execution)
next
  case (OllamaExecutor cd)
  then have "Execute e env = Ollama_Execute cd env" by (intro ext) simp
  then show ?thesis by (simp add: Ollama_execution)
qed

interpretation ex: execution "Execute e env" for e env
  by (rule Execute_execution)

section \<open>The pipeline from the stream to the stream\<close>

fun payload_chunks :: "WorkerPayload \<Rightarrow> JobChunk list" where
  "payload_chunks (WPChunk k) = [JobChunkFromProto k]"
| "payload_chunks _ = []"

fun serve_payload :: "WorkerPayload \<Rightarrow> bool" where
  "serve_payload (WPHeartbeat _) = True"
| "serve_payload (WPChunk _) = True"
| "serve_payload WPDeregister = True"
| "serve_payload _ = False"

definition sent_chunks :: "Serve \<Rightarrow> JobChunk list" where
  "sent_chunks s = concat (map payload_chunks (Serve_sent s))"

fun runner_rest :: "Runner \<Rightarrow> JobChunk list" where
  "runner_rest (Running job cs) = cs"
| "runner_rest _ = []"

fun held_job :: "Receiver \<Rightarrow> Job list" where
  "held_job (HoldJob j) = [j]"
| "held_job _ = []"

fun is_running :: "Runner \<Rightarrow> bool" where
  "is_running (Running _ _) = True"
| "is_running _ = False"

text \<open>Nothing is lost while the connection lives; after its end what was sent is a prefix.\<close>

definition chunks_flow :: "Serve \<Rightarrow> bool" where
  "chunks_flow s \<longleftrightarrow>
     (if Serve_connDone s then prefix (sent_chunks s) (concat (map job_chunks (Serve_log s)))
      else sent_chunks s @ Serve_chunks s @ runner_rest (Serve_runner s) = concat (map job_chunks (Serve_log s)))"

definition jobs_flow :: "Serve \<Rightarrow> bool" where
  "jobs_flow s \<longleftrightarrow> map fst (Serve_log s) @ Serve_jobs s @ held_job (Serve_recv s) = Serve_received s"

definition executed :: "Serve \<Rightarrow> bool" where
  "executed s \<longleftrightarrow> (\<forall>x\<in>set (Serve_log s). \<exists>e env. snd x = Execute e env (fst x))"

definition bounded :: "Serve \<Rightarrow> bool" where
  "bounded s \<longleftrightarrow> length (Serve_chunks s) \<le> chunkBuffer \<and> length (Serve_jobs s) \<le> jobBuffer \<and>
     length (Serve_pulls s) \<le> jobBuffer \<and> length (Serve_unloads s) \<le> jobBuffer"

fun is_returned :: "SendLoop \<Rightarrow> bool" where
  "is_returned (Returned _) = True"
| "is_returned _ = False"

definition accounted :: "Serve \<Rightarrow> bool" where
  "accounted s \<longleftrightarrow> Serve_activeJobs s = (if is_running (Serve_runner s) then 1 else 0) \<and>
     Serve_connDone s = is_returned (Serve_loop s) \<and> list_all serve_payload (Serve_sent s)"

definition serve_inv :: "Serve \<Rightarrow> bool" where
  "serve_inv s \<longleftrightarrow> chunks_flow s \<and> jobs_flow s \<and> executed s \<and> bounded s \<and> accounted s"

lemmas serve_defs = receive_def receive_error_def receive_put_def take_job_def emit_chunk_def job_done_def
  runner_exit_def pull_take_def pull_finish_def pull_exit_def unload_take_def unload_finish_def unload_exit_def
  sendHeartbeat_def send_chunk_def stream_ended_def deregister_def deregister_wait_def send_payload_def
  serve_return_def Let_def

lemmas serve_splits = if_splits option.splits list.splits prod.splits Receiver.splits Runner.splits Helper.splits
  SendLoop.splits RecvEnd.splits ServerMsg.splits

lemma chunks_flow_prefix: "chunks_flow s \<Longrightarrow> prefix (sent_chunks s) (concat (map job_chunks (Serve_log s)))"
  unfolding chunks_flow_def by (metis prefixI)

lemma serve_event_done:
  assumes "serve_event e s = Some s'" "Serve_connDone s'" "accounted s"
  shows "sent_chunks s' = sent_chunks s \<and> prefix (Serve_log s) (Serve_log s')"
  using assms by (cases e) (auto simp: serve_defs sent_chunks_def accounted_def split: serve_splits)

lemma serve_event_live:
  assumes "serve_event e s = Some s'" "\<not> Serve_connDone s'" "chunks_flow s"
  shows "chunks_flow s'"
  using assms
  by (cases e) (auto simp: serve_defs chunks_flow_def sent_chunks_def JobChunk_wire split: serve_splits)

lemma serve_event_chunks:
  assumes "serve_event e s = Some s'" "chunks_flow s" "accounted s"
  shows "chunks_flow s'"
proof (cases "Serve_connDone s'")
  case True
  then obtain more where "sent_chunks s' = sent_chunks s" "Serve_log s' = Serve_log s @ more"
    using serve_event_done [OF assms(1) _ assms(3)] unfolding prefix_def by blast
  then show ?thesis using True chunks_flow_prefix [OF assms(2)] by (simp add: chunks_flow_def prefix_prefix)
next
  case False
  then show ?thesis using serve_event_live assms by blast
qed

lemma serve_event_jobs:
  assumes "serve_event e s = Some s'" "jobs_flow s"
  shows "jobs_flow s'"
  using assms by (cases e) (auto simp: serve_defs jobs_flow_def split: serve_splits)

lemma serve_event_executed:
  assumes "serve_event e s = Some s'" "executed s"
  shows "executed s'"
proof -
  have "Serve_log s' = Serve_log s \<or>
      (\<exists>job ex env. Serve_log s' = Serve_log s @ [(job, Execute ex env job)])"
    using assms(1) by (cases e) (auto simp: serve_defs split: serve_splits, blast)
  then show ?thesis using assms(2) unfolding executed_def by fastforce
qed

lemma serve_event_bounded:
  assumes "serve_event e s = Some s'" "bounded s"
  shows "bounded s'"
  using assms unfolding bounded_def by (cases e) (simp_all add: serve_defs split: serve_splits, auto)

lemma serve_event_active:
  assumes "serve_event e s = Some s'" "Serve_activeJobs s = (if is_running (Serve_runner s) then 1 else 0)"
  shows "Serve_activeJobs s' = (if is_running (Serve_runner s') then 1 else 0)"
  using assms by (cases e) (auto simp: serve_defs split: serve_splits)

lemma serve_event_returned:
  assumes "serve_event e s = Some s'" "Serve_connDone s = is_returned (Serve_loop s)"
  shows "Serve_connDone s' = is_returned (Serve_loop s')"
  using assms by (cases e) (auto simp: serve_defs split: serve_splits)

lemma serve_event_payloads:
  assumes "serve_event e s = Some s'" "list_all serve_payload (Serve_sent s)"
  shows "list_all serve_payload (Serve_sent s')"
  using assms by (cases e) (auto simp: serve_defs split: serve_splits)

lemma serve_event_accounted: "serve_event e s = Some s' \<Longrightarrow> accounted s \<Longrightarrow> accounted s'"
  unfolding accounted_def using serve_event_active serve_event_returned serve_event_payloads by blast

lemma serve_run_inv: "serve_run es s = Some s' \<Longrightarrow> serve_inv s \<Longrightarrow> serve_inv s'"
proof (induction es arbitrary: s)
  case Nil
  then show ?case by simp
next
  case (Cons e es)
  then obtain t where t: "serve_event e s = Some t" "serve_run es t = Some s'" by (auto split: option.splits)
  then have "serve_inv t" using Cons.prems(2) serve_event_chunks serve_event_jobs serve_event_executed
      serve_event_bounded serve_event_accounted unfolding serve_inv_def by blast
  then show ?case using Cons.IH t(2) by blast
qed

lemma serve_start_inv: "serve_inv (serve_start w)"
  by (simp add: serve_inv_def chunks_flow_def jobs_flow_def executed_def bounded_def accounted_def serve_start_def sent_chunks_def)


section \<open>Properties\<close>

text \<open>The parts of the invariant, for a run from the start.\<close>

lemma pipeline_facts:
  assumes "serve_run evs (serve_start w) = Some s"
  shows "prefix (map fst (Serve_log s)) (Serve_received s)"
    and "\<forall>x\<in>set (Serve_log s). \<exists>e env. snd x = Execute e env (fst x)"
    and "prefix (sent_chunks s) (concat (map job_chunks (Serve_log s)))"
    and "\<not> is_returned (Serve_loop s) \<Longrightarrow>
      sent_chunks s @ Serve_chunks s @ runner_rest (Serve_runner s) = concat (map job_chunks (Serve_log s))"
    and "length (Serve_chunks s) \<le> 64" and "length (Serve_jobs s) \<le> 8"
    and "Serve_activeJobs s = (if is_running (Serve_runner s) then 1 else 0)"
proof -
  have inv: "chunks_flow s" "jobs_flow s" "executed s" "bounded s" "accounted s"
    using serve_run_inv [OF assms serve_start_inv] by (simp_all add: serve_inv_def)
  show "prefix (map fst (Serve_log s)) (Serve_received s)" using inv(2) unfolding jobs_flow_def by (metis prefixI)
  show "\<forall>x\<in>set (Serve_log s). \<exists>e env. snd x = Execute e env (fst x)" using inv(3) unfolding executed_def .
  show "prefix (sent_chunks s) (concat (map job_chunks (Serve_log s)))" using chunks_flow_prefix inv(1) .
  show "\<not> is_returned (Serve_loop s) \<Longrightarrow>
      sent_chunks s @ Serve_chunks s @ runner_rest (Serve_runner s) = concat (map job_chunks (Serve_log s))"
    using inv(1,5) by (simp add: chunks_flow_def accounted_def)
  show "length (Serve_chunks s) \<le> 64" "length (Serve_jobs s) \<le> 8"
    using inv(4) by (simp_all add: bounded_def chunkBuffer_def jobBuffer_def)
  show "Serve_activeJobs s = (if is_running (Serve_runner s) then 1 else 0)" using inv(5) by (simp add: accounted_def)
qed

text \<open>
  C13. A worker process executes what it receives in the order it receives it and reports it in that order.
  After any interleaving of its goroutines on a connection, the jobs started are the first ones received,
  each run by an executor, and the chunks sent to the server are a prefix of the deltas and the terminal
  chunk of the first job, then of the second, and so on. While the loop has not returned nothing is lost
  between the executor and the stream: the sent chunks, the buffered ones and those the job worker still
  has to emit are exactly those of the jobs started. The buffers stay within their capacities and the
  active-job counter is one exactly while a job is executing.
\<close>

theorem worker_pipeline:
  assumes "serve_run evs (serve_start w) = Some s"
  shows "prefix (map fst (Serve_log s)) (Serve_received s) \<and>
    (\<forall>x\<in>set (Serve_log s). \<exists>e env. snd x = Execute e env (fst x)) \<and>
    prefix (sent_chunks s) (concat (map job_chunks (Serve_log s))) \<and>
    (\<not> is_returned (Serve_loop s) \<longrightarrow>
      sent_chunks s @ Serve_chunks s @ runner_rest (Serve_runner s) = concat (map job_chunks (Serve_log s))) \<and>
    length (Serve_chunks s) \<le> 64 \<and> length (Serve_jobs s) \<le> 8 \<and>
    Serve_activeJobs s = (if is_running (Serve_runner s) then 1 else 0)"
  using pipeline_facts [OF assms] by blast

text \<open>
  A worker with the echo executor, a job, and the interleaving in which it is received, executed and
  reported.
\<close>

definition wit_agent :: Agent where
  "wit_agent = NewAgent \<lparr>Config_WorkerID = ''w1'', Config_Models = [\<lparr>Model_Name = ''m'', Model_Digest = []\<rparr>],
     Config_HeartbeatInterval = 0, Config_TotalVRAM = 8, Config_FreeVRAM = 4, Config_GPUType = ''g'', Config_Load = 0,
     Config_Detector = False, Config_Backoff = DefaultBackoff, Config_Executor = None\<rparr>"

definition wit_agent_job :: "string \<Rightarrow> Job" where
  "wit_agent_job i = zero_Job\<lparr>Job_ID := i, Job_Model := ''m'', Job_Prompt := ''hi''\<rparr>"

definition wit_env :: chat_server where
  "wit_env = (\<lambda>_. None, \<lambda>_. NotSent (OtherNet, ''refused''))"

definition wit_serve_events :: "ServeEvent list" where
  "wit_serve_events = [EvReceive (MsgJob (Job_Proto (wit_agent_job ''a''))), EvPut, EvTakeJob wit_env, EvEmit False,
     EvSendChunk True, EvEmit False, EvTick (NotSent (OtherNet, [])) cpuFallback True, EvSendChunk True, EvJobDone]"

lemmas wit_agent_defs = wit_agent_def NewAgent_def withDefaults_def zero_backoff_def DefaultBackoff_def executor_def
  wit_agent_job_def wit_env_def zero_Job_def

lemma wit_serve_run:
  "\<exists>s. serve_run wit_serve_events (serve_start wit_agent) = Some s \<and> \<not> is_returned (Serve_loop s) \<and>
     Serve_chunks s = [] \<and> Serve_runner s = RunnerIdle \<and> Serve_log s = [(wit_agent_job ''a'', Echo_Execute (wit_agent_job ''a''))]"
  by (simp add: wit_serve_events_def serve_start_def serve_defs wit_agent_defs wire_simps job_chunks_def
      Echo_Execute_def chunkBuffer_def jobBuffer_def detectCapacity_def refreshModels_def)

theorem worker_pipeline_witness:
  "\<exists>s. serve_run wit_serve_events (serve_start wit_agent) = Some s \<and>
     sent_chunks s = job_chunks (wit_agent_job ''a'', Echo_Execute (wit_agent_job ''a''))"
  using wit_serve_run worker_pipeline [of wit_serve_events wit_agent] by fastforce

text \<open>
  C36. What the fleet shows of a worker is what its last heartbeat said, with one exception. After the server
  has applied a heartbeat, the snapshot it schedules from carries the worker process's capacity and
  active-job count, and its model list when that is not empty. An empty list crosses the wire as an
  absent one, so the server keeps the models it knew: a worker that lost its last model stays advertised
  with it.
\<close>

theorem heartbeat_reaches_fleet:
  "let snap = snapshot now timeout (applyHeartbeat (HeartbeatFromProto (Some (heartbeat n w))) now sw)
   in Worker_TotalVRAM snap = Capacity_TotalVRAM (Agent_capacity w) \<and>
      Worker_FreeVRAM snap = Capacity_FreeVRAM (Agent_capacity w) \<and>
      Worker_Load snap = Capacity_Load (Agent_capacity w) \<and> Worker_GPUType snap = Capacity_Type (Agent_capacity w) \<and>
      Worker_ActiveJobs snap = n \<and> Worker_LastSeen snap = now \<and>
      Worker_Models snap = (if Agent_models w = [] then Worker_Models (snapshot now timeout sw) else Agent_models w)"
  by (simp add: heartbeat_def wire_simps applyHeartbeat_def snapshot_def currentModels_def slice_elems_def Let_def)

text \<open>Nine jobs before the first is started, then a failed send: the receiver is left holding the ninth.\<close>

definition leak_events :: "ServeEvent list" where
  "leak_events = concat (replicate 8 [EvReceive (MsgJob (Job_Proto (wit_agent_job ''a''))), EvPut]) @
     [EvReceive (MsgJob (Job_Proto (wit_agent_job ''a''))), EvTick (NotSent (OtherNet, [])) cpuFallback False, EvRunnerExit]"

fun holds_job :: "Receiver \<Rightarrow> bool" where
  "holds_job (HoldJob _) = True"
| "holds_job _ = False"

definition stuck :: "Serve \<Rightarrow> bool" where
  "stuck s \<longleftrightarrow> holds_job (Serve_recv s) \<and> jobBuffer \<le> length (Serve_jobs s) \<and> Serve_runner s = RunnerGone"

lemma stuck_event: "serve_event e s = Some s' \<Longrightarrow> stuck s \<Longrightarrow> stuck s'"
  by (cases e) (auto simp: serve_defs stuck_def split: serve_splits)

lemma stuck_run: "serve_run es s = Some s' \<Longrightarrow> stuck s \<Longrightarrow> stuck s'"
  by (induction es arbitrary: s) (auto split: option.splits dest: stuck_event)

lemma serve_run_append: "serve_run (xs @ ys) s = (case serve_run xs s of None \<Rightarrow> None | Some t \<Rightarrow> serve_run ys t)"
  by (induction xs arbitrary: s) (simp_all split: option.splits)

lemma fill_jobs:
  "Serve_recv s = Receiving \<Longrightarrow> \<not> Serve_connDone s \<Longrightarrow> length (Serve_jobs s) + n \<le> jobBuffer \<Longrightarrow>
   serve_run (concat (replicate n [EvReceive (MsgJob p), EvPut])) s =
     Some (s\<lparr>Serve_jobs := Serve_jobs s @ replicate n (JobFromProto (Some p)),
             Serve_received := Serve_received s @ replicate n (JobFromProto (Some p))\<rparr>)"
  by (induction n arbitrary: s) (simp_all add: receive_def receive_put_def)

text \<open>
  The receive goroutine can outlive its connection. With nine jobs dispatched while none has been started,
  eight fill the job buffer and the receiver blocks on the ninth; if the connection then ends, the job
  worker stops and nobody empties the buffer. No later event releases the receiver: the goroutine of
  that connection is leaked.
\<close>

theorem receiver_leaks:
  "\<exists>s. serve_run leak_events (serve_start w) = Some s \<and> is_returned (Serve_loop s) \<and> Serve_connDone s \<and>
     (\<forall>evs s'. serve_run evs s = Some s' \<longrightarrow> holds_job (Serve_recv s'))"
proof -
  obtain s where "serve_run leak_events (serve_start w) = Some s" "is_returned (Serve_loop s)" "Serve_connDone s" "stuck s"
    unfolding leak_events_def serve_run_append
    by (simp add: fill_jobs serve_start_def serve_defs jobBuffer_def stuck_def)
  moreover have "serve_run evs s = Some s' \<longrightarrow> holds_job (Serve_recv s')" for evs s'
    using \<open>stuck s\<close> stuck_run unfolding stuck_def by blast
  ultimately show ?thesis by blast
qed

theorem receiver_leaks_witness:
  "\<exists>s. serve_run leak_events (serve_start wit_agent) = Some s \<and>
     (\<forall>s'. serve_run [EvPullExit, EvUnloadExit] s = Some s' \<longrightarrow> holds_job (Serve_recv s'))"
  using receiver_leaks [of wit_agent] by blast

text \<open>The delays: from zero after a registration, one more after each connection that did not register.\<close>

lemma Run_attempts_spec:
  "i < length rs \<Longrightarrow> Run_attempts a rs ! i =
     (if rs ! i then 0 else if i = 0 then a else Run_attempts a rs ! (i - 1) + 1)"
proof (induction rs arbitrary: a i)
  case (Cons r rs)
  define b where "b = (if r then 0 else a)"
  have step: "Run_attempts a (r # rs) = b # Run_attempts (b + 1) rs" by (simp add: b_def Let_def)
  show ?case
  proof (cases i)
    case (Suc k)
    then have "k < length rs" using Cons.prems by simp
    from Cons.IH [OF this, of "b + 1"] show ?thesis unfolding step Suc by (cases k) simp_all
  qed (simp add: b_def)
qed simp

end
