(* ===== verification/End_To_End.thy ===== *)
theory End_To_End
  imports Worker_Agent
begin

text \<open>
  The composition of the worker process with the server: what a worker sends over its stream, read by
  \<^verbatim>\<open>Connect\<close> on the other end. A dispatched job comes back as the executor's result, and a capacity
  the probes detected reaches the scheduler.
\<close>

section \<open>The server reads what a worker process sent\<close>

text \<open>The events a payload is for the connection it arrives on.\<close>

fun payload_events :: "gotime \<Rightarrow> WorkerPayload \<Rightarrow> WorkerEvent list" where
  "payload_events now (WPHeartbeat hb) = [EvHeartbeat (HeartbeatFromProto hb) now]"
| "payload_events now (WPResult r) = [EvResult (JobResultFromProto r)]"
| "payload_events now (WPChunk k) = [EvChunk (JobChunkFromProto k)]"
| "payload_events now WPDeregister = [EvDrain]"
| "payload_events now _ = []"

text \<open>The receive loop of \<^verbatim>\<open>Connect\<close> over a list of messages.\<close>

definition deliver :: "gotime \<Rightarrow> nat \<Rightarrow> WorkerPayload list \<Rightarrow> Server \<Rightarrow> Server" where
  "deliver now c ps s = fold (\<lambda>p s. snd (Connect_message now c p s)) ps s"

lemma Connect_message_conn:
  "conn (snd (Connect_message now c p s)) c = worker_run (payload_events now p) (conn s c)"
  by (cases p) (simp_all add: Connect_message_def worker_run_def server_simps Let_def)

lemma worker_run_append: "worker_run (xs @ ys) w = worker_run ys (worker_run xs w)"
  by (simp add: worker_run_def)

lemma deliver_conn: "conn (deliver now c ps s) c = worker_run (concat (map (payload_events now) ps)) (conn s c)"
  unfolding deliver_def
  by (induction ps arbitrary: s) (simp_all add: worker_run_append Connect_message_conn worker_run_def)

text \<open>The chunks among the events of a connection.\<close>

fun event_chunks :: "WorkerEvent \<Rightarrow> JobChunk list" where
  "event_chunks (EvChunk c) = [c]"
| "event_chunks _ = []"

fun serve_wevent :: "WorkerEvent \<Rightarrow> bool" where
  "serve_wevent (EvHeartbeat _ _) = True"
| "serve_wevent EvDrain = True"
| "serve_wevent (EvChunk _) = True"
| "serve_wevent _ = False"

lemma payload_event_chunks:
  "serve_payload p \<Longrightarrow> concat (map event_chunks (payload_events now p)) = payload_chunks p \<and>
     list_all serve_wevent (payload_events now p)"
  by (cases p) simp_all

lemma payloads_event_chunks:
  "list_all serve_payload ps \<Longrightarrow>
   concat (map event_chunks (concat (map (payload_events now) ps))) = concat (map payload_chunks ps) \<and>
   list_all serve_wevent (concat (map (payload_events now) ps))"
  by (induction ps) (simp_all add: payload_event_chunks)

lemma split_chunks:
  "concat (map event_chunks evs) = xs @ c # ys \<Longrightarrow>
   \<exists>e1 e2. evs = e1 @ EvChunk c # e2 \<and> concat (map event_chunks e1) = xs \<and> concat (map event_chunks e2) = ys"
proof (induction evs arbitrary: xs)
  case Nil
  then show ?case by simp
next
  case (Cons e evs)
  show ?case
  proof (cases "event_chunks e = [] \<or> xs \<noteq> []")
    case True
    then obtain xs' where xs: "xs = event_chunks e @ xs'" "concat (map event_chunks evs) = xs' @ c # ys"
      using Cons.prems by (cases e; cases xs) auto
    from Cons.IH [OF this(2)] obtain e1 e2 where "evs = e1 @ EvChunk c # e2" "concat (map event_chunks e1) = xs'"
      "concat (map event_chunks e2) = ys" by blast
    then show ?thesis using xs(1) by (intro exI [of _ "e # e1"] exI [of _ e2]) simp
  next
    case False
    then have "e = EvChunk c" "concat (map event_chunks evs) = ys" using Cons.prems by (cases e; simp)+
    then show ?thesis using False by (intro exI [of _ "[]"] exI [of _ evs]) simp
  qed
qed

lemma deltas_chunks:
  "list_all serve_wevent evs \<Longrightarrow>
   deltas j evs = concat (map JobChunk_Delta (filter (\<lambda>c. JobChunk_JobID c = j) (concat (map event_chunks evs))))"
proof (induction evs)
  case (Cons e evs)
  then show ?case by (cases e) simp_all
qed simp

lemma quiet_chunks:
  assumes "list_all serve_wevent evs" and "\<forall>c\<in>set (concat (map event_chunks evs)). JobChunk_JobID c \<noteq> j \<or> \<not> JobChunk_Done c"
  shows "\<forall>e\<in>set evs. quiet j e"
proof
  fix e assume "e \<in> set evs"
  then have "serve_wevent e" "\<forall>c\<in>set (event_chunks e). JobChunk_JobID c \<noteq> j \<or> \<not> JobChunk_Done c"
    using assms by (auto simp: list_all_iff)
  then show "quiet j e" unfolding quiet_def by (cases e) simp_all
qed

text \<open>A result that is in its mailbox stays there alone.\<close>

lemma mail_event:
  assumes "serve_wevent e" "worker_inv w" "mail w ch = [res]"
  shows "mail (worker_event e w) ch = [res]"
proof (cases e)
  case (EvChunk c)
  have "map_of (worker_pending w) (JobChunk_JobID c) \<noteq> Some ch"
    using assms(2,3) handles_ok_lookup unfolding worker_inv_def by fastforce
  then show ?thesis using assms(3) EvChunk by (simp add: worker_simps)
qed (use assms in \<open>simp_all add: applyHeartbeat_def markDraining_def Let_def\<close>)

lemma mail_run:
  "list_all serve_wevent evs \<Longrightarrow> worker_inv w \<Longrightarrow> mail w ch = [res] \<Longrightarrow> mail (worker_run evs w) ch = [res]"
proof (induction evs arbitrary: w)
  case (Cons e evs)
  then show ?case using Cons.IH [of "worker_event e w"] by (simp add: worker_run_def mail_event worker_event_inv)
qed (simp add: worker_run_def)

text \<open>
  A pending job whose chunks arrive among those of other jobs: the waiter receives the accumulated result.
\<close>

lemma chunks_resolve:
  assumes inv: "worker_inv w" and pend: "map_of (worker_pending w) j = Some ch"
    and fresh: "gomap_get [] (worker_streams w) j = []" and evs: "list_all serve_wevent evs"
    and chunks: "concat (map event_chunks evs) = xs @ ds @ c # ys"
    and other: "\<forall>x\<in>set xs. JobChunk_JobID x \<noteq> j"
    and own: "\<forall>x\<in>set ds. JobChunk_JobID x = j \<and> \<not> JobChunk_Done x"
    and final: "JobChunk_JobID c = j" "JobChunk_Done c"
  shows "mail (worker_run evs w) ch = [chunk_result (concat (map JobChunk_Delta ds) @ JobChunk_Delta c) c]"
proof -
  obtain e1 e2 where e: "evs = e1 @ EvChunk c # e2" "concat (map event_chunks e1) = xs @ ds"
    using split_chunks [of evs "xs @ ds"] chunks by auto
  then have wev: "list_all serve_wevent e1" "list_all serve_wevent e2" using evs by simp_all
  define w1 where "w1 = worker_run e1 w"
  have inv1: "worker_inv w1" using worker_run_inv inv unfolding w1_def .
  have q: "\<forall>x\<in>set e1. quiet j x" using quiet_chunks [OF wev(1)] e(2) other own by auto
  have "filter (\<lambda>c. JobChunk_JobID c = j) (xs @ ds) = ds" using other own by (simp add: filter_id_conv)
  then have "deltas j e1 = concat (map JobChunk_Delta ds)" using deltas_chunks [OF wev(1), of j] e(2) by simp
  then have w1: "map_of (worker_pending w1) j = Some ch" "gomap_get [] (worker_streams w1) j = concat (map JobChunk_Delta ds)"
    using quiet_run [OF q, of w] pend fresh unfolding w1_def by simp_all
  have "mail w1 ch = []" using inv1 w1(1) handles_ok_lookup unfolding worker_inv_def by blast
  then have "mail (accumulate c w1) ch = [chunk_result (concat (map JobChunk_Delta ds) @ JobChunk_Delta c) c]"
    using w1 final by (simp add: worker_simps)
  then have "mail (worker_run e2 (accumulate c w1)) ch = [chunk_result (concat (map JobChunk_Delta ds) @ JobChunk_Delta c) c]"
    using mail_run [OF wev(2) accumulate_inv [OF inv1]] by blast
  then show ?thesis by (simp add: e(1) w1_def worker_run_def)
qed

section \<open>Properties\<close>

text \<open>
  C4. A job makes the round trip. The server hands a job to a connection; the worker process on its other
  end runs through any interleaving of its goroutines in which it has executed the job and sent
  everything it had to send; the server reads those messages in order, chunks of other jobs and
  heartbeats among them. Then the blocked dispatch returns, with exactly the result of the executor: the
  output reassembled from the deltas, the token counts, tool calls and finish reason, or the error
  without the partial output.
\<close>

theorem job_round_trip:
  assumes "server_step\<^sup>*\<^sup>* (NewServer []) s" and "dispatchTo_start True c job s = (Some ch, s1)"
    and "gomap_get [] (worker_streams (conn s c)) (Job_ID job) = []"
    and "serve_run evs (serve_start w) = Some t" and "(job', ds, res) \<in> set (Serve_log t)" and "Job_ID job' = Job_ID job"
    and "distinct (map (Job_ID \<circ> fst) (Serve_log t))"
    and "\<not> is_returned (Serve_loop t)" and "Serve_chunks t = []" and "runner_rest (Serve_runner t) = []"
  shows "fst (dispatchTo_finish Received c ch job (deliver now c (Serve_sent t) s1)) =
    Some (delivered res, map_option ErrJob (JobResult_Err res))"
proof -
  have "server_inv s1"
    using server_step_inv [OF server_step.dispatched server_steps_inv [OF assms(1)], of True c job] assms(2) by simp
  then have inv: "worker_inv (conn s1 c)" by (rule server_invD)
  have s1: "map_of (worker_pending (conn s1 c)) (Job_ID job) = Some ch" "gomap_get [] (worker_streams (conn s1 c)) (Job_ID job) = []"
    using assms(2,3) by (auto simp: dispatchTo_start_def addPending_def server_simps Let_def update_conv' split: if_splits)
  have flow: "serve_inv t" using serve_run_inv [OF assms(4) serve_start_inv] .
  obtain l1 l2 where log: "Serve_log t = l1 @ (job', ds, res) # l2" using assms(5) by (meson split_list)
  have run: "\<exists>e env. snd x = Execute e env (fst x)" if "x \<in> set (Serve_log t)" for x
    using flow that unfolding serve_inv_def executed_def by blast
  from run [OF assms(5)] obtain e env where out: "(ds, res) = Execute e env job'" by auto
  let ?xs = "concat (map job_chunks l1)" let ?ys = "concat (map job_chunks l2)" let ?c = "terminal_chunk job' res"
  have "sent_chunks t = concat (map job_chunks (Serve_log t))"
    using flow assms(8-10) by (auto simp: serve_inv_def chunks_flow_def accounted_def)
  then have "sent_chunks t = ?xs @ ds @ ?c # ?ys" by (simp add: log job_chunks_def)
  moreover have pay: "list_all serve_payload (Serve_sent t)" using flow by (simp add: serve_inv_def accounted_def)
  ultimately have chunks: "concat (map event_chunks (concat (map (payload_events now) (Serve_sent t)))) = ?xs @ ds @ ?c # ?ys"
    "list_all serve_wevent (concat (map (payload_events now) (Serve_sent t)))"
    using payloads_event_chunks [OF pay, of now] by (simp_all add: sent_chunks_def)
  have other: "\<forall>x\<in>set ?xs. JobChunk_JobID x \<noteq> Job_ID job"
  proof
    fix x assume "x \<in> set ?xs"
    then obtain y where y: "y \<in> set l1" "x \<in> set (job_chunks y)" by auto
    from run [of y] y(1) log obtain e env where "snd y = Execute e env (fst y)" by auto
    then have "JobChunk_JobID x = Job_ID (fst y)" using ex.job_chunks_shape(1) [of "fst y" e env] y(2) by (metis prod.collapse)
    then show "JobChunk_JobID x \<noteq> Job_ID job" using assms(6,7) y(1) log by force
  qed
  have own: "\<forall>x\<in>set ds. JobChunk_JobID x = Job_ID job \<and> \<not> JobChunk_Done x"
    using ex.exec_chunk [of _ e env job'] assms(6) by (simp add: out [symmetric])
  have "mail (worker_run (concat (map (payload_events now) (Serve_sent t))) (conn s1 c)) ch =
      [chunk_result (concat (map JobChunk_Delta ds) @ JobChunk_Delta ?c) ?c]"
    by (rule chunks_resolve [OF inv s1 chunks(2,1) other own]) (simp_all add: terminal_chunk_def assms(6))
  also have "chunk_result (concat (map JobChunk_Delta ds) @ JobChunk_Delta ?c) ?c = delivered res"
    using ex.terminal_result [of e env job'] by (simp add: out [symmetric])
  finally have "mail (conn (deliver now c (Serve_sent t) s1) c) ch = [delivered res]" by (simp add: deliver_conn)
  then show ?thesis using dispatchTo_finish_received by (simp add: delivered_def)
qed

lemma wit_dispatched:
  "server_step\<^sup>*\<^sup>* (NewServer []) wit_server"
  "fst (dispatchTo_start True 1 (wit_agent_job ''a'') wit_server) = Some 0"
  "gomap_get [] (worker_streams (conn wit_server 1)) ''a'' = []"
proof -
  show "server_step\<^sup>*\<^sup>* (NewServer []) wit_server"
    using wit_server_reached by (induction rule: rtranclp_induct) (auto intro: server_step.registry rtranclp.rtrancl_into_rtrancl)
qed code_simp+

theorem job_round_trip_witness:
  "\<exists>t. serve_run wit_serve_events (serve_start wit_agent) = Some t \<and>
     fst (dispatchTo_finish Received 1 0 (wit_agent_job ''a'')
       (deliver 2 1 (Serve_sent t) (snd (dispatchTo_start True 1 (wit_agent_job ''a'') wit_server)))) =
     Some (snd (Echo_Execute (wit_agent_job ''a'')), None)"
proof -
  obtain t where t: "serve_run wit_serve_events (serve_start wit_agent) = Some t" "\<not> is_returned (Serve_loop t)"
    "Serve_chunks t = []" "Serve_runner t = RunnerIdle" "Serve_log t = [(wit_agent_job ''a'', Echo_Execute (wit_agent_job ''a''))]"
    using wit_serve_run by blast
  have d: "dispatchTo_start True 1 (wit_agent_job ''a'') wit_server =
      (Some 0, snd (dispatchTo_start True 1 (wit_agent_job ''a'') wit_server))"
    using wit_dispatched(2) by (metis prod.collapse)
  show ?thesis
    using job_round_trip [OF wit_dispatched(1) d _ t(1), of "wit_agent_job ''a''" "fst (Echo_Execute (wit_agent_job ''a''))"
        "snd (Echo_Execute (wit_agent_job ''a''))" 2] t wit_dispatched(3)
    by (simp add: wit_agent_job_def Echo_Execute_def delivered_def zero_JobResult_def zero_Job_def Let_def)
qed

text \<open>
  A host whose AMD cards are described by \<^verbatim>\<open>amd-smi\<close> is never given a model it does not hold. That tool
  does not report free memory, its devices are taken as they are although \<^verbatim>\<open>rocm-smi\<close>, which does
  report it, is present, and so the heartbeat carries zero free bytes: the scheduler's test for a worker
  that could load another model fails, however much memory is free.
\<close>

theorem amd_host_gets_no_new_model:
  assumes "Host_goos h = ''linux''" and "Host_nvidia h = ToolMissing" and "Host_amd h = ToolPrinted doc"
    and "parseAmdSMI doc = Some devices" and "devices \<noteq> []"
    and "Config_Detector (Agent_cfg w)" and "Agent_models w \<noteq> []" and "model \<notin> Model_Name ` set (Agent_models w)"
  shows "\<not> runnable (snapshot now timeout (applyHeartbeat (HeartbeatFromProto
      (Some (heartbeat n (detectCapacity (Detect lower upper h) full w)))) now sw)) model"
proof -
  have "Detect lower upper h = aggregate devices"
    using assms(1-5) amd_smi_no_free(1) [OF assms(4,5), of lower "Host_rocm h"]
    by (simp add: Detect_def probes_def detectNVIDIA_def)
  then have "Capacity_FreeVRAM (Detect lower upper h) = 0" using amd_smi_no_free(2) [OF assms(4,5)] by simp
  then show ?thesis
    using assms(6-8)
    by (auto simp: runnable_def hasModel_def snapshot_def applyHeartbeat_def heartbeat_def wire_simps detectCapacity_def
        currentModels_def slice_elems_def Let_def list_ex_iff)
qed

definition wit_amd_host :: Host where
  "wit_amd_host = \<lparr>Host_goos = ''linux'', Host_nvidia = ToolMissing,
     Host_amd = ToolPrinted (Some [\<lparr>amdGPU_MarketName = ''X'', amdGPU_value = 24, amdGPU_unit = ''gb''\<rparr>]),
     Host_rocm = ToolMissing, Host_profiler = ToolMissing, Host_sysctl = ToolMissing\<rparr>"

definition wit_amd_agent :: Agent where
  "wit_amd_agent = wit_agent\<lparr>Agent_cfg := (Agent_cfg wit_agent)\<lparr>Config_Detector := True\<rparr>\<rparr>"

theorem amd_host_gets_no_new_model_witness:
  "\<not> runnable (snapshot 1 1 (applyHeartbeat (HeartbeatFromProto
      (Some (heartbeat 0 (detectCapacity (Detect id id wit_amd_host) True wit_amd_agent)))) 1 (new_worker ''w1'' None 0))) ''q''"
proof -
  have amd: "parseAmdSMI (Some [\<lparr>amdGPU_MarketName = ''X'', amdGPU_value = 24, amdGPU_unit = ''gb''\<rparr>]) =
      Some [\<lparr>Device_Name = ''X'', Device_TotalVRAM = 24 * 1024 * 1024 * 1024, Device_FreeVRAM = 0, Device_Load = 0\<rparr>]"
    using TrimSpace_clean [OF clean_plain, of "''X''"]
    by (simp add: parseAmdSMI_def amdDevice_def amdVRAMToBytes_def List.map_filter_def Let_def)
  show ?thesis
    by (rule amd_host_gets_no_new_model [OF _ _ _ amd])
      (simp_all add: wit_amd_host_def wit_amd_agent_def wit_agent_defs)
qed

end
