(* ===== verification/Pagination.thy ===== *)
theory Pagination
  imports Strconv
begin

text \<open>
  The list envelope of the admin API, \<^verbatim>\<open>internal/httpapi/pagination.go\<close>: page parameters, the opaque
  cursor (the decimal offset in unpadded URL-safe base64, whose Go encoder and decoder are modelled on
  bytes) and the page arithmetic. The lemmas show that a cursor decodes to the offset it was made from,
  and that following the cursors from the first page visits every item once, in order, and stops.
\<close>

section \<open>Base64\<close>

definition b64_alphabet :: string where
  "b64_alphabet = ''ABCDEFGHIJKLMNOPQRSTUVWXYZabcdefghijklmnopqrstuvwxyz0123456789-_''"

definition b64_char :: "nat \<Rightarrow> char" where
  "b64_char n = b64_alphabet ! n"

fun index_of :: "char \<Rightarrow> string \<Rightarrow> nat option" where
  "index_of c [] = None"
| "index_of c (x # xs) = (if c = x then Some 0 else map_option Suc (index_of c xs))"

definition b64_value :: "char \<Rightarrow> nat option" where
  "b64_value c = index_of c b64_alphabet"

text \<open>\<^verbatim>\<open>base64.RawURLEncoding.EncodeToString\<close>, three bytes at a time.\<close>

fun b64_encode :: "string \<Rightarrow> string" where
  "b64_encode (a # b # c # rest) =
     (let n = of_char a * 65536 + of_char b * 256 + of_char c
      in b64_char (n div 262144) # b64_char (n div 4096 mod 64) # b64_char (n div 64 mod 64) # b64_char (n mod 64) #
         b64_encode rest)"
| "b64_encode [a, b] =
     (let n = of_char a * 65536 + of_char b * 256
      in [b64_char (n div 262144), b64_char (n div 4096 mod 64), b64_char (n div 64 mod 64)])"
| "b64_encode [a] = (let n = of_char a * 65536 in [b64_char (n div 262144), b64_char (n div 4096 mod 64)])"
| "b64_encode [] = []"

text \<open>
  The decoder: a character outside the alphabet or a lone last character is an error; the bits of the
  last character that belong to no byte are not checked.
\<close>

fun b64_quads :: "nat list \<Rightarrow> string option" where
  "b64_quads (p # q # r # s # rest) =
     (let n = p * 262144 + q * 4096 + r * 64 + s
      in map_option (\<lambda>cs. char_of (n div 65536) # char_of (n div 256 mod 256) # char_of (n mod 256) # cs) (b64_quads rest))"
| "b64_quads [p, q, r] =
     (let n = p * 262144 + q * 4096 + r * 64 in Some [char_of (n div 65536), char_of (n div 256 mod 256)])"
| "b64_quads [p, q] = (let n = p * 262144 + q * 4096 in Some [char_of (n div 65536)])"
| "b64_quads [p] = None"
| "b64_quads [] = Some []"

text \<open>Carriage returns and line feeds are skipped.\<close>

definition b64_decode :: "string \<Rightarrow> string option" where
  "b64_decode s =
     (let vs = map b64_value (filter (\<lambda>c. c \<noteq> CHR 0x0A \<and> c \<noteq> CHR 0x0D) s)
      in if None \<in> set vs then None else b64_quads (map the vs))"

section \<open>Cursors and pages\<close>

definition defaultPageSize :: int where "defaultPageSize = 50"
definition maxPageSize :: int where "maxPageSize = 200"

definition encodeCursor :: "int \<Rightarrow> string" where
  "encodeCursor offset = b64_encode (Itoa offset)"

definition decodeCursor :: "string \<Rightarrow> int" where
  "decodeCursor cursor =
     (if cursor = [] then 0
      else case b64_decode cursor of
          None \<Rightarrow> 0
        | Some raw \<Rightarrow>
            (case Atoi raw of
               None \<Rightarrow> 0
             | Some n \<Rightarrow> if n < 0 then 0 else n))"

text \<open>The query values of \<^verbatim>\<open>limit\<close> and \<^verbatim>\<open>cursor\<close>, empty when absent.\<close>

definition parsePageParams :: "string \<Rightarrow> string \<Rightarrow> int \<times> int" where
  "parsePageParams limit_param cursor =
     (let limit = defaultPageSize;
          limit = (if limit_param \<noteq> [] then
                     (case Atoi limit_param of Some n \<Rightarrow> if n > 0 then n else limit | None \<Rightarrow> limit)
                   else limit);
          limit = (if limit > maxPageSize then maxPageSize else limit)
      in (limit, decodeCursor cursor))"

definition paginate :: "'a list \<Rightarrow> int \<Rightarrow> int \<Rightarrow> 'a list \<times> string option" where
  "paginate items limit offset =
     (let n = int (length items);
          offset = (if offset < 0 then 0 else offset)
      in if offset \<ge> n then ([], None)
         else
           let end = offset + limit;
               end = (if end > n then n else end);
               page = take (nat (end - offset)) (drop (nat offset) items)
           in (page, if end < n then Some (encodeCursor end) else None))"

record 'a listEnvelope =
  listEnvelope_Data :: "'a list"
  listEnvelope_NextCursor :: "string option"
  listEnvelope_HasMore :: bool

definition writeList :: "'a list \<Rightarrow> int \<Rightarrow> int \<Rightarrow> 'a listEnvelope" where
  "writeList items limit offset =
     (let (page, next) = paginate items limit offset
      in \<lparr>listEnvelope_Data = page, listEnvelope_NextCursor = next, listEnvelope_HasMore = (next \<noteq> None)\<rparr>)"

text \<open>
  A client that follows the cursors of an unchanged list with a constant \<^verbatim>\<open>limit\<close>; at most \<open>k\<close> requests.
\<close>

primrec follow :: "nat \<Rightarrow> 'a list \<Rightarrow> string \<Rightarrow> string \<Rightarrow> 'a list list option" where
  "follow 0 items limit cursor = None"
| "follow (Suc k) items limit cursor =
     (let (l, off) = parsePageParams limit cursor; env = writeList items l off
      in case listEnvelope_NextCursor env of
           None \<Rightarrow> Some [listEnvelope_Data env]
         | Some next \<Rightarrow> map_option (\<lambda>ps. listEnvelope_Data env # ps) (follow k items limit next))"

section \<open>Lemmas\<close>

lemma length_alphabet: "length b64_alphabet = 64"
  by (simp add: b64_alphabet_def)

lemma index_of_nth: "distinct xs \<Longrightarrow> n < length xs \<Longrightarrow> index_of (xs ! n) xs = Some n"
  by (induction xs arbitrary: n) (auto simp: nth_Cons split: nat.splits)

lemma b64_value_char: "n < 64 \<Longrightarrow> b64_value (b64_char n) = Some n"
proof -
  have "distinct b64_alphabet" by (simp add: b64_alphabet_def)
  then show "n < 64 \<Longrightarrow> b64_value (b64_char n) = Some n"
    unfolding b64_value_def b64_char_def by (rule index_of_nth) (simp add: length_alphabet)
qed

lemma alphabet_no_newline: "CHR 0x0A \<notin> set b64_alphabet" "CHR 0x0D \<notin> set b64_alphabet"
  by (simp_all add: b64_alphabet_def)

lemma b64_char_no_newline: "n < 64 \<Longrightarrow> b64_char n \<noteq> CHR 0x0A \<and> b64_char n \<noteq> CHR 0x0D"
  unfolding b64_char_def using alphabet_no_newline nth_mem [of n b64_alphabet] length_alphabet by metis

text \<open>The six-bit groups of a byte string.\<close>

fun sextets :: "string \<Rightarrow> nat list" where
  "sextets (a # b # c # rest) =
     (let n = of_char a * 65536 + of_char b * 256 + of_char c
      in n div 262144 # n div 4096 mod 64 # n div 64 mod 64 # n mod 64 # sextets rest)"
| "sextets [a, b] =
     (let n = of_char a * 65536 + of_char b * 256 in [n div 262144, n div 4096 mod 64, n div 64 mod 64])"
| "sextets [a] = (let n = of_char a * 65536 in [n div 262144, n div 4096 mod 64])"
| "sextets [] = []"

lemma char_bound: "(of_char c :: nat) < 256"
  using mod_less_divisor [of 256 "of_char c :: nat"] of_char_mod_256 [of c, where 'a = nat] by linarith

lemma b64_encode_sextets: "b64_encode s = map b64_char (sextets s)"
  by (induction s rule: b64_encode.induct) (simp_all add: Let_def)

lemma sextets_small: "\<forall>v\<in>set (sextets s). v < 64"
proof (induction s rule: sextets.induct)
  case (1 a b c rest)
  have "of_char a * 65536 + of_char b * 256 + of_char c < (16777216 :: nat)"
    using char_bound [of a] char_bound [of b] char_bound [of c] by linarith
  then show ?case using "1.IH" by (simp add: Let_def div_less_iff_less_mult)
next
  case (2 a b)
  have "of_char a * 65536 + of_char b * 256 < (16777216 :: nat)" using char_bound [of a] char_bound [of b] by linarith
  then show ?case by (simp add: Let_def div_less_iff_less_mult)
next
  case (3 a)
  have "of_char a * 65536 < (16777216 :: nat)" using char_bound [of a] by linarith
  then show ?case by (simp add: Let_def div_less_iff_less_mult)
qed simp

lemma regroup: "(n :: nat) div 262144 * 262144 + n div 4096 mod 64 * 4096 + n div 64 mod 64 * 64 + n mod 64 = n"
proof -
  have "n div 4096 = n div 64 div 64" "n div 262144 = n div 4096 div 64" by (simp_all add: div_mult2_eq [symmetric])
  then show ?thesis
    using div_mult_mod_eq [of n 64] div_mult_mod_eq [of "n div 64" 64] div_mult_mod_eq [of "n div 4096" 64] by linarith
qed

lemma bytes_of:
  assumes "b < 256" "c < 256"
  shows "(a * 65536 + b * 256 + c) div 65536 = (a :: nat)" "(a * 65536 + b * 256 + c) div 256 mod 256 = b"
    "(a * 65536 + b * 256 + c) mod 256 = c"
proof -
  show "(a * 65536 + b * 256 + c) div 65536 = a" using assms by (intro div_nat_eqI) simp_all
  have "(a * 65536 + b * 256 + c) div 256 = a * 256 + b" using assms by (intro div_nat_eqI) simp_all
  then show "(a * 65536 + b * 256 + c) div 256 mod 256 = b" using assms by simp
  have "a * 65536 + b * 256 + c = c + (a * 256 + b) * 256" by simp
  then show "(a * 65536 + b * 256 + c) mod 256 = c" using assms by (metis mod_less mod_mult_self1)
qed

lemma b64_quads_sextets: "b64_quads (sextets s) = Some s"
proof (induction s rule: sextets.induct)
  case (1 a b c rest)
  note n = bytes_of [OF char_bound [of b] char_bound [of c], of "of_char a"]
  show ?case unfolding sextets.simps Let_def b64_quads.simps regroup n using "1.IH" by simp
next
  case (2 a b)
  define n where "n = of_char a * 65536 + (of_char b * 256 :: nat)"
  have n: "n div 65536 = of_char a" "n div 256 mod 256 = of_char b"
    using bytes_of [OF char_bound [of b], of 0 "of_char a"] by (simp_all add: n_def)
  have "n = 64 * (of_char a * 1024 + of_char b * 4)" by (simp add: n_def)
  then have "n mod 64 = 0" by simp
  then have "n div 262144 * 262144 + n div 4096 mod 64 * 4096 + n div 64 mod 64 * 64 = n" using regroup [of n] by linarith
  then show ?case unfolding sextets.simps n_def [symmetric] Let_def b64_quads.simps by (simp add: n)
next
  case (3 a)
  define n where "n = (of_char a * 65536 :: nat)"
  have n: "n div 65536 = of_char a" by (simp add: n_def)
  have "n = 4096 * (of_char a * 16)" by (simp add: n_def)
  then have "n mod 64 = 0" "n div 64 mod 64 = 0" by simp_all
  then have "n div 262144 * 262144 + n div 4096 mod 64 * 4096 = n" using regroup [of n] by simp
  then show ?case unfolding sextets.simps n_def [symmetric] Let_def b64_quads.simps by (simp add: n)
qed simp

lemma b64_roundtrip: "b64_decode (b64_encode s) = Some s"
proof -
  have "filter (\<lambda>c. c \<noteq> CHR 0x0A \<and> c \<noteq> CHR 0x0D) (map b64_char (sextets s)) = map b64_char (sextets s)"
    using sextets_small [of s] b64_char_no_newline by (auto simp: filter_id_conv)
  moreover have "map b64_value (map b64_char (sextets s)) = map Some (sextets s)"
    using sextets_small [of s] b64_value_char by simp
  moreover have "map the (map Some (sextets s)) = sextets s" "None \<notin> set (map Some (sextets s))" by (auto simp: o_def)
  ultimately show ?thesis unfolding b64_decode_def b64_encode_sextets Let_def by (simp only: b64_quads_sextets if_False)
qed

lemma b64_encode_nonempty: "s \<noteq> [] \<Longrightarrow> b64_encode s \<noteq> []"
  by (cases s rule: b64_encode.cases) (simp_all add: Let_def)

lemma decode_encode_cursor: "0 \<le> n \<Longrightarrow> n < 2 ^ 63 \<Longrightarrow> decodeCursor (encodeCursor n) = n"
  using b64_encode_nonempty [of "Itoa n"] Atoi_Itoa [of n]
  by (simp add: decodeCursor_def encodeCursor_def b64_roundtrip Itoa_def)

text \<open>The page size depends on the parameter alone and is between one and the maximum.\<close>

definition page_limit :: "string \<Rightarrow> int" where
  "page_limit lim = fst (parsePageParams lim [])"

lemma parsePageParams_eq: "parsePageParams lim cursor = (page_limit lim, decodeCursor cursor)"
  by (simp add: page_limit_def parsePageParams_def Let_def)

lemma page_limit_bounds: "1 \<le> page_limit lim" "page_limit lim \<le> 200"
  by (auto simp: page_limit_def parsePageParams_def defaultPageSize_def maxPageSize_def Let_def split: option.splits)

lemma paginate_last:
  "0 \<le> off \<Longrightarrow> int (length items) \<le> off + limit \<Longrightarrow> 1 \<le> limit \<Longrightarrow> paginate items limit off = (drop (nat off) items, None)"
  by (auto simp: paginate_def Let_def nat_diff_distrib)

lemma paginate_more:
  "0 \<le> off \<Longrightarrow> off + limit < int (length items) \<Longrightarrow> 1 \<le> limit \<Longrightarrow>
   paginate items limit off = (take (nat limit) (drop (nat off) items), Some (encodeCursor (off + limit)))"
  by (auto simp: paginate_def Let_def)

lemma follow_complete:
  "int (length items) < 2 ^ 63 \<Longrightarrow> decodeCursor cursor = int off \<Longrightarrow> length items - off \<le> k \<Longrightarrow>
   \<exists>ps. follow (Suc k) items lim cursor = Some ps \<and> concat ps = drop off items \<and>
     (\<forall>p\<in>set ps. int (length p) \<le> page_limit lim)"
proof (induction k arbitrary: cursor off)
  case 0
  then show ?case
    using paginate_last [of "int off" items "page_limit lim"] page_limit_bounds(1) [of lim]
    by (simp add: parsePageParams_eq writeList_def)
next
  case (Suc k)
  define l where "l = page_limit lim"
  have l: "1 \<le> l" using page_limit_bounds(1) by (simp add: l_def)
  show ?case
  proof (cases "int off + l < int (length items)")
    case False
    then show ?thesis
      using Suc.prems(2) paginate_last [of "int off" items l] l by (auto simp: parsePageParams_eq writeList_def l_def [symmetric])
  next
    case True
    let ?next = "encodeCursor (int off + l)"
    have dec: "decodeCursor ?next = int (off + nat l)"
      using decode_encode_cursor [of "int off + l"] True l Suc.prems(1) by simp
    have less: "length items - (off + nat l) \<le> k" using Suc.prems(3) l by linarith
    obtain ps where ps: "follow (Suc k) items lim ?next = Some ps" "concat ps = drop (off + nat l) items"
      "\<forall>p\<in>set ps. int (length p) \<le> l"
      using Suc.IH [OF Suc.prems(1) dec less] unfolding l_def [symmetric] by blast
    have "follow (Suc (Suc k)) items lim cursor = Some (take (nat l) (drop off items) # ps)"
      using paginate_more [of "int off" l items] True l Suc.prems(2) ps(1)
      unfolding follow.simps(2) [of "Suc k"] parsePageParams_eq by (simp add: writeList_def l_def [symmetric] del: follow.simps)
    moreover have "concat (take (nat l) (drop off items) # ps) = drop off items"
      using ps(2) append_take_drop_id [of "nat l" "drop off items"] by (simp add: add.commute)
    moreover have "\<forall>p\<in>set (take (nat l) (drop off items) # ps). int (length p) \<le> l" using ps(3) l by auto
    ultimately show ?thesis unfolding l_def by blast
  qed
qed

section \<open>Properties\<close>

text \<open>
  C23. Listing terminates and is complete. A client that starts without a cursor and follows the cursor of each
  page of an unchanged list, with any \<^verbatim>\<open>limit\<close> parameter, reaches a page without a cursor after at most
  one request more than there are items; the pages joined are the list, every item once and in order, and
  no page is longer than 200 items.
\<close>

theorem pagination_complete:
  assumes "int (length items) < 2 ^ 63"
  shows "\<exists>ps. follow (Suc (length items)) items lim [] = Some ps \<and> concat ps = items \<and>
    (\<forall>p\<in>set ps. length p \<le> 200)"
proof -
  have "decodeCursor [] = int 0" by (simp add: decodeCursor_def)
  from follow_complete [OF assms this, of "length items" lim] obtain ps where
    "follow (Suc (length items)) items lim [] = Some ps" "concat ps = items" "\<forall>p\<in>set ps. int (length p) \<le> page_limit lim"
    by auto
  then show ?thesis using page_limit_bounds(2) [of lim] by force
qed

theorem pagination_complete_witness:
  "\<exists>ps. follow (Suc (length [1, 2, 3 :: nat])) [1, 2, 3 :: nat] ''2'' [] = Some ps \<and> concat ps = [1, 2, 3]"
proof -
  have "int (length [1, 2, 3 :: nat]) < 2 ^ 63" by simp
  from pagination_complete [OF this, of "''2''"] show ?thesis by blast
qed

text \<open>
  The cursor is an offset: an item inserted at the front between two requests makes the next page start
  with the last item of the previous one.
\<close>

lemma cursor_repeats_after_insert:
  assumes "0 \<le> off" "1 \<le> limit" "off + limit < int (length items)" "int (length items) < 2 ^ 63"
    and "paginate items limit off = (page, Some cursor)"
  shows "hd (fst (paginate (x # items) limit (decodeCursor cursor))) = last page"
proof -
  have page: "page = take (nat limit) (drop (nat off) items)" "cursor = encodeCursor (off + limit)"
    using paginate_more [OF assms(1,3,2)] assms(5) by simp_all
  have dec: "decodeCursor cursor = off + limit" using decode_encode_cursor [of "off + limit"] assms page(2) by simp
  have "last page = items ! (nat off + nat limit - 1)"
    using assms(1-3) page(1) by (subst last_conv_nth) (auto simp: min_def)
  moreover have "hd (fst (paginate (x # items) limit (off + limit))) = (x # items) ! nat (off + limit)"
    using assms(1-3) by (auto simp: paginate_def Let_def hd_conv_nth)
  ultimately show ?thesis using assms(1,2) dec by (simp add: nth_Cons' nat_add_distrib)
qed

end
