(* ===== verification/Log_Ring.thy ===== *)
theory Log_Ring
  imports Prelude Pagination
begin

text \<open>
  The in-memory log: the ring buffer and the capturing handler of \<^verbatim>\<open>cmd/agentgpu/ringlog.go\<close>, the
  redaction and level parsing of \<^verbatim>\<open>cmd/agentgpu/logging.go\<close>, the adapter \<^verbatim>\<open>cmd/agentgpu/logsource.go\<close> and
  the query and live tail of \<^verbatim>\<open>internal/httpapi/admin_logs.go\<close>.

  Values of attributes are strings or other values of a type the code only prints (\<open>sprint\<close> is
  \<^verbatim>\<open>fmt.Sprint\<close>); attributes are given resolved. \<^verbatim>\<open>strings.ToLower\<close> is an argument. The counter of
  appended records is a natural number, so the results hold up to 2^63 records. The contract shared with
  the audit log, a window of the newest entries, is the locale \<open>rolling_window\<close>.
\<close>

section \<open>The window contract\<close>

definition last_n :: "nat \<Rightarrow> 'a list \<Rightarrow> 'a list" where
  "last_n n xs = drop (length xs - n) xs"

lemma last_n_id [simp]: "length xs \<le> n \<Longrightarrow> last_n n xs = xs"
  by (simp add: last_n_def)

lemma length_last_n [simp]: "length (last_n n xs) = min n (length xs)"
  by (simp add: last_n_def)

lemma last_n_append: "last_n n (xs @ ys) = last_n (n - length ys) xs @ last_n n ys"
proof -
  have "drop (length xs + length ys - n) xs = drop (length xs - (n - length ys)) xs"
    by (cases "length ys \<le> n") (rule arg_cong [of _ _ "\<lambda>k. drop k xs"], linarith, simp)
  then show ?thesis unfolding last_n_def by (cases "n \<le> length ys") simp_all
qed

lemma last_n_less:
  assumes "m \<le> n"
  shows "last_n m (last_n n xs) = last_n m xs"
proof (cases "length xs \<le> n")
  case False
  have "length (drop (length xs - n) xs) - m + (length xs - n) = length xs - m" using assms False by simp
  then show ?thesis unfolding last_n_def drop_drop by (simp only:)
qed simp

lemma last_n_last_n: "last_n n (last_n n xs @ ys) = last_n n (xs @ ys)"
  by (simp add: last_n_append last_n_less)

locale rolling_window =
  fixes add :: "'a \<Rightarrow> 's \<Rightarrow> 's" and contents :: "'s \<Rightarrow> 'a list" and ok :: "nat \<Rightarrow> 's \<Rightarrow> bool"
  assumes add_ok: "ok n s \<Longrightarrow> ok n (add x s)"
    and add_contents: "ok n s \<Longrightarrow> contents (add x s) = last_n n (contents s @ [x])"

context rolling_window
begin

lemma run_ok: "ok n s \<Longrightarrow> ok n (fold add xs s)"
  by (induction xs arbitrary: s) (simp_all add: add_ok)

lemma run_contents:
  assumes "ok n s" "length (contents s) \<le> n"
  shows "contents (fold add xs s) = last_n n (contents s @ xs)"
  using assms
proof (induction xs arbitrary: s)
  case (Cons x xs)
  have "contents (fold add xs (add x s)) = last_n n (contents (add x s) @ xs)"
    using Cons.IH [OF add_ok [OF Cons.prems(1)]] Cons.prems by (simp add: add_contents)
  then show ?case using Cons.prems by (simp add: add_contents last_n_last_n)
qed simp

end

section \<open>The ring\<close>

record 'a logRing =
  logRing_buf :: "'a list"
  logRing_next :: nat
  logRing_full :: bool
  logRing_cap :: nat
  logRing_count :: nat

text \<open>\<open>z\<close> is the zero record the buffer is made of.\<close>

definition newLogRing :: "'a \<Rightarrow> int \<Rightarrow> 'a logRing" where
  "newLogRing z capacity =
     (if capacity \<le> 0 then
        \<lparr>logRing_buf = [], logRing_next = 0, logRing_full = False, logRing_cap = 0, logRing_count = 0\<rparr>
      else
        \<lparr>logRing_buf = replicate (nat capacity) z, logRing_next = 0, logRing_full = False,
         logRing_cap = nat capacity, logRing_count = 0\<rparr>)"

definition ring_append :: "'a \<Rightarrow> 'a logRing \<Rightarrow> 'a logRing" where
  "ring_append rec r =
     (if logRing_cap r = 0 then r
      else
        let next = (logRing_next r + 1) mod logRing_cap r
        in r\<lparr>logRing_buf := (logRing_buf r)[logRing_next r := rec], logRing_next := next,
             logRing_full := (if next = 0 then True else logRing_full r), logRing_count := logRing_count r + 1\<rparr>)"

definition snapshotLocked :: "'a logRing \<Rightarrow> 'a list" where
  "snapshotLocked r =
     (if logRing_full r then
        map (\<lambda>i. logRing_buf r ! ((logRing_next r + i) mod logRing_cap r)) [0..<logRing_cap r]
      else take (logRing_next r) (logRing_buf r))"

definition ring_Snapshot :: "'a logRing \<Rightarrow> 'a list" where
  "ring_Snapshot r = (if logRing_cap r = 0 then [] else snapshotLocked r)"

definition ring_SnapshotCount :: "'a logRing \<Rightarrow> 'a list \<times> nat" where
  "ring_SnapshotCount r = (if logRing_cap r = 0 then ([], 0) else (snapshotLocked r, logRing_count r))"

definition ring_Len :: "'a logRing \<Rightarrow> nat" where
  "ring_Len r =
     (if logRing_cap r = 0 then 0 else if logRing_full r then logRing_cap r else logRing_next r)"

definition ring_Count :: "'a logRing \<Rightarrow> nat" where
  "ring_Count r = (if logRing_cap r = 0 then 0 else logRing_count r)"

section \<open>Redaction and capture\<close>

datatype 'v AttrVal = StrVal string | OtherVal 'v

datatype 'v Attr = Attr string "'v AttrVal" | AttrGroup string "'v Attr list"

definition redactedPlaceholder :: "'v AttrVal" where
  "redactedPlaceholder = StrVal ''[REDACTED]''"

definition sensitiveKeys :: "string list" where
  "sensitiveKeys = [''secret'', ''secret_hash'', ''secrethash'', ''salt'', ''token'', ''authorization'', ''password'',
     ''api_key'', ''apikey'', ''bearer'']"

definition redactAttr :: "(string \<Rightarrow> string) \<Rightarrow> string \<Rightarrow> 'v AttrVal \<Rightarrow> 'v AttrVal" where
  "redactAttr lower key v = (if lower key \<in> set sensitiveKeys then redactedPlaceholder else v)"

record 'v logRecord =
  logRecord_Time :: gotime
  logRecord_Level :: int
  logRecord_Message :: string
  logRecord_Attrs :: "(string, 'v AttrVal) gomap"

text \<open>A dotted path.\<close>

definition dotted :: "string \<Rightarrow> string \<Rightarrow> string" where
  "dotted prefix key = (if prefix = [] then key else prefix @ ''.'' @ key)"

fun collectPrefixed :: "(string \<Rightarrow> string) \<Rightarrow> string \<Rightarrow> 'v Attr \<Rightarrow> (string, 'v AttrVal) gomap \<Rightarrow> (string, 'v AttrVal) gomap"
and collectAll :: "(string \<Rightarrow> string) \<Rightarrow> string \<Rightarrow> 'v Attr list \<Rightarrow> (string, 'v AttrVal) gomap \<Rightarrow> (string, 'v AttrVal) gomap"
where
  "collectPrefixed lower prefix (AttrGroup key as) dst =
     collectAll lower (if key \<noteq> [] then dotted prefix key else prefix) as dst"
| "collectPrefixed lower prefix (Attr key v) dst =
     (if key = [] then dst else AList.update (dotted prefix key) (redactAttr lower key v) dst)"
| "collectAll lower prefix [] dst = dst"
| "collectAll lower prefix (a # as) dst = collectAll lower prefix as (collectPrefixed lower prefix a dst)"

record 'v ringHandler =
  ringHandler_attrs :: "'v Attr list"
  ringHandler_groups :: "string list"

definition newRingHandler :: "'v ringHandler" where
  "newRingHandler = \<lparr>ringHandler_attrs = [], ringHandler_groups = []\<rparr>"

definition WithAttrs :: "'v Attr list \<Rightarrow> 'v ringHandler \<Rightarrow> 'v ringHandler" where
  "WithAttrs attrs h = h\<lparr>ringHandler_attrs := ringHandler_attrs h @ attrs\<rparr>"

definition WithGroup :: "string \<Rightarrow> 'v ringHandler \<Rightarrow> 'v ringHandler" where
  "WithGroup name h = h\<lparr>ringHandler_groups := ringHandler_groups h @ [name]\<rparr>"

text \<open>A record as it arrives: instant, level, message, attributes. The wrapped handler is not modelled.\<close>

definition ring_Handle ::
  "(string \<Rightarrow> string) \<Rightarrow> 'v ringHandler \<Rightarrow> gotime \<Rightarrow> int \<Rightarrow> string \<Rightarrow> 'v Attr list \<Rightarrow> 'v logRecord logRing \<Rightarrow> 'v logRecord logRing" where
  "ring_Handle lower h now level msg attrs r =
     (if logRing_cap r > 0 then
        let prefix = Join ''.'' (ringHandler_groups h);
            dst = collectAll lower prefix (ringHandler_attrs h) [];
            dst = collectAll lower prefix attrs dst
        in ring_append \<lparr>logRecord_Time = now, logRecord_Level = level, logRecord_Message = msg, logRecord_Attrs = dst\<rparr> r
      else r)"

text \<open>\<^verbatim>\<open>parseLevel\<close>: the level and whether the name was recognised.\<close>

definition parseLevel :: "(string \<Rightarrow> string) \<Rightarrow> string \<Rightarrow> int \<times> bool" where
  "parseLevel lower name =
     (let n = lower (TrimSpace name)
      in if n = ''debug'' then (- 4, True)
         else if n = ''info'' \<or> n = [] then (0, True)
         else if n = ''warn'' \<or> n = ''warning'' then (4, True)
         else if n = ''error'' then (8, True)
         else (0, False))"

text \<open>\<^verbatim>\<open>slog.Level.String\<close>: the nearest name below and the distance.\<close>

definition Level_String :: "int \<Rightarrow> string" where
  "Level_String l =
     (let str = (\<lambda>base val. if val = 0 then base else base @ (if val < 0 then [] else ''+'') @ Itoa val)
      in if l < 0 then str ''DEBUG'' (l + 4) else if l < 4 then str ''INFO'' l
         else if l < 8 then str ''WARN'' (l - 4) else str ''ERROR'' (l - 8))"

section \<open>The admin log API\<close>

record 'v LogRecord =
  LogRecord_Time :: gotime
  LogRecord_Level :: string
  LogRecord_Message :: string
  LogRecord_Attrs :: "(string, 'v AttrVal) gomap"

definition mapLogRecords :: "'v logRecord list \<Rightarrow> 'v LogRecord list" where
  "mapLogRecords recs = map (\<lambda>rec.
     \<lparr>LogRecord_Time = logRecord_Time rec, LogRecord_Level = Level_String (logRecord_Level rec),
      LogRecord_Message = logRecord_Message rec, LogRecord_Attrs = logRecord_Attrs rec\<rparr>) recs"

definition levelRank :: "(string \<Rightarrow> string) \<Rightarrow> string \<Rightarrow> int" where
  "levelRank lower name =
     (let n = lower (TrimSpace name)
      in if n = ''debug'' then - 4 else if n = ''info'' then 0 else if n = ''warn'' \<or> n = ''warning'' then 4
         else if n = ''error'' then 8 else - 8)"

text \<open>The part before a \<^verbatim>\<open>+\<close>, or else before a \<^verbatim>\<open>-\<close>, when the sign is not the first character.\<close>

definition cut_at :: "char \<Rightarrow> string \<Rightarrow> string option" where
  "cut_at c s = (let p = takeWhile (\<lambda>x. x \<noteq> c) s in if p \<noteq> [] \<and> length p < length s then Some p else None)"

definition level_base :: "string \<Rightarrow> string" where
  "level_base level =
     (case cut_at (CHR ''+'') level of
        Some b \<Rightarrow> b
      | None \<Rightarrow> (case cut_at (CHR ''-'') level of Some b \<Rightarrow> b | None \<Rightarrow> level))"

definition recordLevelRank :: "(string \<Rightarrow> string) \<Rightarrow> string \<Rightarrow> int" where
  "recordLevelRank lower level =
     (let n = lower (TrimSpace (level_base level))
      in if n = ''debug'' then - 4 else if n = ''info'' then 0 else if n = ''warn'' \<or> n = ''warning'' then 4
         else if n = ''error'' then 8 else 8)"

record logFilter =
  logFilter_minLevel :: int
  logFilter_attrMatch :: "(string, string) gomap"
  logFilter_since :: gotime
  logFilter_until :: gotime

text \<open>\<^verbatim>\<open>parseUnixSeconds\<close>, shared with the audit endpoint; the zero time means no bound.\<close>

definition parseUnixSeconds :: "string \<Rightarrow> gotime" where
  "parseUnixSeconds v =
     (if v = [] then zero_time else case Atoi v of None \<Rightarrow> zero_time | Some n \<Rightarrow> n * second)"

definition logFilterAttrKeys :: "string list" where
  "logFilterAttrKeys = [''request_id'', ''session_id'', ''worker'']"

text \<open>\<open>q\<close> gives the query parameters, empty when absent.\<close>

definition parseLogFilter :: "(string \<Rightarrow> string) \<Rightarrow> (string \<Rightarrow> string) \<Rightarrow> logFilter" where
  "parseLogFilter lower q =
     (let minLevel = levelRank lower ''warn'';
          minLevel = (if q ''level'' \<noteq> [] then (let r = levelRank lower (q ''level'') in if r \<ge> - 4 then r else minLevel)
                      else minLevel)
      in \<lparr>logFilter_minLevel = minLevel,
          logFilter_attrMatch = map (\<lambda>key. (key, q key)) (filter (\<lambda>key. q key \<noteq> []) logFilterAttrKeys),
          logFilter_since = parseUnixSeconds (q ''since''), logFilter_until = parseUnixSeconds (q ''until'')\<rparr>)"

definition attrString :: "('v \<Rightarrow> string) \<Rightarrow> 'v AttrVal \<Rightarrow> string" where
  "attrString sprint v = (case v of StrVal s \<Rightarrow> s | OtherVal x \<Rightarrow> sprint x)"

definition logFilter_matches :: "(string \<Rightarrow> string) \<Rightarrow> ('v \<Rightarrow> string) \<Rightarrow> logFilter \<Rightarrow> 'v LogRecord \<Rightarrow> bool" where
  "logFilter_matches lower sprint f rec =
     (if recordLevelRank lower (LogRecord_Level rec) < logFilter_minLevel f then False
      else if list_ex (\<lambda>(key, want). case map_of (LogRecord_Attrs rec) key of
                 None \<Rightarrow> True | Some got \<Rightarrow> attrString sprint got \<noteq> want) (logFilter_attrMatch f) then False
      else if logFilter_since f \<noteq> zero_time \<and> LogRecord_Time rec < logFilter_since f then False
      else if logFilter_until f \<noteq> zero_time \<and> \<not> LogRecord_Time rec < logFilter_until f then False
      else True)"

text \<open>A source is absent (\<open>None\<close>, answered 501) or the ring.\<close>

definition handleAdminLogs ::
  "(string \<Rightarrow> string) \<Rightarrow> ('v \<Rightarrow> string) \<Rightarrow> (string \<Rightarrow> string) \<Rightarrow> 'v logRecord logRing option \<Rightarrow> 'v LogRecord listEnvelope option" where
  "handleAdminLogs lower sprint q logs =
     (case logs of
        None \<Rightarrow> None
      | Some r \<Rightarrow>
          let f = parseLogFilter lower q;
              views = filter (logFilter_matches lower sprint f) (mapLogRecords (ring_Snapshot r));
              views = sort_key (\<lambda>v. - LogRecord_Time v) views;
              (limit, offset) = parsePageParams (q ''limit'') (q ''cursor'')
          in Some (writeList views limit offset))"

text \<open>One poll of the live tail: the records written to the client and the advanced cursor.\<close>

definition emitNewLogs :: "('a \<Rightarrow> bool) \<Rightarrow> 'a list \<times> nat \<Rightarrow> nat \<Rightarrow> 'a list \<times> nat" where
  "emitNewLogs matches sc lastCount =
     (let (snap, count) = sc
      in if count \<le> lastCount then ([], count)
         else
           let newN = count - lastCount;
               newN = (if newN > length snap then length snap else newN)
           in (filter matches (drop (length snap - newN) snap), count))"

text \<open>
  The stream: it starts at the current count; before each tick some records are appended to the ring.
\<close>

primrec tail_polls :: "('a \<Rightarrow> bool) \<Rightarrow> nat \<Rightarrow> 'a list list \<Rightarrow> 'a logRing \<Rightarrow> 'a list" where
  "tail_polls matches lastCount [] r = []"
| "tail_polls matches lastCount (batch # rest) r =
     (let r = fold ring_append batch r; (out, count) = emitNewLogs matches (ring_SnapshotCount r) lastCount
      in out @ tail_polls matches count rest r)"

definition handleAdminLogsStream :: "('a \<Rightarrow> bool) \<Rightarrow> 'a list list \<Rightarrow> 'a logRing \<Rightarrow> 'a list" where
  "handleAdminLogsStream matches batches r = tail_polls matches (ring_Count r) batches r"

section \<open>Lemmas\<close>

definition ring_ok :: "nat \<Rightarrow> 'a logRing \<Rightarrow> bool" where
  "ring_ok n r \<longleftrightarrow> 0 < n \<and> logRing_cap r = n \<and> length (logRing_buf r) = n \<and> logRing_next r < n"

lemma ring_append_fields:
  assumes "ring_ok n r"
  shows "logRing_buf (ring_append x r) = (logRing_buf r)[logRing_next r := x]"
    "logRing_next (ring_append x r) = Suc (logRing_next r) mod n" "logRing_cap (ring_append x r) = n"
    "logRing_full (ring_append x r) \<longleftrightarrow> logRing_full r \<or> Suc (logRing_next r) = n"
    "logRing_count (ring_append x r) = Suc (logRing_count r)"
  using assms by (auto simp: ring_ok_def ring_append_def Let_def mod_Suc)

text \<open>The buffer read from \<open>i\<close> on, once around.\<close>

lemma ring_turn:
  assumes "length b = n" "i < n"
  shows "map (\<lambda>k. b[i := x] ! ((Suc i mod n + k) mod n)) [0..<n] = tl (map (\<lambda>k. b ! ((i + k) mod n)) [0..<n]) @ [x]"
    (is "?new = tl ?s @ [x]")
proof (rule nth_equalityI)
  show "length ?new = length (tl ?s @ [x])" using assms by simp
  fix k assume "k < length ?new"
  then have k: "k < n" by simp
  have idx: "(Suc i mod n + k) mod n = (i + Suc k) mod n" by (simp add: mod_add_left_eq)
  have new: "?new ! k = b[i := x] ! ((i + Suc k) mod n)" using k idx by simp
  show "?new ! k = (tl ?s @ [x]) ! k"
  proof (cases "Suc k < n")
    case True
    then have "(i + Suc k) mod n \<noteq> i" using assms(2) by (cases "i + Suc k < n") (simp_all add: le_mod_geq)
    moreover have "(tl ?s @ [x]) ! k = b ! ((i + Suc k) mod n)" using True by (auto simp: nth_append nth_tl)
    ultimately show ?thesis unfolding new by simp
  next
    case False
    then have "Suc k = n" using k by simp
    then have "(i + Suc k) mod n = i" "(tl ?s @ [x]) ! k = x" using assms by (auto simp: nth_append)
    then show ?thesis unfolding new using assms by simp
  qed
qed

lemma snapshot_after_append:
  assumes "ring_ok n r"
  shows "snapshotLocked (ring_append x r) = last_n n (snapshotLocked r @ [x])"
proof -
  have r: "0 < n" "logRing_cap r = n" "length (logRing_buf r) = n" "logRing_next r < n"
    using assms by (simp_all add: ring_ok_def)
  note turn = ring_turn [OF r(3,4), of x]
  show ?thesis
  proof (cases "logRing_full r")
    case False
    then have snap: "snapshotLocked r = take (logRing_next r) (logRing_buf r)" by (simp add: snapshotLocked_def)
    have add: "take (Suc (logRing_next r)) ((logRing_buf r)[logRing_next r := x]) = take (logRing_next r) (logRing_buf r) @ [x]"
      using r by (simp add: take_Suc_conv_app_nth)
    have "snapshotLocked (ring_append x r) = take (Suc (logRing_next r)) ((logRing_buf r)[logRing_next r := x])"
    proof (cases "Suc (logRing_next r) = n")
      case True
      have "map (\<lambda>k. (logRing_buf r)[logRing_next r := x] ! (k mod n)) [0..<n] = (logRing_buf r)[logRing_next r := x]"
        using r by (intro nth_equalityI) simp_all
      then show ?thesis using True r by (simp add: snapshotLocked_def ring_append_fields [OF assms])
    next
      case neq: False
      then show ?thesis using False r by (simp add: snapshotLocked_def ring_append_fields [OF assms])
    qed
    then show ?thesis using snap add r by simp
  next
    case True
    define s where "s = map (\<lambda>k. logRing_buf r ! ((logRing_next r + k) mod n)) [0..<n]"
    have "snapshotLocked r = s" using True r by (simp add: snapshotLocked_def s_def)
    moreover have "snapshotLocked (ring_append x r) = tl s @ [x]"
      using True turn by (simp add: snapshotLocked_def ring_append_fields [OF assms] s_def)
    moreover have "last_n n (s @ [x]) = tl s @ [x]" using r(1) by (simp add: last_n_def drop_Suc s_def)
    ultimately show ?thesis by simp
  qed
qed

interpretation ringw: rolling_window ring_append snapshotLocked ring_ok
proof
  show "ring_ok n (ring_append x r)" if "ring_ok n r" for n and x :: 'a and r
    using that by (simp add: ring_ok_def ring_append_def Let_def)
qed (rule snapshot_after_append)

lemma ring_count: "ring_ok n r \<Longrightarrow> logRing_count (fold ring_append xs r) = logRing_count r + length xs"
  by (induction xs arbitrary: r) (simp_all add: ring_append_fields ringw.add_ok)

lemma new_ring_ok: "0 < n \<Longrightarrow> ring_ok (nat n) (newLogRing z n)"
  by (simp add: ring_ok_def newLogRing_def)

lemma new_ring_empty: "snapshotLocked (newLogRing z n) = []" "logRing_count (newLogRing z n) = 0"
  by (simp_all add: snapshotLocked_def newLogRing_def)

lemma ring_ok_cap: "ring_ok n r \<Longrightarrow> logRing_cap r = n \<and> n \<noteq> 0"
  by (simp add: ring_ok_def)

text \<open>The values that end up in a captured map.\<close>

fun leaves :: "'v Attr list \<Rightarrow> (string \<times> 'v AttrVal) list" where
  "leaves [] = []"
| "leaves (Attr key v # as) = (key, v) # leaves as"
| "leaves (AttrGroup key gs # as) = leaves gs @ leaves as"

definition no_secret :: "(string \<Rightarrow> string) \<Rightarrow> (string \<times> 'v AttrVal) set \<Rightarrow> 'v AttrVal \<Rightarrow> bool" where
  "no_secret lower ls v \<longleftrightarrow> v = redactedPlaceholder \<or> (\<exists>key. (key, v) \<in> ls \<and> lower key \<notin> set sensitiveKeys)"

lemma no_secret_mono: "no_secret lower ls v \<Longrightarrow> ls \<subseteq> ls' \<Longrightarrow> no_secret lower ls' v"
  unfolding no_secret_def by blast

lemma update_values: "snd ` set (AList.update k v m) \<subseteq> insert v (snd ` set m)"
  by (induction m) auto

lemma collect_no_secret:
  "\<forall>v\<in>snd ` set dst. no_secret lower ls v \<Longrightarrow>
   \<forall>v\<in>snd ` set (collectPrefixed lower prefix a dst). no_secret lower (ls \<union> set (leaves [a])) v"
  "\<forall>v\<in>snd ` set dst. no_secret lower ls v \<Longrightarrow>
   \<forall>v\<in>snd ` set (collectAll lower prefix as dst). no_secret lower (ls \<union> set (leaves as)) v"
proof (induction lower prefix a dst and lower prefix as dst arbitrary: ls and ls rule: collectPrefixed_collectAll.induct)
  case (1 lower prefix key as dst)
  then show ?case by simp
next
  case (2 lower prefix key v dst)
  have "no_secret lower (ls \<union> set (leaves [Attr key v])) (redactAttr lower key v)"
    by (auto simp: no_secret_def redactAttr_def)
  moreover have "\<forall>w\<in>snd ` set dst. no_secret lower (ls \<union> set (leaves [Attr key v])) w"
    using 2 no_secret_mono by blast
  ultimately have "\<forall>w\<in>insert (redactAttr lower key v) (snd ` set dst). no_secret lower (ls \<union> set (leaves [Attr key v])) w"
    by simp
  moreover have "snd ` set (collectPrefixed lower prefix (Attr key v) dst) \<subseteq> insert (redactAttr lower key v) (snd ` set dst)"
    using update_values [of "dotted prefix key" "redactAttr lower key v" dst] by auto
  ultimately show ?case by (meson subsetD)
next
  case (3 lower prefix dst)
  then show ?case by simp
next
  case (4 lower prefix a as dst)
  have "leaves (a # as) = leaves [a] @ leaves as" by (cases a) simp_all
  then show ?case using "4.IH"(2) [OF "4.IH"(1) [OF "4.prems"]] by (simp add: Un_assoc)
qed

section \<open>Properties\<close>

text \<open>
  The ring is the window of the newest records. After any records have been appended to a new ring, a
  snapshot is the last \<open>capacity\<close> of them, oldest first, and the count read with it is the number ever
  appended; \<^verbatim>\<open>Len\<close> is the size of that window; a ring of capacity zero stays empty.
\<close>

theorem ring_is_newest_window:
  "ring_SnapshotCount (fold ring_append xs (newLogRing z n)) = (last_n (nat n) xs, if 0 < n then length xs else 0) \<and>
   ring_Snapshot (fold ring_append xs (newLogRing z n)) = last_n (nat n) xs \<and>
   ring_Len (fold ring_append xs (newLogRing z n)) = min (nat n) (length xs)"
proof (cases "0 < n")
  case True
  let ?r = "fold ring_append xs (newLogRing z n)"
  note ok = new_ring_ok [OF True, of z]
  have snap: "snapshotLocked ?r = last_n (nat n) xs" using ringw.run_contents [OF ok] by (simp add: new_ring_empty)
  have okr: "ring_ok (nat n) ?r" using ringw.run_ok [OF ok] .
  have "ring_Len ?r = length (snapshotLocked ?r)"
    using okr by (auto simp: ring_Len_def snapshotLocked_def ring_ok_def)
  then show ?thesis
    using True snap ring_ok_cap [OF okr] ring_count [OF ok, of xs]
    by (simp add: ring_SnapshotCount_def ring_Snapshot_def new_ring_empty)
next
  case False
  then have "fold ring_append xs (newLogRing z n) = newLogRing z n"
    by (induction xs) (simp_all add: newLogRing_def ring_append_def)
  then show ?thesis using False by (simp add: ring_SnapshotCount_def ring_Snapshot_def ring_Len_def newLogRing_def last_n_def)
qed

text \<open>From a cursor at the current count, each poll writes the newest records of its batch.\<close>

lemma tail_polls_exact:
  "ring_ok n r \<Longrightarrow> length (snapshotLocked r) \<le> n \<Longrightarrow>
   tail_polls P (logRing_count r) bs r = concat (map (\<lambda>b. filter P (last_n n b)) bs)"
proof (induction bs arbitrary: r)
  case (Cons b bs)
  let ?r = "fold ring_append b r"
  have ok: "ring_ok n ?r" using ringw.run_ok [OF Cons.prems(1)] .
  have snap: "snapshotLocked ?r = last_n n (snapshotLocked r @ b)" using ringw.run_contents [OF Cons.prems] .
  then have len: "length (snapshotLocked ?r) \<le> n" by simp
  have "fst (emitNewLogs P (ring_SnapshotCount ?r) (logRing_count r)) = filter P (last_n n b)"
  proof (cases "b = []")
    case False
    have "drop (length (snapshotLocked ?r) - min (length b) (length (snapshotLocked ?r))) (snapshotLocked ?r) = last_n n b"
      by (simp add: snap last_n_append min_def)
    then show ?thesis using False ring_ok_cap [OF ok] ring_count [OF Cons.prems(1), of b]
      by (simp add: emitNewLogs_def ring_SnapshotCount_def Let_def min_def split: if_splits)
  qed (simp add: emitNewLogs_def ring_SnapshotCount_def Let_def)
  moreover have "snd (emitNewLogs P (ring_SnapshotCount ?r) (logRing_count r)) = logRing_count ?r"
    using ring_ok_cap [OF ok] by (simp add: emitNewLogs_def ring_SnapshotCount_def Let_def)
  ultimately show ?case using Cons.IH [OF ok len] by (simp add: Let_def case_prod_beta)
qed simp

lemma live_tail:
  assumes "0 < n" and "r = fold ring_append old (newLogRing z n)"
  shows "handleAdminLogsStream P bs r = concat (map (\<lambda>b. filter P (last_n (nat n) b)) bs)"
    and "\<forall>b\<in>set bs. int (length b) \<le> n \<Longrightarrow> handleAdminLogsStream P bs r = filter P (concat bs)"
proof -
  have ok: "ring_ok (nat n) r" using ringw.run_ok [OF new_ring_ok [OF assms(1)]] assms(2) by simp
  have len: "length (snapshotLocked r) \<le> nat n"
    using ringw.run_contents [OF new_ring_ok [OF assms(1)], of z old] assms(2) by (simp add: new_ring_empty)
  show all: "handleAdminLogsStream P bs r = concat (map (\<lambda>b. filter P (last_n (nat n) b)) bs)"
    using tail_polls_exact [OF ok len] ring_ok_cap [OF ok] by (simp add: handleAdminLogsStream_def ring_Count_def)
  show "handleAdminLogsStream P bs r = filter P (concat bs)" if "\<forall>b\<in>set bs. int (length b) \<le> n"
    using that unfolding all by (induction bs) (use assms(1) in \<open>simp_all add: le_nat_iff\<close>)
qed

text \<open>
  C17. The live tail delivers every new record once and in order. Whatever the ring held when the stream
  opened, and however the records arrive between the polls, each poll writes exactly the matching records
  that arrived since the previous one, or the newest \<open>capacity\<close> of them when more arrived than the ring
  holds; so a stream that is never outrun writes the matching records appended since it opened, and none
  of the earlier ones.
\<close>

theorem live_tail_exactly_once:
  assumes "0 < n" and "r = fold ring_append old (newLogRing z n)"
  shows "handleAdminLogsStream P bs r = concat (map (\<lambda>b. filter P (last_n (nat n) b)) bs) \<and>
    ((\<forall>b\<in>set bs. int (length b) \<le> n) \<longrightarrow> handleAdminLogsStream P bs r = filter P (concat bs))"
  using live_tail [OF assms] by blast

theorem live_tail_exactly_once_witness:
  "handleAdminLogsStream even [[4], [], [5, 6]] (fold ring_append [1, 2, 3] (newLogRing (0 :: nat) 2)) = [4, 6]"
  using live_tail_exactly_once [of 2 "fold ring_append [1, 2, 3] (newLogRing (0 :: nat) 2)" "[1, 2, 3]" 0 even "[[4], [], [5, 6]]"]
  by simp

text \<open>
  C22. No secret reaches the ring. Whatever attributes a record and the loggers above it carry, at whatever
  depth of groups, every value captured for it is either the placeholder or the value of a leaf whose own
  key, lowercased, is none of the sensitive names.
\<close>

theorem ring_captures_no_secret:
  assumes "0 < logRing_cap r"
  shows "\<exists>rec. ring_Handle lower h now level msg attrs r = ring_append rec r \<and>
    (\<forall>(k, v)\<in>set (logRecord_Attrs rec). v = StrVal ''[REDACTED]'' \<or>
       (\<exists>key. (key, v) \<in> set (leaves (ringHandler_attrs h @ attrs)) \<and> lower key \<notin> set sensitiveKeys))"
proof -
  let ?p = "Join ''.'' (ringHandler_groups h)"
  let ?dst = "collectAll lower ?p attrs (collectAll lower ?p (ringHandler_attrs h) [])"
  have "leaves (xs @ ys) = leaves xs @ leaves ys" for xs ys :: "'a Attr list" by (induction xs rule: leaves.induct) simp_all
  then have "\<forall>v\<in>snd ` set ?dst. no_secret lower (set (leaves (ringHandler_attrs h @ attrs))) v"
    using collect_no_secret(2) [OF collect_no_secret(2) [of "[]" lower "{}" ?p "ringHandler_attrs h"], of ?p attrs] by simp
  then show ?thesis
    using assms unfolding ring_Handle_def no_secret_def redactedPlaceholder_def
    by (intro exI [of _ "\<lparr>logRecord_Time = now, logRecord_Level = level, logRecord_Message = msg, logRecord_Attrs = ?dst\<rparr>"])
      (auto simp: Let_def)
qed

definition wit_log_ring :: "unit logRecord logRing" where
  "wit_log_ring = newLogRing \<lparr>logRecord_Time = 0, logRecord_Level = 0, logRecord_Message = [], logRecord_Attrs = []\<rparr> 2"

theorem ring_captures_no_secret_witness:
  "\<exists>rec. ring_Handle id newRingHandler 0 0 ''m'' [AttrGroup ''req'' [Attr ''token'' (StrVal ''t0p''), Attr ''id'' (StrVal ''7'')]]
     wit_log_ring = ring_append rec wit_log_ring \<and> (\<forall>(k, v)\<in>set (logRecord_Attrs rec). v \<noteq> StrVal ''t0p'')"
proof -
  let ?attrs = "[AttrGroup ''req'' [Attr ''token'' (StrVal ''t0p''), Attr ''id'' (StrVal ''7'')]] :: unit Attr list"
  have leaf: "v \<noteq> StrVal ''t0p''" if "v = StrVal ''[REDACTED]'' \<or> (\<exists>key. (key, v) \<in> set (leaves (ringHandler_attrs newRingHandler @ ?attrs)) \<and>
      id key \<notin> set sensitiveKeys)" for v :: "unit AttrVal"
    using that by (auto simp: newRingHandler_def sensitiveKeys_def)
  have "0 < logRing_cap wit_log_ring" by (simp add: wit_log_ring_def newLogRing_def)
  from ring_captures_no_secret [OF this, of id newRingHandler 0 0 "''m''" ?attrs] show ?thesis
    using leaf by (elim exE conjE) (intro exI conjI, assumption, blast)
qed

text \<open>
  A pre-bound attribute takes the prefix of a group opened after it was bound.
\<close>

lemma bound_attr_takes_later_group:
  "logRecord_Attrs (snapshotLocked (ring_Handle lower (WithGroup ''g'' (WithAttrs [Attr ''a'' (StrVal ''1'')] newRingHandler))
     now level msg [] (newLogRing z 1)) ! 0) = [(''g.a'', redactAttr lower ''a'' (StrVal ''1''))]"
  by (simp add: ring_Handle_def WithGroup_def WithAttrs_def newRingHandler_def newLogRing_def ring_append_def
      snapshotLocked_def dotted_def Let_def)

end
