(* ===== verification/Audit_Log.thy ===== *)
theory Audit_Log
  imports Log_Ring Checkpoint Key_Store
begin

text \<open>
  The audit log of the admin API: \<^verbatim>\<open>internal/audit/audit.go\<close>, its checkpoint
  \<^verbatim>\<open>internal/audit/checkpoint.go\<close>, and the recording and query of
  \<^verbatim>\<open>internal/httpapi/admin_audit.go\<close>. A stored entry is a value, so the copies the code makes of the
  before/after maps are the maps themselves.
\<close>

section \<open>Entries and the store\<close>

datatype Outcome = OutcomeSuccess | OutcomeFailure

text \<open>What the projections put into a snapshot.\<close>

datatype AuditVal = AvString string | AvStrings "string list" | AvBool bool | AvInt int | AvLimits Limits

type_synonym RedactedValues = "(string, AuditVal) gomap option"

record Entry =
  Entry_Time :: gotime
  Entry_Actor :: string
  Entry_Op :: string
  Entry_Target :: string
  Entry_Before :: RedactedValues
  Entry_After :: RedactedValues
  Entry_RequestID :: string
  Entry_Outcome :: Outcome

record Filter =
  Filter_Actor :: string
  Filter_Op :: string
  Filter_Target :: string
  Filter_Since :: gotime
  Filter_Until :: gotime

definition Filter_matches :: "Filter \<Rightarrow> Entry \<Rightarrow> bool" where
  "Filter_matches f e =
     (if Filter_Actor f \<noteq> [] \<and> Entry_Actor e \<noteq> Filter_Actor f then False
      else if Filter_Op f \<noteq> [] \<and> Entry_Op e \<noteq> Filter_Op f then False
      else if Filter_Target f \<noteq> [] \<and> Entry_Target e \<noteq> Filter_Target f then False
      else if Filter_Since f \<noteq> zero_time \<and> Entry_Time e < Filter_Since f then False
      else if Filter_Until f \<noteq> zero_time \<and> \<not> Entry_Time e < Filter_Until f then False
      else True)"

record AuditStore =
  AuditStore_entries :: "Entry list"
  AuditStore_max :: int

definition NewAuditStore :: "int \<Rightarrow> AuditStore" where
  "NewAuditStore maxEntries = \<lparr>AuditStore_entries = [], AuditStore_max = maxEntries\<rparr>"

definition Audit_Append :: "gotime \<Rightarrow> Entry \<Rightarrow> AuditStore \<Rightarrow> AuditStore" where
  "Audit_Append now e m =
     (let stored = (if Entry_Time e = zero_time then e\<lparr>Entry_Time := now\<rparr> else e);
          entries = AuditStore_entries m @ [stored]
      in if AuditStore_max m > 0 \<and> int (length entries) > AuditStore_max m then
           m\<lparr>AuditStore_entries := drop (length entries - nat (AuditStore_max m)) entries\<rparr>
         else m\<lparr>AuditStore_entries := entries\<rparr>)"

definition Audit_List :: "Filter \<Rightarrow> int \<Rightarrow> AuditStore \<Rightarrow> Entry list" where
  "Audit_List f limit m =
     (let out = filter (Filter_matches f) (AuditStore_entries m);
          out = sort_key (\<lambda>e. - Entry_Time e) out
      in if limit > 0 \<and> int (length out) > limit then take (nat limit) out else out)"

definition Audit_Len :: "AuditStore \<Rightarrow> nat" where
  "Audit_Len m = length (AuditStore_entries m)"

text \<open>\<open>empty_path\<close> is the guard on an empty path; the other faults are those of any checkpoint.\<close>

definition Audit_Checkpoint ::
  "bool \<Rightarrow> CkptStep option \<Rightarrow> AuditStore \<Rightarrow> Entry list Doc \<Rightarrow> CkptError option \<times> Entry list Doc" where
  "Audit_Checkpoint empty_path fault m d =
     (if empty_path then (Some CkEmptyPath, d) else save_doc fault (AuditStore_entries m) d)"

definition Audit_LoadCheckpoint :: "Entry list Doc \<Rightarrow> AuditStore \<Rightarrow> CkptError option \<times> AuditStore" where
  "Audit_LoadCheckpoint d m =
     (case load_doc d of
        Inl err \<Rightarrow> (Some err, m)
      | Inr None \<Rightarrow> (None, m)
      | Inr (Some v) \<Rightarrow>
          let loaded = (case v of None \<Rightarrow> [] | Some es \<Rightarrow> es);
              loaded = (if AuditStore_max m > 0 \<and> int (length loaded) > AuditStore_max m
                        then drop (length loaded - nat (AuditStore_max m)) loaded else loaded)
          in (None, m\<lparr>AuditStore_entries := loaded\<rparr>))"

section \<open>Recording and querying\<close>

text \<open>The actor and request id come from the request context, empty when it has none.\<close>

definition recordAudit ::
  "gotime \<Rightarrow> string \<Rightarrow> string \<Rightarrow> string \<Rightarrow> string \<Rightarrow> Outcome \<Rightarrow> RedactedValues \<Rightarrow> RedactedValues \<Rightarrow> AuditStore option \<Rightarrow> AuditStore option" where
  "recordAudit now actor requestID op target outcome before after log =
     (case log of
        None \<Rightarrow> None
      | Some m \<Rightarrow> Some (Audit_Append now
          \<lparr>Entry_Time = zero_time, Entry_Actor = actor, Entry_Op = op, Entry_Target = target, Entry_Before = before,
           Entry_After = after, Entry_RequestID = requestID, Entry_Outcome = outcome\<rparr> m))"

definition auditKeyValues :: "APIKey \<Rightarrow> RedactedValues" where
  "auditKeyValues k =
     (if APIKey_ID k = [] then None
      else Some
       ([(''id'', AvString (APIKey_ID k)), (''name'', AvString (APIKey_Name k)), (''roles'', AvStrings (APIKey_Roles k)),
         (''admin_scopes'', AvStrings (APIKey_AdminScopes k)), (''allow_models'', AvStrings (APIKey_AllowModels k)),
         (''deny_models'', AvStrings (APIKey_DenyModels k)), (''revoked'', AvBool (APIKey_Revoked k))] @
        (if APIKey_Owner k \<noteq> [] then [(''owner'', AvString (APIKey_Owner k))] else []) @
        (if APIKey_Team k \<noteq> [] then [(''team'', AvString (APIKey_Team k))] else []) @
        (if APIKey_CreatedBy k \<noteq> [] then [(''created_by'', AvString (APIKey_CreatedBy k))] else []) @
        (case APIKey_ExpiresAt k of None \<Rightarrow> [] | Some t \<Rightarrow> [(''expires_at'', AvInt (t div second))]) @
        (case APIKey_Limits k of None \<Rightarrow> [] | Some l \<Rightarrow> [(''limits'', AvLimits l)])))"

definition auditOutcome :: "bool \<Rightarrow> Outcome" where
  "auditOutcome failed = (if failed then OutcomeFailure else OutcomeSuccess)"

text \<open>\<open>q\<close> gives the query parameters, empty when absent; an absent store is an empty log.\<close>

definition handleAdminAudit :: "(string \<Rightarrow> string) \<Rightarrow> AuditStore option \<Rightarrow> Entry listEnvelope" where
  "handleAdminAudit q log =
     (let f = \<lparr>Filter_Actor = q ''actor'', Filter_Op = q ''op'', Filter_Target = q ''target'',
                Filter_Since = parseUnixSeconds (q ''since''), Filter_Until = parseUnixSeconds (q ''until'')\<rparr>;
          entries = (case log of None \<Rightarrow> [] | Some m \<Rightarrow> Audit_List f 0 m);
          (limit, offset) = parsePageParams (q ''limit'') (q ''cursor'')
      in writeList entries limit offset)"

section \<open>Lemmas\<close>

definition audit_ok :: "nat \<Rightarrow> AuditStore \<Rightarrow> bool" where
  "audit_ok n m \<longleftrightarrow> 0 < n \<and> AuditStore_max m = int n"

text \<open>What is stored for an entry appended at an instant.\<close>

definition stamped :: "gotime \<times> Entry \<Rightarrow> Entry" where
  "stamped x = (if Entry_Time (snd x) = zero_time then (snd x)\<lparr>Entry_Time := fst x\<rparr> else snd x)"

definition store_entry :: "Entry \<Rightarrow> AuditStore \<Rightarrow> AuditStore" where
  "store_entry e m = Audit_Append (Entry_Time e) e m"

lemma stamp_idem: "(if Entry_Time e = zero_time then e\<lparr>Entry_Time := Entry_Time e\<rparr> else e) = e"
  by simp

lemma Append_stamped: "Audit_Append now e m = store_entry (stamped (now, e)) m"
  by (simp add: store_entry_def Audit_Append_def stamped_def Let_def)

interpretation auditw: rolling_window store_entry AuditStore_entries audit_ok
proof
  show "audit_ok n (store_entry e m)" if "audit_ok n m" for n e m
    using that by (simp add: audit_ok_def store_entry_def Audit_Append_def Let_def)
  show "AuditStore_entries (store_entry e m) = last_n n (AuditStore_entries m @ [e])" if "audit_ok n m" for n e m
  proof (cases "length (AuditStore_entries m) < n")
    case True
    then show ?thesis using that by (simp add: audit_ok_def store_entry_def Audit_Append_def Let_def)
  next
    case False
    then show ?thesis using that by (simp add: audit_ok_def store_entry_def Audit_Append_def Let_def last_n_def)
  qed
qed

lemma Append_fold: "fold (\<lambda>(now, e). Audit_Append now e) xs m = fold store_entry (map stamped xs) m"
  by (induction xs arbitrary: m) (auto simp: Append_stamped)

section \<open>Properties\<close>

lemma audit_contents:
  assumes "0 < n" and "m = fold (\<lambda>(now, e). Audit_Append now e) xs (NewAuditStore (int n))"
  shows "AuditStore_entries m = last_n n (map stamped xs)"
    and "mset (Audit_List f 0 m) = mset (filter (Filter_matches f) (last_n n (map stamped xs)))"
    and "sorted (map (\<lambda>e. - Entry_Time e) (Audit_List f 0 m))"
    and "filter (\<lambda>e. Entry_Time e = t) (Audit_List f 0 m) =
      filter (\<lambda>e. Filter_matches f e \<and> Entry_Time e = t) (last_n n (map stamped xs))"
proof -
  have "audit_ok n (NewAuditStore (int n))" using assms(1) by (simp add: audit_ok_def NewAuditStore_def)
  then show entries: "AuditStore_entries m = last_n n (map stamped xs)"
    using auditw.run_contents [of n "NewAuditStore (int n)" "map stamped xs"] assms(2)
    by (simp add: Append_fold NewAuditStore_def)
  show "mset (Audit_List f 0 m) = mset (filter (Filter_matches f) (last_n n (map stamped xs)))"
    by (simp add: Audit_List_def entries)
  show "sorted (map (\<lambda>e. - Entry_Time e) (Audit_List f 0 m))" by (simp add: Audit_List_def)
  have "filter (\<lambda>e. - Entry_Time e = - t) (sort_key (\<lambda>e. - Entry_Time e) es) = filter (\<lambda>e. - Entry_Time e = - t) es" for es :: "Entry list"
    by (rule sort_key_stable)
  then show "filter (\<lambda>e. Entry_Time e = t) (Audit_List f 0 m) =
      filter (\<lambda>e. Filter_matches f e \<and> Entry_Time e = t) (last_n n (map stamped xs))"
    by (simp add: Audit_List_def entries)
qed

text \<open>
  C24. The audit log is append-only within its bound, and a query answers from it exactly. After any writes
  the store holds the newest \<open>n\<close> entries in the order they were recorded, each unchanged but for the
  time stamp of an entry that had none. \<^verbatim>\<open>List\<close> returns the entries that match the filter, all of them
  when there is no limit, newest first, those with equal times in the order they were recorded.
\<close>

theorem audit_trail:
  assumes "0 < n" and "m = fold (\<lambda>(now, e). Audit_Append now e) xs (NewAuditStore (int n))"
  shows "AuditStore_entries m = last_n n (map stamped xs) \<and>
    mset (Audit_List f 0 m) = mset (filter (Filter_matches f) (last_n n (map stamped xs))) \<and>
    sorted (map (\<lambda>e. - Entry_Time e) (Audit_List f 0 m)) \<and>
    filter (\<lambda>e. Entry_Time e = t) (Audit_List f 0 m) =
      filter (\<lambda>e. Filter_matches f e \<and> Entry_Time e = t) (last_n n (map stamped xs))"
  using audit_contents [OF assms] by blast

definition wit_entry :: "string \<Rightarrow> Entry" where
  "wit_entry op = \<lparr>Entry_Time = zero_time, Entry_Actor = ''k1'', Entry_Op = op, Entry_Target = [], Entry_Before = None,
     Entry_After = None, Entry_RequestID = ''r'', Entry_Outcome = OutcomeSuccess\<rparr>"

theorem audit_trail_witness:
  "AuditStore_entries (fold (\<lambda>(now, e). Audit_Append now e) [(1, wit_entry ''a''), (2, wit_entry ''b''), (3, wit_entry ''c'')]
     (NewAuditStore (int 2))) = [(wit_entry ''b'')\<lparr>Entry_Time := 2\<rparr>, (wit_entry ''c'')\<lparr>Entry_Time := 3\<rparr>]"
  using audit_trail [of 2 _ "[(1, wit_entry ''a''), (2, wit_entry ''b''), (3, wit_entry ''c'')]", OF _ refl]
  by (simp add: stamped_def wit_entry_def last_n_def)

text \<open>
  The audit log survives a restart, cut to the bound of the store that reads it: a checkpoint that
  succeeded gives a store with any bound the newest entries of the one that wrote it; a save that failed
  leaves the old document in place; and no snapshot of a key depends on its secret.
\<close>

theorem audit_restart:
  assumes "Audit_Checkpoint False fault m d = (err, d')"
  shows "err = None \<Longrightarrow> 0 < AuditStore_max m' \<Longrightarrow> Audit_LoadCheckpoint d' m' =
      (None, m'\<lparr>AuditStore_entries := last_n (nat (AuditStore_max m')) (AuditStore_entries m)\<rparr>)"
    and "err \<noteq> None \<Longrightarrow> d' = d"
    and "auditKeyValues (k\<lparr>APIKey_SecretHash := h, APIKey_Salt := salt\<rparr>) = auditKeyValues k"
proof -
  show "d' = d" if "err \<noteq> None" using assms that save_failed [of fault _ d] by (auto simp: Audit_Checkpoint_def)
  show "auditKeyValues (k\<lparr>APIKey_SecretHash := h, APIKey_Salt := salt\<rparr>) = auditKeyValues k"
    by (simp add: auditKeyValues_def APIKey_Revoked_def)
  assume "err = None" "0 < AuditStore_max m'"
  then have "load_doc d' = Inr (Some (Some (AuditStore_entries m)))" using assms load_saved by (simp add: Audit_Checkpoint_def)
  then show "Audit_LoadCheckpoint d' m' =
      (None, m'\<lparr>AuditStore_entries := last_n (nat (AuditStore_max m')) (AuditStore_entries m)\<rparr>)"
    using \<open>0 < AuditStore_max m'\<close> by (auto simp: Audit_LoadCheckpoint_def Let_def last_n_def)
qed

theorem audit_restart_witness:
  "Audit_LoadCheckpoint (snd (Audit_Checkpoint False None (store_entry (wit_entry ''a'') (NewAuditStore 5)) DocMissing)) (NewAuditStore 3) =
     (None, store_entry (wit_entry ''a'') (NewAuditStore 3))"
  using audit_restart(1) [of None "store_entry (wit_entry ''a'') (NewAuditStore 5)" DocMissing None _ "NewAuditStore 3"]
  by (simp add: Audit_Checkpoint_def save_doc_def store_entry_def Audit_Append_def NewAuditStore_def Let_def)

end
