(* ===== verification/Http_Core.thy ===== *)
theory Http_Core
  imports Dispatch Audit_Log
begin

text \<open>
  The plumbing every HTTP route shares: the error envelope (\<^verbatim>\<open>internal/httpapi/response.go\<close>), correlation
  ids, authentication and the role and scope gates (\<^verbatim>\<open>middleware.go\<close>, \<^verbatim>\<open>webui.go\<close> for the cookie), the
  global rate limit (\<^verbatim>\<open>ratelimit.go\<close>), idempotent writes (\<^verbatim>\<open>idempotency.go\<close>) and the error mapping of the
  inference routes (\<^verbatim>\<open>inference.go\<close>).

  A middleware that may answer by itself is a gate: it yields a response (\<open>Inl\<close>) or lets the request
  through (\<open>Inr\<close>). A handler is a function on the state behind it. Bodies are the values handed to the
  JSON encoder; random bytes, the clock and the decoded request body are arguments.

  \<^verbatim>\<open>secondsUntil\<close> goes through \<^verbatim>\<open>float64\<close>; below 2^22 seconds, more than any quota window, the sum of
  the whole seconds and the fraction is exact enough for its ceiling to be the integer one used here.
\<close>

section \<open>Responses\<close>

datatype 'b Body = ErrorBody string string string | DataBody 'b | NoBody

record 'b Response =
  Response_status :: nat
  Response_headers :: "(string, string) gomap"
  Response_body :: "'b Body"

definition openAIErrorType :: "nat \<Rightarrow> string" where
  "openAIErrorType status =
     (if status = 401 then ''authentication_error''
      else if status = 429 then ''rate_limit_error''
      else if status \<in> {400, 403, 404, 405, 409, 422} then ''invalid_request_error''
      else ''server_error'')"

definition json_headers :: "(string, string) gomap" where
  "json_headers = [(''Content-Type'', ''application/json'')]"

definition writeJSON :: "nat \<Rightarrow> 'b \<Rightarrow> 'b Response" where
  "writeJSON status v = \<lparr>Response_status = status, Response_headers = json_headers, Response_body = DataBody v\<rparr>"

text \<open>\<open>ErrorBody message code type\<close>.\<close>

definition writeError :: "nat \<Rightarrow> string \<Rightarrow> string \<Rightarrow> 'b Response" where
  "writeError status code msg =
     \<lparr>Response_status = status, Response_headers = json_headers,
      Response_body = ErrorBody msg code (openAIErrorType status)\<rparr>"

definition streamErrorBody :: "JobError option \<Rightarrow> string \<times> string \<times> string" where
  "streamErrorBody jerr =
     (let code = (case jerr of Some e \<Rightarrow> if JobError_Code e \<noteq> [] then JobError_Code e else ''internal_error''
                             | None \<Rightarrow> ''internal_error'')
      in (''inference failed'', code, ''server_error''))"

definition set_header :: "string \<Rightarrow> string \<Rightarrow> 'b Response \<Rightarrow> 'b Response" where
  "set_header k v r = r\<lparr>Response_headers := AList.update k v (Response_headers r)\<rparr>"

section \<open>Requests, correlation ids and tokens\<close>

text \<open>\<open>Request_Header\<close> is \<^verbatim>\<open>Header.Get\<close>, empty when absent; \<open>Request_Cookie\<close> the session cookie.\<close>

record Request =
  Request_Method :: string
  Request_Path :: string
  Request_Header :: "string \<Rightarrow> string"
  Request_Cookie :: "string option"

definition newResponseID :: "bytes option \<Rightarrow> string \<Rightarrow> string" where
  "newResponseID rnd pre = (case rnd of None \<Rightarrow> pre | Some b \<Rightarrow> pre @ EncodeToString b)"

definition maxRequestIDLen :: nat where "maxRequestIDLen = 128"

definition safe_id_char :: "char \<Rightarrow> bool" where
  "safe_id_char c =
     (let n = of_char c :: nat
      in 97 \<le> n \<and> n \<le> 122 \<or> 65 \<le> n \<and> n \<le> 90 \<or> 48 \<le> n \<and> n \<le> 57 \<or> n = 45 \<or> n = 95 \<or> n = 46)"

definition sanitizeRequestID :: "string \<Rightarrow> string" where
  "sanitizeRequestID v =
     (if v = [] \<or> length v > maxRequestIDLen then []
      else if list_all safe_id_char v then v else [])"

definition requestID :: "bytes option \<Rightarrow> Request \<Rightarrow> string" where
  "requestID rnd r =
     (let i = sanitizeRequestID (Request_Header r ''X-Request-Id'')
      in if i = [] then newResponseID rnd ''req-'' else i)"

definition requestIDMiddleware :: "bytes option \<Rightarrow> Request \<Rightarrow> (string \<Rightarrow> 'b Response \<times> 'w) \<Rightarrow> 'b Response \<times> 'w" where
  "requestIDMiddleware rnd r next =
     (let i = requestID rnd r; (resp, w) = next i in (set_header ''X-Request-Id'' i resp, w))"

text \<open>\<open>i\<close> is the id on the context, if any.\<close>

definition jobIDFor :: "bytes option \<Rightarrow> string option \<Rightarrow> string" where
  "jobIDFor rnd i =
     (case i of Some x \<Rightarrow> if x \<noteq> [] then x else newResponseID rnd ''job-'' | None \<Rightarrow> newResponseID rnd ''job-'')"

text \<open>What a handler did: it returned, or it panicked, with the abort sentinel or not, before or after the first byte.\<close>

datatype 'b Outcome_of = Completed "'b Response" | Panicked bool "'b Response option"

definition recoverMiddleware :: "'b Outcome_of \<Rightarrow> 'b Response option" where
  "recoverMiddleware out =
     (case out of
        Completed resp \<Rightarrow> Some resp
      | Panicked abort started \<Rightarrow>
          if abort then None
          else (case started of
                  Some resp \<Rightarrow> Some resp
                | None \<Rightarrow> Some (writeError 500 ''internal_error'' ''internal error'')))"

definition ascii_lower :: "char \<Rightarrow> char" where
  "ascii_lower c = (let n = of_char c :: nat in if 65 \<le> n \<and> n \<le> 90 then char_of (n + 32) else c)"

definition bearerToken :: "Request \<Rightarrow> string option" where
  "bearerToken r =
     (let h = Request_Header r ''Authorization''
      in if h = [] then None
         else if length h < 7 \<or> map ascii_lower (take 7 h) \<noteq> ''bearer '' then None
         else let token = TrimSpace (drop 7 h) in if token = [] then None else Some token)"

definition tokenFromRequest :: "Request \<Rightarrow> string option" where
  "tokenFromRequest r =
     (case Request_Cookie r of
        Some v \<Rightarrow> if TrimSpace v \<noteq> [] then Some (TrimSpace v) else bearerToken r
      | None \<Rightarrow> bearerToken r)"

section \<open>Gates\<close>

definition authMiddleware ::
  "'s StoreOps \<Rightarrow> gotime \<Rightarrow> gotime \<Rightarrow> Request \<Rightarrow> 's \<Rightarrow> ('b Response + APIKey) \<times> 's" where
  "authMiddleware ops now1 now2 r s =
     (case tokenFromRequest r of
        None \<Rightarrow> (Inl (writeError 401 ''unauthorized'' ''missing or malformed bearer token''), s)
      | Some token \<Rightarrow>
          (case Authenticate ops now1 now2 token s of
             (Inl err, s) \<Rightarrow>
               if err = ErrUnauthenticated then (Inl (writeError 401 ''unauthorized'' ''invalid api key''), s)
               else (Inl (writeError 500 ''internal_error'' ''authentication failed''), s)
           | (Inr key, s) \<Rightarrow> (Inr key, s)))"

definition hasRole :: "string list \<Rightarrow> string \<Rightarrow> bool" where
  "hasRole roles role = list_ex (\<lambda>r. r = role) roles"

definition adminMiddleware :: "APIKey option \<Rightarrow> 'b Response option" where
  "adminMiddleware key =
     (case key of
        None \<Rightarrow> Some (writeError 401 ''unauthorized'' ''missing api key'')
      | Some k \<Rightarrow>
          if \<not> hasRole (APIKey_Roles k) RoleAdmin then Some (writeError 403 ''forbidden'' ''admin role required'') else None)"

definition scopeMiddleware :: "string \<Rightarrow> APIKey option \<Rightarrow> 'b Response option" where
  "scopeMiddleware scope key =
     (case key of
        None \<Rightarrow> Some (writeError 401 ''unauthorized'' ''missing api key'')
      | Some k \<Rightarrow>
          if \<not> HasScope k scope then Some (writeError 403 ''forbidden'' ''insufficient scope'') else None)"

section \<open>Idempotent writes\<close>

record 'b cachedResponse =
  cached_status :: nat
  cached_body :: "'b Body"
  cached_contentType :: string
  cached_expires :: gotime

record 'b idempotencyCache =
  cache_entries :: "(string, 'b cachedResponse) gomap"
  cache_ttl :: duration
  cache_max :: int

definition maxIdempotencyKeyLen :: nat where "maxIdempotencyKeyLen = 255"
definition defaultIdempotencyTTL :: duration where "defaultIdempotencyTTL = 24 * hour"
definition idempotencyCacheMax :: int where "idempotencyCacheMax = 4096"

definition newIdempotencyCache :: "duration \<Rightarrow> int \<Rightarrow> 'b idempotencyCache" where
  "newIdempotencyCache ttl mx =
     \<lparr>cache_entries = [], cache_ttl = (if ttl \<le> 0 then defaultIdempotencyTTL else ttl), cache_max = mx\<rparr>"

definition cache_get :: "gotime \<Rightarrow> string \<Rightarrow> 'b idempotencyCache \<Rightarrow> 'b cachedResponse option \<times> 'b idempotencyCache" where
  "cache_get now key c =
     (case map_of (cache_entries c) key of
        None \<Rightarrow> (None, c)
      | Some r \<Rightarrow>
          if \<not> now < cached_expires r then (None, c\<lparr>cache_entries := AList.delete key (cache_entries c)\<rparr>)
          else (Some r, c))"

text \<open>The entries a store keeps before it adds one: at the cap the expired ones go, then all of them.\<close>

definition cache_room :: "gotime \<Rightarrow> 'b idempotencyCache \<Rightarrow> (string, 'b cachedResponse) gomap" where
  "cache_room now c =
     (let es = cache_entries c
      in if cache_max c > 0 \<and> int (length es) \<ge> cache_max c then
           let es = filter (\<lambda>e. now < cached_expires (snd e)) es
           in if int (length es) \<ge> cache_max c then [] else es
         else es)"

definition cache_put :: "gotime \<Rightarrow> string \<Rightarrow> 'b cachedResponse \<Rightarrow> 'b idempotencyCache \<Rightarrow> 'b idempotencyCache" where
  "cache_put now key resp c =
     (let resp = resp\<lparr>cached_expires := now + cache_ttl c\<rparr>
      in c\<lparr>cache_entries := AList.update key resp (cache_room now c)\<rparr>)"

definition composite_key :: "string \<Rightarrow> string \<Rightarrow> string \<Rightarrow> string \<Rightarrow> string" where
  "composite_key actor method path rawKey =
     actor @ [CHR 0x00] @ method @ [CHR 0x00] @ path @ [CHR 0x00] @ rawKey"

text \<open>\<open>now1\<close> is the clock at the lookup, \<open>now2\<close> when the response is stored.\<close>

definition idempotent ::
  "gotime \<Rightarrow> gotime \<Rightarrow> Request \<Rightarrow> APIKey option \<Rightarrow> ('w \<Rightarrow> 'b Response \<times> 'w) \<Rightarrow> 'b idempotencyCache \<times> 'w \<Rightarrow>
    'b Response \<times> 'b idempotencyCache \<times> 'w" where
  "idempotent now1 now2 r actor h st =
     (let (c, w) = st; rawKey = Request_Header r ''Idempotency-Key''
      in if rawKey = [] \<or> length rawKey > maxIdempotencyKeyLen then (let (resp, w) = h w in (resp, c, w))
         else (case actor of
             None \<Rightarrow> (let (resp, w) = h w in (resp, c, w))
           | Some k \<Rightarrow>
               let key = composite_key (APIKey_ID k) (Request_Method r) (Request_Path r) rawKey
               in (case cache_get now1 key c of
                     (Some cached, c) \<Rightarrow>
                       (\<lparr>Response_status = cached_status cached,
                         Response_headers =
                           (if cached_contentType cached \<noteq> [] then [(''Content-Type'', cached_contentType cached)] else []) @
                           [(''Idempotency-Replayed'', ''true'')],
                         Response_body = cached_body cached\<rparr>, c, w)
                   | (None, c) \<Rightarrow>
                       let (resp, w) = h w
                       in if 200 \<le> Response_status resp \<and> Response_status resp < 300 then
                            (resp, cache_put now2 key
                               \<lparr>cached_status = Response_status resp, cached_body = Response_body resp,
                                cached_contentType = gomap_get [] (Response_headers resp) ''Content-Type'', cached_expires = 0\<rparr> c, w)
                          else (resp, c, w))))"

text \<open>
  \<^verbatim>\<open>requireScopeWrite\<close>: authenticate, require the scope, replay or run the handler of the authenticated key.
  \<open>t1\<close> and \<open>t2\<close> are the clocks of the authentication.
\<close>

definition requireScopeWrite ::
  "'s StoreOps \<Rightarrow> string \<Rightarrow> gotime \<Rightarrow> gotime \<Rightarrow> gotime \<Rightarrow> gotime \<Rightarrow> Request \<Rightarrow> (APIKey \<Rightarrow> 'w \<Rightarrow> 'b Response \<times> 'w) \<Rightarrow>
    's \<times> 'b idempotencyCache \<times> 'w \<Rightarrow> 'b Response \<times> 's \<times> 'b idempotencyCache \<times> 'w" where
  "requireScopeWrite ops scope t1 t2 now1 now2 r h st =
     (let (s, c, w) = st
      in case authMiddleware ops t1 t2 r s of
           (Inl resp, s) \<Rightarrow> (resp, s, c, w)
         | (Inr key, s) \<Rightarrow>
             (case scopeMiddleware scope (Some key) of
                Some resp \<Rightarrow> (resp, s, c, w)
              | None \<Rightarrow> let (resp, c, w) = idempotent now1 now2 r (Some key) (h key) (c, w) in (resp, s, c, w)))"

section \<open>Rate limiting and submit errors\<close>

record Limiter =
  Limiter_quota :: "Engine option"
  Limiter_globalThrottled :: uint64
  Limiter_keyThrottled :: uint64

definition secondsUntil :: "gotime \<Rightarrow> gotime \<Rightarrow> int" where
  "secondsUntil reset now =
     (let d = time_sub reset now
      in if d \<le> 0 then 1 else let secs = (d + second - 1) div second in if secs < 1 then 1 else secs)"

definition rateLimitMiddleware :: "gotime \<Rightarrow> Limiter \<Rightarrow> 'b Response option \<times> Limiter" where
  "rateLimitMiddleware now l =
     (case Limiter_quota l of
        None \<Rightarrow> (None, l)
      | Some q \<Rightarrow>
          (case CheckAndReserveGlobal now q of
             (None, q) \<Rightarrow> (None, l\<lparr>Limiter_quota := Some q\<rparr>)
           | (Some ErrQuotaExceeded, q) \<Rightarrow>
               (Some (set_header ''Retry-After'' (Itoa (secondsUntil (GlobalMinuteReset now) now))
                  (writeError 429 ''rate_limit_exceeded'' ''rate limit exceeded'')),
                l\<lparr>Limiter_quota := Some q, Limiter_globalThrottled := Limiter_globalThrottled l + 1\<rparr>)))"

fun statusForError :: "ServerError \<Rightarrow> nat \<times> string \<times> string" where
  "statusForError (ErrAuthz ErrForbidden) = (403, ''forbidden'', ''not permitted to use this model'')"
| "statusForError (ErrQuota ErrQuotaExceeded) = (429, ''rate_limit_exceeded'', ''quota exceeded'')"
| "statusForError (ErrQueue ErrQueueFull) = (503, ''unavailable'', ''no capacity available'')"
| "statusForError ErrModelUnavailable = (503, ''unavailable'', ''no worker available for the requested model'')"
| "statusForError ErrShuttingDown = (503, ''unavailable'', ''server shutting down'')"
| "statusForError (ErrInvalid e) = (400, ''invalid_request_error'', ''invalid request'')"
| "statusForError _ = (500, ''internal_error'', ''internal error'')"

definition annotatePerKey429 :: "gotime \<Rightarrow> APIKey option \<Rightarrow> Limiter \<Rightarrow> int option \<times> Limiter" where
  "annotatePerKey429 now key l =
     (let l = l\<lparr>Limiter_keyThrottled := Limiter_keyThrottled l + 1\<rparr>
      in case (key, Limiter_quota l) of
           (Some k, Some q) \<Rightarrow>
             let (snap, q) = UsageForKey now k q; l = l\<lparr>Limiter_quota := Some q\<rparr>
             in (case RetryAfter snap now of
                   Some reset \<Rightarrow> (Some (secondsUntil reset now), l)
                 | None \<Rightarrow> (None, l))
         | _ \<Rightarrow> (None, l))"

definition writeSubmitError :: "gotime \<Rightarrow> APIKey option \<Rightarrow> ServerError \<Rightarrow> Limiter \<Rightarrow> 'b Response \<times> Limiter" where
  "writeSubmitError now key err l =
     (let (status, code, msg) = statusForError err
      in if status = 429 \<and> err = ErrQuota ErrQuotaExceeded then
           let (retry, l) = annotatePerKey429 now key l; resp = writeError status code msg
           in (case retry of None \<Rightarrow> resp | Some n \<Rightarrow> set_header ''Retry-After'' (Itoa n) resp, l)
         else (writeError status code msg, l))"

record usage =
  usage_PromptTokens :: uint64
  usage_CompletionTokens :: uint64
  usage_TotalTokens :: uint64

definition usageFrom :: "uint64 \<Rightarrow> uint64 \<Rightarrow> uint64 \<Rightarrow> usage" where
  "usageFrom prompt completion tokens =
     (let sum = prompt + completion
      in if sum = 0 then \<lparr>usage_PromptTokens = 0, usage_CompletionTokens = tokens, usage_TotalTokens = tokens\<rparr>
         else
           let tokens = (if tokens < sum then sum else tokens)
           in \<lparr>usage_PromptTokens = prompt, usage_CompletionTokens = completion, usage_TotalTokens = tokens\<rparr>)"

definition finishReasonOrStop :: "string \<Rightarrow> string" where
  "finishReasonOrStop r = (if r = [] then ''stop'' else r)"

text \<open>\<open>body\<close> is the decoded body, \<open>None\<close> when it does not decode.\<close>

definition decodePost :: "Request \<Rightarrow> 'a option \<Rightarrow> 'b Response + 'a" where
  "decodePost r body =
     (if Request_Method r \<noteq> ''POST'' then
        Inl (set_header ''Allow'' ''POST'' (writeError 405 ''method_not_allowed'' ''method not allowed''))
      else case body of
          None \<Rightarrow> Inl (writeError 400 ''invalid_request_error'' ''malformed request body'')
        | Some v \<Rightarrow> Inr v)"

section \<open>Lemmas\<close>

lemma composite_key_inj:
  assumes "CHR 0x00 \<notin> set a" "CHR 0x00 \<notin> set a'" "CHR 0x00 \<notin> set m" "CHR 0x00 \<notin> set m'"
    and "CHR 0x00 \<notin> set k" "CHR 0x00 \<notin> set k'"
    and "composite_key a m p k = composite_key a' m' p' k'"
  shows "a = a' \<and> m = m' \<and> p = p' \<and> k = k'"
proof -
  have cut: "x = x' \<and> y = y'" if "x @ [c] @ y = x' @ [c] @ y'" "c \<notin> set x" "c \<notin> set x'" for x y x' y' and c :: char
  proof -
    have "takeWhile (\<lambda>d. d \<noteq> c) (x @ c # y) = x" "takeWhile (\<lambda>d. d \<noteq> c) (x' @ c # y') = x'"
      using that(2,3) by (auto simp: takeWhile_append2 takeWhile_tail)
    then have "x = x'" using that(1) by simp
    then show ?thesis using that(1) by simp
  qed
  let ?z = "CHR 0x00"
  have 1: "a = a' \<and> m @ [?z] @ p @ [?z] @ k = m' @ [?z] @ p' @ [?z] @ k'"
    using cut [OF _ assms(1,2)] assms(7) unfolding composite_key_def by blast
  then have 2: "m = m' \<and> p @ [?z] @ k = p' @ [?z] @ k'" using cut [OF _ assms(3,4)] by blast
  have "rev k @ [?z] @ rev p = rev k' @ [?z] @ rev p'" using arg_cong [OF conjunct2 [OF 2], of rev] by simp
  then have "rev k = rev k' \<and> rev p = rev p'" using cut [of "rev k" ?z "rev p" "rev k'" "rev p'"] assms(5,6) by simp
  then show ?thesis using 1 2 by simp
qed

lemma length_update: "length (AList.update k v es) \<le> length es + 1"
  by (induction es) auto

lemma cache_put_bounded:
  assumes "0 < cache_max c"
  shows "int (length (cache_entries (cache_put now key resp c))) \<le> cache_max c"
proof -
  have "int (length (cache_room now c)) < cache_max c" using assms by (auto simp: cache_room_def Let_def)
  then show ?thesis
    using length_update [of key "resp\<lparr>cached_expires := now + cache_ttl c\<rparr>" "cache_room now c"] by (simp add: cache_put_def)
qed

lemma cache_get_hit:
  "cache_get now key (cache_put then' key resp c) =
     (if now < then' + cache_ttl c then (Some (resp\<lparr>cached_expires := then' + cache_ttl c\<rparr>), cache_put then' key resp c)
      else (None, (cache_put then' key resp c)\<lparr>cache_entries := AList.delete key (cache_entries (cache_put then' key resp c))\<rparr>))"
  by (simp add: cache_get_def cache_put_def update_conv')

section \<open>Properties\<close>

text \<open>
  C8. Nothing behind an admin write route runs without the right to it. Whatever the request, the route
  either answers 401, 403 or 500 and leaves the state behind the handler and the response cache as they
  were, or the presented token authenticated as a key that holds the scope; and in that case the answer
  is the handler's for that key, or a replay that does not run the handler at all.
\<close>

theorem admin_write_gate:
  fixes resp :: "'b Response" and s :: 's
  assumes "requireScopeWrite ops scope t1 t2 now1 now2 r h (s, c, w) = (resp, s', c', w')"
  shows "(\<exists>token key. tokenFromRequest r = Some token \<and> Authenticate ops t1 t2 token s = (Inr key, s') \<and> HasScope key scope \<and>
      (h key w = (resp, w') \<or>
       w' = w \<and> Request_Header r ''Idempotency-Key'' \<noteq> [] \<and> map_of (Response_headers resp) ''Idempotency-Replayed'' = Some ''true'')) \<or>
    Response_status resp \<in> {401, 403, 500} \<and> c' = c \<and> w' = w"
proof (cases "authMiddleware ops t1 t2 r s :: ('b Response + APIKey) \<times> 's")
  case (Pair res s1)
  show ?thesis
  proof (cases res)
    case (Inl e)
    then have "Response_status e \<in> {401, 403, 500}"
      using Pair by (auto simp: authMiddleware_def writeError_def split: option.splits prod.splits sum.splits if_splits)
    then show ?thesis using assms Pair Inl by (simp add: requireScopeWrite_def)
  next
    case (Inr key)
    obtain token where auth: "tokenFromRequest r = Some token" "Authenticate ops t1 t2 token s = (Inr key, s1)"
      using Pair Inr by (auto simp: authMiddleware_def split: option.splits prod.splits sum.splits if_splits)
    show ?thesis
    proof (cases "HasScope key scope")
      case False
      then show ?thesis
        using assms Pair Inr by (auto simp: requireScopeWrite_def scopeMiddleware_def writeError_def)
    next
      case True
      then have run: "idempotent now1 now2 r (Some key) (h key) (c, w) = (resp, c', w')" "s' = s1"
        using assms Pair Inr by (auto simp: requireScopeWrite_def scopeMiddleware_def split: prod.splits)
      then have "h key w = (resp, w') \<or> w' = w \<and> Request_Header r ''Idempotency-Key'' \<noteq> [] \<and>
          map_of (Response_headers resp) ''Idempotency-Replayed'' = Some ''true''"
        by (auto simp: idempotent_def Let_def split: prod.splits option.splits if_splits)
      then show ?thesis using auth True run(2) by blast
    qed
  qed
qed

lemma replay_facts:
  assumes "idempotent t1 t2 r (Some k) h (c, w) = (resp, c1, w1)"
    and "Request_Header r ''Idempotency-Key'' \<noteq> []" and "length (Request_Header r ''Idempotency-Key'') \<le> 255"
    and "h w = (resp, w1)" and "200 \<le> Response_status resp" and "Response_status resp < 300"
    and "fst (cache_get t1 (composite_key (APIKey_ID k) (Request_Method r) (Request_Path r) (Request_Header r ''Idempotency-Key'')) c) = None"
    and "t3 < t2 + cache_ttl c"
  shows "\<exists>resp'. idempotent t3 t4 r (Some k) h' (c1, w2) = (resp', c1, w2) \<and>
    Response_status resp' = Response_status resp \<and> Response_body resp' = Response_body resp"
    and "CHR 0x00 \<notin> set (APIKey_ID k @ Request_Method r @ Request_Header r ''Idempotency-Key'') \<Longrightarrow>
      CHR 0x00 \<notin> set (APIKey_ID k' @ Request_Method r' @ Request_Header r' ''Idempotency-Key'') \<Longrightarrow>
      composite_key (APIKey_ID k) (Request_Method r) (Request_Path r) (Request_Header r ''Idempotency-Key'') =
        composite_key (APIKey_ID k') (Request_Method r') (Request_Path r') (Request_Header r' ''Idempotency-Key'') \<Longrightarrow>
      APIKey_ID k = APIKey_ID k' \<and> Request_Method r = Request_Method r' \<and> Request_Path r = Request_Path r' \<and>
        Request_Header r ''Idempotency-Key'' = Request_Header r' ''Idempotency-Key''"
proof -
  let ?key = "composite_key (APIKey_ID k) (Request_Method r) (Request_Path r) (Request_Header r ''Idempotency-Key'')"
  let ?cached = "\<lparr>cached_status = Response_status resp, cached_body = Response_body resp,
    cached_contentType = gomap_get [] (Response_headers resp) ''Content-Type'', cached_expires = 0\<rparr>"
  obtain c0 where c0: "cache_get t1 ?key c = (None, c0)" using assms(7) by (cases "cache_get t1 ?key c") simp
  then have ttl: "cache_ttl c0 = cache_ttl c" by (auto simp: cache_get_def split: option.splits if_splits)
  have len: "length (Request_Header r ''Idempotency-Key'') \<le> maxIdempotencyKeyLen" using assms(3) by (simp add: maxIdempotencyKeyLen_def)
  have "idempotent t1 t2 r (Some k) h (c, w) = (resp, cache_put t2 ?key ?cached c0, w1)"
    using assms(2,4,5,6) c0 len by (simp add: idempotent_def Let_def)
  then have c1: "c1 = cache_put t2 ?key ?cached c0" using assms(1) by simp
  have hit: "cache_get t3 ?key c1 = (Some (?cached\<lparr>cached_expires := t2 + cache_ttl c\<rparr>), c1)"
    using assms(8) by (simp add: c1 cache_get_hit ttl)
  then show "\<exists>resp'. idempotent t3 t4 r (Some k) h' (c1, w2) = (resp', c1, w2) \<and>
      Response_status resp' = Response_status resp \<and> Response_body resp' = Response_body resp"
    using assms(2) len by (simp add: idempotent_def Let_def)
next
  let ?h = "Request_Header r ''Idempotency-Key''" let ?h' = "Request_Header r' ''Idempotency-Key''"
  assume "CHR 0x00 \<notin> set (APIKey_ID k @ Request_Method r @ ?h)" "CHR 0x00 \<notin> set (APIKey_ID k' @ Request_Method r' @ ?h')"
    and eq: "composite_key (APIKey_ID k) (Request_Method r) (Request_Path r) ?h =
      composite_key (APIKey_ID k') (Request_Method r') (Request_Path r') ?h'"
  then have nul: "CHR 0x00 \<notin> set (APIKey_ID k)" "CHR 0x00 \<notin> set (APIKey_ID k')" "CHR 0x00 \<notin> set (Request_Method r)"
    "CHR 0x00 \<notin> set (Request_Method r')" "CHR 0x00 \<notin> set ?h" "CHR 0x00 \<notin> set ?h'" by simp_all
  from composite_key_inj [OF this eq]
  show "APIKey_ID k = APIKey_ID k' \<and> Request_Method r = Request_Method r' \<and> Request_Path r = Request_Path r' \<and> ?h = ?h'" by blast
qed


text \<open>The example: a write whose handler counts its runs.\<close>

definition wit_write :: Request where
  "wit_write = \<lparr>Request_Method = ''POST'', Request_Path = ''/v1/admin/keys'',
     Request_Header = (\<lambda>k. if k = ''Idempotency-Key'' then ''i1'' else []), Request_Cookie = None\<rparr>"

definition wit_authorized :: Request where
  "wit_authorized = wit_write\<lparr>Request_Header := (\<lambda>k. if k = ''Idempotency-Key'' then ''i1''
     else if k = ''Authorization'' then ''Bearer agpu_id1_sec'' else [])\<rparr>"

definition wit_gate_key :: APIKey where
  "wit_gate_key = zero_APIKey\<lparr>APIKey_ID := ''id1'', APIKey_SecretHash := hashSecret [] ''sec'', APIKey_AdminScopes := [''keys:write'']\<rparr>"

definition wit_gate_store :: File where
  "wit_gate_store = snd (File_PutAPIKey wit_gate_key (wit_file []))"

definition wit_counted :: "nat \<Rightarrow> nat Response \<times> nat" where
  "wit_counted n = (writeJSON 201 n, n + 1)"

definition wit_first :: "nat Response \<times> nat idempotencyCache \<times> nat" where
  "wit_first = idempotent 1 2 wit_write (Some zero_APIKey) wit_counted (newIdempotencyCache 0 10, 7)"

lemma wit_first_eq:
  "idempotent 1 2 wit_write (Some zero_APIKey) wit_counted (newIdempotencyCache 0 10, 7) = (writeJSON 201 7, fst (snd wit_first), 8)"
  by (simp add: wit_first_def idempotent_def cache_get_def newIdempotencyCache_def wit_write_def maxIdempotencyKeyLen_def
      wit_counted_def writeJSON_def)

lemma wit_authorized_key: "Request_Header wit_authorized ''Idempotency-Key'' = ''i1''"
  by (simp add: wit_authorized_def)

lemma wit_gate_auth:
  "authMiddleware File_ops 1 2 wit_authorized wit_gate_store =
    (Inr (wit_gate_key\<lparr>APIKey_UsageCount := 1, APIKey_LastUsedAt := 2\<rparr>),
     snd (File_PutAPIKey (wit_gate_key\<lparr>APIKey_UsageCount := 1, APIKey_LastUsedAt := 2\<rparr>) wit_gate_store))"
proof -
  have i: "File_inv (wit_file [])" by (rule wit_store_facts(1))
  have get: "get_key File_ops wit_gate_store ''id1'' = Some wit_gate_key"
    using file_store.get_put [OF i, of wit_gate_key "''id1''"]
    by (simp add: wit_gate_store_def put_File wit_gate_key_def)
  have tok: "parseToken ''agpu_id1_sec'' = Some (''id1'', ''sec'')"
    unfolding parseToken_iff by (simp add: formatToken_def Prefix_def)
  have trim: "TrimSpace ''agpu_id1_sec'' = ''agpu_id1_sec''"
    by (rule TrimSpace_clean, rule clean_plain) simp_all
  have auth: "authentic (get_key File_ops wit_gate_store) 1 ''agpu_id1_sec'' = Some wit_gate_key"
    using get by (simp add: authentic_def tok wit_gate_key_def zero_APIKey_def APIKey_Revoked_def APIKey_Expired_def)
  have "map ascii_lower ''Bearer '' = ''bearer ''" by code_simp
  then have "tokenFromRequest wit_authorized = Some ''agpu_id1_sec''"
    by (simp add: tokenFromRequest_def bearerToken_def wit_authorized_def wit_write_def trim)
  moreover have "File_faults wit_gate_store = []"
    by (simp add: wit_gate_store_def File_PutAPIKey_def File_flush_def wit_file_def Let_def)
  then obtain s1 where "File_PutAPIKey (wit_gate_key\<lparr>APIKey_UsageCount := 1, APIKey_LastUsedAt := 2\<rparr>) wit_gate_store = (None, s1)"
    by (simp add: File_PutAPIKey_def File_flush_def Let_def)
  moreover have "APIKey_UsageCount wit_gate_key = 0" by (simp add: wit_gate_key_def zero_APIKey_def)
  ultimately show ?thesis
    by (simp add: authMiddleware_def file_store.Authenticate_eq auth put_File Let_def)
qed

theorem admin_write_gate_witness:
  "\<exists>s' c'. requireScopeWrite File_ops ''keys:write'' 1 2 3 4 wit_authorized (\<lambda>k. wit_counted)
       (wit_gate_store, newIdempotencyCache 0 10, 7) = (writeJSON 201 7, s', c', 8) \<and>
     (\<exists>token key. Authenticate File_ops 1 2 token wit_gate_store = (Inr key, s') \<and> HasScope key ''keys:write'')"
proof -
  obtain s' c' where run: "requireScopeWrite File_ops ''keys:write'' 1 2 3 4 wit_authorized (\<lambda>k. wit_counted)
      (wit_gate_store, newIdempotencyCache 0 10, 7) = (writeJSON 201 7, s', c', 8)"
    by (simp add: requireScopeWrite_def wit_gate_auth scopeMiddleware_def HasScope_def wit_gate_key_def
        zero_APIKey_def idempotent_def cache_get_def newIdempotencyCache_def wit_authorized_key maxIdempotencyKeyLen_def
        wit_counted_def writeJSON_def Let_def)
  have "Response_status (writeJSON 201 (7 :: nat)) \<notin> {401, 403, 500}" by (simp add: writeJSON_def)
  with admin_write_gate [OF run] run show ?thesis by blast
qed


end
