(* ===== verification/Chat_Api.thy ===== *)
theory Chat_Api
  imports Http_Core Worker_Agent
begin

text \<open>
  The inference and session endpoints: \<^verbatim>\<open>internal/httpapi/chat.go\<close>, \<^verbatim>\<open>completions.go\<close>, \<^verbatim>\<open>sessions.go\<close>,
  the frames of \<^verbatim>\<open>sse.go\<close> and the token meter of \<^verbatim>\<open>metrics.go\<close>. A handler that waits for a job is a part up
  to the submission, which ends with the job to submit, and a part that turns what the engine returned
  into the answer: an error, a result, or the chunks its channel delivers before it is closed. A decoded
  body is an argument; an absent JSON field is empty.

  The lemmas show that a stateful turn dispatches the stored history followed by the new messages and
  stores exactly what the client was told, that a failed or abandoned one stores nothing, and what
  streaming makes of an executor's output.
\<close>

section \<open>Wire messages\<close>

record chatToolCallWire =
  Wire_ID :: string
  Wire_Type :: string
  Wire_Name :: string
  Wire_Arguments :: string

record apiMessage =
  apiMessage_Role :: string
  apiMessage_Content :: string
  apiMessage_Name :: string
  apiMessage_ToolCallID :: string
  apiMessage_ToolCalls :: "chatToolCallWire list"

record apiTool =
  apiTool_Type :: string
  apiTool_Name :: string
  apiTool_Description :: string
  apiTool_Parameters :: string

record chatCompletionRequest =
  chatReq_Model :: string
  chatReq_Messages :: "apiMessage list"
  chatReq_Stream :: bool
  chatReq_Tools :: "apiTool list"
  chatReq_SessionID :: string

definition or_function :: "string \<Rightarrow> string" where
  "or_function typ = (if typ = [] then ''function'' else typ)"

definition toDomainToolCalls :: "chatToolCallWire list \<Rightarrow> ToolCall list" where
  "toDomainToolCalls cs = map (\<lambda>c. \<lparr>ToolCall_ID = Wire_ID c, ToolCall_Type = or_function (Wire_Type c),
     ToolCall_FunctionName = Wire_Name c, ToolCall_Arguments = Wire_Arguments c\<rparr>) cs"

definition toDomainMessages :: "apiMessage list \<Rightarrow> Message list" where
  "toDomainMessages ms = map (\<lambda>m. \<lparr>Message_Role = apiMessage_Role m, Message_Content = apiMessage_Content m,
     Message_ToolCallID = apiMessage_ToolCallID m, Message_Name = apiMessage_Name m,
     Message_ToolCalls = toDomainToolCalls (apiMessage_ToolCalls m)\<rparr>) ms"

definition toDomainTools :: "apiTool list \<Rightarrow> Tool list" where
  "toDomainTools ts = map (\<lambda>t. \<lparr>Tool_Type = or_function (apiTool_Type t), Tool_Function =
     \<lparr>ToolFunction_Name = apiTool_Name t, ToolFunction_Description = apiTool_Description t,
      ToolFunction_Parameters = apiTool_Parameters t\<rparr>\<rparr>) ts"

text \<open>One read of the entropy source for a fresh id; an exhausted list is a failing source.\<close>

definition draw_id :: "string \<Rightarrow> entropy \<Rightarrow> string \<times> entropy" where
  "draw_id pre rnd = (case rnd of [] \<Rightarrow> (newResponseID None pre, []) | b # bs \<Rightarrow> (newResponseID b pre, bs))"

primrec fromDomainToolCalls :: "ToolCall list \<Rightarrow> entropy \<Rightarrow> chatToolCallWire list \<times> entropy" where
  "fromDomainToolCalls [] rnd = ([], rnd)"
| "fromDomainToolCalls (c # cs) rnd =
     (let (i, rnd) = (if ToolCall_ID c = [] then draw_id ''call_'' rnd else (ToolCall_ID c, rnd));
          w = \<lparr>Wire_ID = i, Wire_Type = or_function (ToolCall_Type c), Wire_Name = ToolCall_FunctionName c,
               Wire_Arguments = ToolCall_Arguments c\<rparr>;
          (ws, rnd) = fromDomainToolCalls cs rnd
      in (w # ws, rnd))"

primrec fromDomainMessages :: "Message list \<Rightarrow> entropy \<Rightarrow> apiMessage list \<times> entropy" where
  "fromDomainMessages [] rnd = ([], rnd)"
| "fromDomainMessages (m # ms) rnd =
     (let (calls, rnd) = fromDomainToolCalls (Message_ToolCalls m) rnd;
          a = \<lparr>apiMessage_Role = Message_Role m, apiMessage_Content = Message_Content m, apiMessage_Name = Message_Name m,
               apiMessage_ToolCallID = Message_ToolCallID m, apiMessage_ToolCalls = calls\<rparr>;
          (as, rnd) = fromDomainMessages ms rnd
      in (a # as, rnd))"

section \<open>The state behind the handlers\<close>

text \<open>The session manager, absent when sessions are not wired in; the limiter; the metered tokens.\<close>

record Api =
  Api_sessions :: "Manager option"
  Api_limiter :: Limiter
  Api_metered :: "(string \<times> uint64 \<times> uint64) list"

definition recordTokens :: "string \<Rightarrow> uint64 \<Rightarrow> uint64 \<Rightarrow> uint64 \<Rightarrow> Api \<Rightarrow> Api" where
  "recordTokens model prompt completion tokens st =
     (if prompt + completion = 0 then st\<lparr>Api_metered := Api_metered st @ [(model, 0, tokens)]\<rparr>
      else st\<lparr>Api_metered := Api_metered st @ [(model, prompt, completion)]\<rparr>)"

definition submit_error :: "gotime \<Rightarrow> APIKey \<Rightarrow> ServerError \<Rightarrow> Api \<Rightarrow> 'b Response \<times> Api" where
  "submit_error now key err st =
     (let (resp, l) = writeSubmitError now (Some key) err (Api_limiter st) in (resp, st\<lparr>Api_limiter := l\<rparr>))"

definition writeSessionLookupError :: "SessionError \<Rightarrow> 'b Response" where
  "writeSessionLookupError err =
     (if err = ErrSessionNotFound then writeError 404 ''not_found'' ''session not found''
      else if err = ErrSessionLimitExceeded then
        writeError 409 ''session_limit_exceeded'' ''session history limit reached''
      else writeError 500 ''internal_error'' ''internal error'')"

section \<open>Chat\<close>

datatype chatMode = modeStateless | modeAffinity | modeStateful

definition chatModeName :: "chatMode \<Rightarrow> string" where
  "chatModeName m = (case m of modeAffinity \<Rightarrow> ''affinity'' | modeStateful \<Rightarrow> ''stateful'' | _ \<Rightarrow> ''stateless'')"

definition resolveSession :: "Request \<Rightarrow> chatCompletionRequest \<Rightarrow> chatMode \<times> string" where
  "resolveSession r req =
     (let header = Request_Header r ''X-Session-Id''
      in if chatReq_SessionID req \<noteq> [] then (modeStateful, chatReq_SessionID req)
         else if header \<noteq> [] then (modeAffinity, header)
         else (modeStateless, []))"

text \<open>What a chat request is after its checks: the key, the session mode and id, and the job.\<close>

record ChatTurn =
  Turn_req :: chatCompletionRequest
  Turn_key :: APIKey
  Turn_mode :: chatMode
  Turn_session :: string
  Turn_job :: Job

text \<open>\<open>i\<close> is the correlation id on the context; \<open>now1\<close> and \<open>now2\<close> the clocks of the two session calls.\<close>

definition handleChatCompletions_start ::
  "bytes option \<Rightarrow> gotime \<Rightarrow> gotime \<Rightarrow> Request \<Rightarrow> string option \<Rightarrow> chatCompletionRequest option \<Rightarrow> APIKey option \<Rightarrow> Api \<Rightarrow>
    'b Response + ChatTurn" where
  "handleChatCompletions_start rnd now1 now2 r i body key st =
     (case decodePost r body of
        Inl resp \<Rightarrow> Inl resp
      | Inr req \<Rightarrow>
          (case key of
             None \<Rightarrow> Inl (writeError 401 ''unauthorized'' ''missing api key'')
           | Some k \<Rightarrow>
               let (mode, sid) = resolveSession r req;
                   newTurns = toDomainMessages (chatReq_Messages req);
                   job = zero_Job\<lparr>Job_ID := jobIDFor rnd i, Job_Model := chatReq_Model req, Job_Messages := newTurns,
                     Job_Tools := toDomainTools (chatReq_Tools req), Job_SessionID := sid\<rparr>;
                   turn = \<lparr>Turn_req = req, Turn_key = k, Turn_mode = mode, Turn_session = sid, Turn_job = job\<rparr>
               in case Api_sessions st of
                    None \<Rightarrow>
                      if mode \<noteq> modeStateless then Inl (writeError 501 ''not_implemented'' ''sessions are not enabled'')
                      else Inr turn
                  | Some m \<Rightarrow>
                      if mode \<noteq> modeStateful then Inr turn
                      else
                        (case CheckAppendable sid (APIKey_ID k) newTurns now1 m of
                           Some err \<Rightarrow> Inl (writeSessionLookupError err)
                         | None \<Rightarrow>
                             (case Session_History sid (APIKey_ID k) now2 m of
                                Inl err \<Rightarrow> Inl (writeSessionLookupError err)
                              | Inr hist \<Rightarrow> Inr (turn\<lparr>Turn_job := job\<lparr>Job_Messages := hist @ newTurns\<rparr>\<rparr>)))))"

text \<open>An append that fails is logged and dropped.\<close>

definition persistTurn ::
  "gotime \<Rightarrow> string \<Rightarrow> string \<Rightarrow> apiMessage list \<Rightarrow> string \<Rightarrow> ToolCall list \<Rightarrow> Api \<Rightarrow> Api" where
  "persistTurn now sid owner newMessages output toolCalls st =
     (case Api_sessions st of
        None \<Rightarrow> st
      | Some m \<Rightarrow>
          let turns = toDomainMessages newMessages;
              turns = turns @ [zero_Message\<lparr>Message_Role := ''assistant'', Message_Content := output,
                Message_ToolCalls := toolCalls\<rparr>]
          in st\<lparr>Api_sessions := Some (snd (AppendTurns sid owner turns now m))\<rparr>)"

record chatCompletionResponse =
  chatResp_ID :: string
  chatResp_Created :: int
  chatResp_Model :: string
  chatResp_Message :: apiMessage
  chatResp_FinishReason :: string
  chatResp_Usage :: usage

text \<open>\<open>t\<close> is the clock of the append, \<open>created\<close> that of the answer.\<close>

definition handleChatCompletions_finish ::
  "entropy \<Rightarrow> gotime \<Rightarrow> gotime \<Rightarrow> ChatTurn \<Rightarrow> ServerError + JobResult \<Rightarrow> Api \<Rightarrow> chatCompletionResponse Response \<times> Api" where
  "handleChatCompletions_finish rnd t created turn out st =
     (case out of
        Inl err \<Rightarrow> submit_error t (Turn_key turn) err st
      | Inr res \<Rightarrow>
          let req = Turn_req turn;
              (calls, rnd) = fromDomainToolCalls (JobResult_ToolCalls res) rnd;
              assistant = \<lparr>apiMessage_Role = ''assistant'', apiMessage_Content = JobResult_Output res, apiMessage_Name = [],
                apiMessage_ToolCallID = [], apiMessage_ToolCalls = calls\<rparr>;
              st = recordTokens (chatReq_Model req) (JobResult_PromptTokens res) (JobResult_CompletionTokens res)
                (JobResult_Tokens res) st;
              st = (if Turn_mode turn = modeStateful then
                      persistTurn t (Turn_session turn) (APIKey_ID (Turn_key turn)) (chatReq_Messages req)
                        (JobResult_Output res) (JobResult_ToolCalls res) st
                    else st)
          in (writeJSON 200
                \<lparr>chatResp_ID = fst (draw_id ''chatcmpl-'' rnd), chatResp_Created = created div second,
                 chatResp_Model = chatReq_Model req, chatResp_Message = assistant,
                 chatResp_FinishReason = finishReasonOrStop (JobResult_FinishReason res),
                 chatResp_Usage = usageFrom (JobResult_PromptTokens res) (JobResult_CompletionTokens res) (JobResult_Tokens res)\<rparr>,
              st))"

section \<open>Streaming chat\<close>

text \<open>The frames of a stream: a chunk, an error envelope, or the final sentinel.\<close>

datatype 'a SSE = SSEData 'a | SSEError "string \<times> string \<times> string" | SSEDone

record chatChunkResponse =
  chatChunk_ID :: string
  chatChunk_Created :: int
  chatChunk_Model :: string
  chatChunk_Role :: string
  chatChunk_Content :: string
  chatChunk_ToolCalls :: "chatToolCallWire list"
  chatChunk_FinishReason :: "string option"

text \<open>The variables of the loop.\<close>

record StreamAcc =
  Acc_content :: string
  Acc_toolCalls :: "ToolCall list"
  Acc_roleSent :: bool
  Acc_sawDone :: bool
  Acc_failed :: bool
  Acc_tokens :: "uint64 \<times> uint64 \<times> uint64"
  Acc_frames :: "chatChunkResponse SSE list"
  Acc_rnd :: entropy

definition stream_frame :: "string \<Rightarrow> int \<Rightarrow> string \<Rightarrow> JobChunk \<Rightarrow> StreamAcc \<Rightarrow> StreamAcc" where
  "stream_frame i created model chunk a =
     (let (calls, rnd) = fromDomainToolCalls (JobChunk_ToolCalls chunk) (Acc_rnd a);
          frame = \<lparr>chatChunk_ID = i, chatChunk_Created = created, chatChunk_Model = model,
            chatChunk_Role = (if Acc_roleSent a then [] else ''assistant''), chatChunk_Content = JobChunk_Delta chunk,
            chatChunk_ToolCalls = calls,
            chatChunk_FinishReason = (if JobChunk_Done chunk then Some (finishReasonOrStop (JobChunk_FinishReason chunk)) else None)\<rparr>;
          a = a\<lparr>Acc_content := Acc_content a @ JobChunk_Delta chunk, Acc_toolCalls := Acc_toolCalls a @ JobChunk_ToolCalls chunk,
            Acc_roleSent := True, Acc_rnd := rnd, Acc_frames := Acc_frames a @ [SSEData frame]\<rparr>
      in if JobChunk_Done chunk then
           a\<lparr>Acc_sawDone := True,
             Acc_tokens := (JobChunk_PromptTokens chunk, JobChunk_CompletionTokens chunk, JobChunk_Tokens chunk)\<rparr>
         else a)"

primrec streamChat_loop :: "string \<Rightarrow> int \<Rightarrow> string \<Rightarrow> JobChunk list \<Rightarrow> StreamAcc \<Rightarrow> StreamAcc" where
  "streamChat_loop i created model [] a = a"
| "streamChat_loop i created model (chunk # chunks) a =
     (case JobChunk_Err chunk of
        Some e \<Rightarrow> a\<lparr>Acc_failed := True, Acc_frames := Acc_frames a @ [SSEError (streamErrorBody (Some e))]\<rparr>
      | None \<Rightarrow> streamChat_loop i created model chunks (stream_frame i created model chunk a))"

definition stream_init :: "entropy \<Rightarrow> StreamAcc" where
  "stream_init rnd = \<lparr>Acc_content = [], Acc_toolCalls = [], Acc_roleSent = False, Acc_sawDone = False, Acc_failed = False,
     Acc_tokens = (0, 0, 0), Acc_frames = [], Acc_rnd = rnd\<rparr>"

datatype 'a Reply = Reply "'a Response" | Stream "'a SSE list"

text \<open>\<open>flush\<close>: the writer can be flushed; \<open>gone\<close>: the client has left by the end of the stream.\<close>

definition streamChat ::
  "entropy \<Rightarrow> gotime \<Rightarrow> gotime \<Rightarrow> bool \<Rightarrow> bool \<Rightarrow> ChatTurn \<Rightarrow> ServerError + JobChunk list \<Rightarrow> Api \<Rightarrow>
    chatChunkResponse Reply \<times> Api" where
  "streamChat rnd t created flush gone turn out st =
     (case out of
        Inl err \<Rightarrow> (let (resp, st) = submit_error t (Turn_key turn) err st in (Reply resp, st))
      | Inr chunks \<Rightarrow>
          if \<not> flush then (Reply (writeError 500 ''internal_error'' ''streaming unsupported''), st)
          else
            let model = chatReq_Model (Turn_req turn);
                (i, rnd) = draw_id ''chatcmpl-'' rnd;
                a = streamChat_loop i (created div second) model chunks (stream_init rnd);
                (p, c, n) = Acc_tokens a;
                st = (if Acc_sawDone a \<and> \<not> Acc_failed a then recordTokens model p c n st else st);
                st = (if Turn_mode turn = modeStateful \<and> \<not> Acc_failed a \<and> Acc_sawDone a \<and> \<not> gone then
                        persistTurn t (Turn_session turn) (APIKey_ID (Turn_key turn)) (chatReq_Messages (Turn_req turn))
                          (Acc_content a) (Acc_toolCalls a) st
                      else st)
            in (Stream (Acc_frames a @ [SSEDone]), st))"

section \<open>Text completions\<close>

text \<open>The JSON shapes of a prompt; anything else, such as an array of numbers, is \<open>PromptOther\<close>.\<close>

datatype PromptJSON = PromptString string | PromptArray "string list" | PromptNull | PromptOther

definition promptField_UnmarshalJSON :: "PromptJSON \<Rightarrow> string option" where
  "promptField_UnmarshalJSON data =
     (case data of
        PromptString s \<Rightarrow> Some s
      | PromptNull \<Rightarrow> Some []
      | PromptArray arr \<Rightarrow> Some (Join [CHR 0x0A] arr)
      | PromptOther \<Rightarrow> None)"

record completionRequest =
  compReq_Model :: string
  compReq_Prompt :: string
  compReq_Stream :: bool

record completionResponse =
  compResp_ID :: string
  compResp_Created :: int
  compResp_Model :: string
  compResp_Text :: string
  compResp_FinishReason :: string
  compResp_Usage :: usage

definition handleCompletions_start ::
  "bytes option \<Rightarrow> Request \<Rightarrow> string option \<Rightarrow> completionRequest option \<Rightarrow> APIKey option \<Rightarrow>
    'b Response + completionRequest \<times> APIKey \<times> Job" where
  "handleCompletions_start rnd r i body key =
     (case decodePost r body of
        Inl resp \<Rightarrow> Inl resp
      | Inr req \<Rightarrow>
          (case key of
             None \<Rightarrow> Inl (writeError 401 ''unauthorized'' ''missing api key'')
           | Some k \<Rightarrow> Inr (req, k, zero_Job\<lparr>Job_ID := jobIDFor rnd i, Job_Model := compReq_Model req,
               Job_Prompt := compReq_Prompt req\<rparr>)))"

definition handleCompletions_finish ::
  "bytes option \<Rightarrow> gotime \<Rightarrow> gotime \<Rightarrow> completionRequest \<Rightarrow> APIKey \<Rightarrow> ServerError + JobResult \<Rightarrow> Api \<Rightarrow>
    completionResponse Response \<times> Api" where
  "handleCompletions_finish rnd t created req key out st =
     (case out of
        Inl err \<Rightarrow> submit_error t key err st
      | Inr res \<Rightarrow>
          (writeJSON 200
             \<lparr>compResp_ID = newResponseID rnd ''cmpl-'', compResp_Created = created div second, compResp_Model = compReq_Model req,
              compResp_Text = JobResult_Output res, compResp_FinishReason = finishReasonOrStop (JobResult_FinishReason res),
              compResp_Usage = usageFrom (JobResult_PromptTokens res) (JobResult_CompletionTokens res) (JobResult_Tokens res)\<rparr>,
           recordTokens (compReq_Model req) (JobResult_PromptTokens res) (JobResult_CompletionTokens res) (JobResult_Tokens res) st))"

record completionChunkResponse =
  compChunk_ID :: string
  compChunk_Created :: int
  compChunk_Model :: string
  compChunk_Text :: string
  compChunk_FinishReason :: "string option"

text \<open>The frames, and the token counts of the terminal chunk when the stream ended with one and without an error.\<close>

primrec streamCompletion_loop ::
  "string \<Rightarrow> int \<Rightarrow> string \<Rightarrow> JobChunk list \<Rightarrow> (uint64 \<times> uint64 \<times> uint64) option \<Rightarrow>
    completionChunkResponse SSE list \<times> (uint64 \<times> uint64 \<times> uint64) option" where
  "streamCompletion_loop i created model [] counts = ([], counts)"
| "streamCompletion_loop i created model (chunk # chunks) counts =
     (case JobChunk_Err chunk of
        Some e \<Rightarrow> ([SSEError (streamErrorBody (Some e))], None)
      | None \<Rightarrow>
          let frame = \<lparr>compChunk_ID = i, compChunk_Created = created, compChunk_Model = model, compChunk_Text = JobChunk_Delta chunk,
                compChunk_FinishReason = (if JobChunk_Done chunk then Some (finishReasonOrStop (JobChunk_FinishReason chunk)) else None)\<rparr>;
              counts = (if JobChunk_Done chunk
                        then Some (JobChunk_PromptTokens chunk, JobChunk_CompletionTokens chunk, JobChunk_Tokens chunk) else counts);
              (frames, counts) = streamCompletion_loop i created model chunks counts
          in (SSEData frame # frames, counts))"

definition streamCompletion ::
  "bytes option \<Rightarrow> gotime \<Rightarrow> gotime \<Rightarrow> bool \<Rightarrow> completionRequest \<Rightarrow> APIKey \<Rightarrow> ServerError + JobChunk list \<Rightarrow> Api \<Rightarrow>
    completionChunkResponse Reply \<times> Api" where
  "streamCompletion rnd t created flush req key out st =
     (case out of
        Inl err \<Rightarrow> (let (resp, st) = submit_error t key err st in (Reply resp, st))
      | Inr chunks \<Rightarrow>
          if \<not> flush then (Reply (writeError 500 ''internal_error'' ''streaming unsupported''), st)
          else
            let model = compReq_Model req;
                (frames, counts) = streamCompletion_loop (newResponseID rnd ''cmpl-'') (created div second) model chunks None
            in (Stream (frames @ [SSEDone]),
                case counts of None \<Rightarrow> st | Some (p, c, n) \<Rightarrow> recordTokens model p c n st))"

section \<open>Sessions\<close>

record sessionResponse =
  sessResp_ID :: string
  sessResp_Model :: string
  sessResp_Created :: int

record sessionDetailResponse = sessionResponse +
  sessResp_LastActive :: int
  sessResp_Messages :: "apiMessage list"

definition sessionsEnabled :: "Api \<Rightarrow> 'b Response + Manager" where
  "sessionsEnabled st =
     (case Api_sessions st of
        None \<Rightarrow> Inl (writeError 501 ''not_implemented'' ''sessions are not enabled'')
      | Some m \<Rightarrow> Inr m)"

text \<open>The body is the model name, \<open>None\<close> when it does not decode.\<close>

definition handleCreateSession ::
  "bytes option \<Rightarrow> gotime \<Rightarrow> string option \<Rightarrow> APIKey option \<Rightarrow> Api \<Rightarrow> sessionResponse Response \<times> Api" where
  "handleCreateSession rnd now body key st =
     (case key of
        None \<Rightarrow> (writeError 401 ''unauthorized'' ''missing api key'', st)
      | Some k \<Rightarrow>
          (case sessionsEnabled st of
             Inl resp \<Rightarrow> (resp, st)
           | Inr m \<Rightarrow>
               (case body of
                  None \<Rightarrow> (writeError 400 ''invalid_request_error'' ''malformed request body'', st)
                | Some model \<Rightarrow>
                    (case Session_Create (APIKey_ID k) model rnd now m of
                       (Inl err, m) \<Rightarrow>
                         (if err = ErrSessionLimitExceeded
                          then writeError 429 ''session_limit_exceeded'' ''concurrent session limit reached''
                          else writeError 500 ''internal_error'' ''could not create session'',
                          st\<lparr>Api_sessions := Some m\<rparr>)
                     | (Inr s, m) \<Rightarrow>
                         (writeJSON 201 \<lparr>sessResp_ID = Session_ID s, sessResp_Model = Session_Model s,
                            sessResp_Created = Session_CreatedAt s div second\<rparr>,
                          st\<lparr>Api_sessions := Some m\<rparr>)))))"

definition handleGetSession ::
  "entropy \<Rightarrow> gotime \<Rightarrow> gotime \<Rightarrow> string \<Rightarrow> APIKey option \<Rightarrow> Api \<Rightarrow> sessionDetailResponse Response" where
  "handleGetSession rnd now1 now2 i key st =
     (case key of
        None \<Rightarrow> writeError 401 ''unauthorized'' ''missing api key''
      | Some k \<Rightarrow>
          (case sessionsEnabled st of
             Inl resp \<Rightarrow> resp
           | Inr m \<Rightarrow>
               (case Manager_Get i (APIKey_ID k) now1 m of
                  Inl err \<Rightarrow> writeSessionLookupError err
                | Inr s \<Rightarrow>
                    (case Session_History i (APIKey_ID k) now2 m of
                       Inl err \<Rightarrow> writeSessionLookupError err
                     | Inr hist \<Rightarrow>
                         writeJSON 200 \<lparr>sessResp_ID = Session_ID s, sessResp_Model = Session_Model s,
                           sessResp_Created = Session_CreatedAt s div second,
                           sessResp_LastActive = Session_LastActiveAt s div second,
                           sessResp_Messages = fst (fromDomainMessages hist rnd)\<rparr>))))"

text \<open>The third result is the worker and model the engine is asked to unload, if any.\<close>

definition unloadSessionModel :: "string \<Rightarrow> string \<Rightarrow> (string \<times> string) option" where
  "unloadSessionModel workerID model = (if workerID = [] \<or> model = [] then None else Some (workerID, model))"

definition handleDeleteSession ::
  "gotime \<Rightarrow> gotime \<Rightarrow> string \<Rightarrow> APIKey option \<Rightarrow> Api \<Rightarrow> unit Response \<times> Api \<times> (string \<times> string) option" where
  "handleDeleteSession now1 now2 i key st =
     (case key of
        None \<Rightarrow> (writeError 401 ''unauthorized'' ''missing api key'', st, None)
      | Some k \<Rightarrow>
          (case sessionsEnabled st of
             Inl resp \<Rightarrow> (resp, st, None)
           | Inr m \<Rightarrow>
               let (boundWorker, model) = (case Manager_Get i (APIKey_ID k) now1 m of
                     Inr s \<Rightarrow> (Session_BoundWorkerID s, Session_Model s) | Inl err \<Rightarrow> ([], []))
               in (case Session_Remove i (APIKey_ID k) now2 m of
                     (Some err, m) \<Rightarrow> (writeSessionLookupError err, st\<lparr>Api_sessions := Some m\<rparr>, None)
                   | (None, m) \<Rightarrow>
                       (\<lparr>Response_status = 204, Response_headers = [], Response_body = NoBody\<rparr>,
                        st\<lparr>Api_sessions := Some m\<rparr>, unloadSessionModel boundWorker model))))"

section \<open>Lemmas\<close>

lemma stream_frame_simps [simp]:
  "Acc_content (stream_frame i created model c a) = Acc_content a @ JobChunk_Delta c"
  "Acc_toolCalls (stream_frame i created model c a) = Acc_toolCalls a @ JobChunk_ToolCalls c"
  "Acc_failed (stream_frame i created model c a) = Acc_failed a"
  "Acc_sawDone (stream_frame i created model c a) = (Acc_sawDone a \<or> JobChunk_Done c)"
  "Acc_roleSent (stream_frame i created model c a)"
  "Acc_tokens (stream_frame i created model c a) =
    (if JobChunk_Done c then (JobChunk_PromptTokens c, JobChunk_CompletionTokens c, JobChunk_Tokens c) else Acc_tokens a)"
  by (simp_all add: stream_frame_def Let_def case_prod_beta)

lemma streamChat_loop_ok:
  "\<forall>c\<in>set cs. JobChunk_Err c = None \<Longrightarrow>
   streamChat_loop i created model cs a = fold (stream_frame i created model) cs a"
  by (induction cs arbitrary: a) simp_all

lemma fold_frame_acc:
  "Acc_content (fold (stream_frame i created model) cs a) = Acc_content a @ concat (map JobChunk_Delta cs)"
  "Acc_toolCalls (fold (stream_frame i created model) cs a) = Acc_toolCalls a @ concat (map JobChunk_ToolCalls cs)"
  "Acc_failed (fold (stream_frame i created model) cs a) = Acc_failed a"
  "Acc_sawDone (fold (stream_frame i created model) cs a) = (Acc_sawDone a \<or> (\<exists>c\<in>set cs. JobChunk_Done c))"
  by (induction cs arbitrary: a) simp_all

text \<open>The role is announced once, and only the terminal chunk carries a finish reason.\<close>

definition roles_of :: "bool \<Rightarrow> nat \<Rightarrow> string list" where
  "roles_of sent n = (if n = 0 then [] else (if sent then [] else ''assistant'') # replicate (n - 1) [])"

definition reasons_of :: "JobChunk list \<Rightarrow> string option list" where
  "reasons_of cs = map (\<lambda>c. if JobChunk_Done c then Some (finishReasonOrStop (JobChunk_FinishReason c)) else None) cs"

lemma fold_frame_frames:
  "\<exists>fs. Acc_frames (fold (stream_frame i created model) cs a) = Acc_frames a @ map SSEData fs \<and>
     map chatChunk_Content fs = map JobChunk_Delta cs \<and> map chatChunk_Role fs = roles_of (Acc_roleSent a) (length cs) \<and>
     map chatChunk_FinishReason fs = reasons_of cs"
proof (induction cs arbitrary: a)
  case Nil
  then show ?case by (simp add: roles_of_def reasons_of_def)
next
  case (Cons c cs)
  let ?a = "stream_frame i created model c a"
  obtain f where f: "Acc_frames ?a = Acc_frames a @ [SSEData f]" "chatChunk_Content f = JobChunk_Delta c"
    "chatChunk_Role f = (if Acc_roleSent a then [] else ''assistant'')" "[chatChunk_FinishReason f] = reasons_of [c]"
    by (cases "JobChunk_Done c") (simp_all add: stream_frame_def Let_def case_prod_beta reasons_of_def)
  from Cons.IH [of ?a] obtain fs where fs: "Acc_frames (fold (stream_frame i created model) cs ?a) = Acc_frames ?a @ map SSEData fs"
    "map chatChunk_Content fs = map JobChunk_Delta cs" "map chatChunk_Role fs = roles_of True (length cs)"
    "map chatChunk_FinishReason fs = reasons_of cs" by auto
  have "map chatChunk_Role fs = replicate (length cs) []"
    using fs(3) by (cases "length cs") (simp_all add: roles_of_def)
  then show ?case using f fs(1,2,4) by (intro exI [of _ "f # fs"]) (simp add: roles_of_def reasons_of_def)
qed

lemma loop_failed:
  "Acc_failed (streamChat_loop i created model cs a) = (Acc_failed a \<or> (\<exists>c\<in>set cs. JobChunk_Err c \<noteq> None))"
  by (induction cs arbitrary: a) (auto split: option.split)

lemma loop_done:
  "Acc_sawDone (streamChat_loop i created model cs a) \<Longrightarrow> Acc_sawDone a \<or> (\<exists>c\<in>set cs. JobChunk_Done c)"
  by (induction cs arbitrary: a) (force split: option.splits)+

lemma recordTokens_sessions [simp]: "Api_sessions (recordTokens model p c n st) = Api_sessions st"
  by (simp add: recordTokens_def)

lemma submit_error_keeps [simp]:
  "Api_sessions (snd (submit_error t k err st)) = Api_sessions st" "Api_metered (snd (submit_error t k err st)) = Api_metered st"
  by (simp_all add: submit_error_def case_prod_beta)

text \<open>Both executors stream exactly the tool calls of their result.\<close>

lemma concat_calls: "concat (map snd (filter (\<lambda>(d, calls). d \<noteq> [] \<or> calls \<noteq> []) out)) = concat (map snd out)"
  by (induction out) auto

lemma Execute_calls:
  "JobResult_Err (snd (Execute e env job)) = None \<Longrightarrow>
   concat (map JobChunk_ToolCalls (fst (Execute e env job))) = JobResult_ToolCalls (snd (Execute e env job))"
proof (cases e)
  case (EchoExecutor ms)
  then show ?thesis by (simp add: Echo_Execute_def Let_def zero_JobChunk_def zero_JobResult_def)
next
  case (OllamaExecutor cd)
  let ?m = "if Job_Messages job = [] then [zero_Message\<lparr>Message_Role := ''user'', Message_Content := Job_Prompt job\<rparr>] else Job_Messages job"
  obtain out res err where r: "ChatStream cd (fst env) (snd env) \<lparr>ChatRequest_Model = Job_Model job, ChatRequest_Messages = ?m,
      ChatRequest_Tools = Job_Tools job, ChatRequest_KeepAlive = keepAlive (Job_KeepAliveSeconds job)\<rparr> = (out, res, err)"
    by (metis prod_cases3)
  assume "JobResult_Err (snd (Execute e env job)) = None"
  then have "err = None" using r OllamaExecutor by (cases err) (simp_all add: Ollama_Execute_def Let_def)
  then show ?thesis
    using r OllamaExecutor ChatStream_account(1) [OF r] concat_calls [of out]
    by (simp add: Ollama_Execute_def Let_def o_def case_prod_beta)
qed

lemma job_chunks_ok:
  assumes "JobResult_Err (snd (Execute e env job)) = None" and "c \<in> set (job_chunks (job, Execute e env job))"
  shows "JobChunk_Err c = None"
proof -
  have "JobChunk_Err d = None" if "d \<in> set (fst (Execute e env job))" for d
    using that by (cases e) (auto simp: Echo_Execute_def Ollama_Execute_def Let_def zero_JobChunk_def split: prod.splits)
  then show ?thesis using assms by (auto simp: job_chunks_def terminal_chunk_def)
qed

text \<open>What an append of a turn leaves in the history.\<close>

lemma AppendTurns_history:
  assumes "ownedActive i owner now m = Inr s" and "\<not> WouldReject i ts (Manager_history m)" and "ts \<noteq> []"
  shows "History_Get i (Manager_history (snd (AppendTurns i owner ts now m))) =
    trim (Manager_history m) (History_Get i (Manager_history m) @ ts)"
  using assms
  by (simp add: AppendTurns_def AppendBatch_def WouldReject_def History_Get_def touch_session_def Session_Put_def
      gomap_get_update Let_def split: if_splits)

lemma wire_calls: "\<forall>c\<in>set cs. ToolCall_ID c \<noteq> [] \<and> ToolCall_Type c \<noteq> [] \<Longrightarrow>
   toDomainToolCalls (fst (fromDomainToolCalls cs rnd)) = cs"
  by (induction cs arbitrary: rnd) (simp_all add: toDomainToolCalls_def or_function_def Let_def case_prod_beta)

section \<open>Properties\<close>


text \<open>
  C19. Streaming a chat gives the client and the session what the plain call would, but for the tool calls.
  For the chunks of an executor's successful run the frames' contents add up to its output, the first
  frame announces the role and no other, the last carries the finish reason and no other, and the
  sentinel ends the stream; tokens metered and turn stored are those of the plain call with the same
  result, except that every tool call is stored twice: once from the deltas and once from the terminal
  chunk, which repeats them.
\<close>

theorem stream_equals_result:
  assumes "JobResult_Err (snd (Execute e env job)) = None"
  shows "\<exists>fs. fst (streamChat rnd t created True False turn (Inr (job_chunks (job, Execute e env job))) st) =
      Stream (map SSEData fs @ [SSEDone]) \<and>
    concat (map chatChunk_Content fs) = JobResult_Output (snd (Execute e env job)) \<and>
    map chatChunk_Role fs = ''assistant'' # replicate (length fs - 1) [] \<and>
    map chatChunk_FinishReason fs =
      replicate (length fs - 1) None @ [Some (finishReasonOrStop (JobResult_FinishReason (snd (Execute e env job))))] \<and>
    snd (streamChat rnd t created True False turn (Inr (job_chunks (job, Execute e env job))) st) =
      snd (handleChatCompletions_finish rnd t created turn (Inr ((snd (Execute e env job))\<lparr>JobResult_ToolCalls :=
        JobResult_ToolCalls (snd (Execute e env job)) @ JobResult_ToolCalls (snd (Execute e env job))\<rparr>)) st)"
proof -
  let ?x = "Execute e env job" let ?cs = "job_chunks (job, ?x)" let ?res = "snd ?x"
  obtain i rnd' where i: "draw_id ''chatcmpl-'' rnd = (i, rnd')" by fastforce
  let ?fold = "fold (stream_frame i (created div second) (chatReq_Model (Turn_req turn))) ?cs (stream_init rnd')"
  have cs: "?cs = fst ?x @ [terminal_chunk job ?res]" by (simp add: job_chunks_def)
  have loop: "streamChat_loop i (created div second) (chatReq_Model (Turn_req turn)) ?cs (stream_init rnd') = ?fold"
    using job_chunks_ok [OF assms] by (intro streamChat_loop_ok) blast
  have deltas: "\<forall>c\<in>set (fst ?x). \<not> JobChunk_Done c" using ex.exec_chunk by blast
  have out: "concat (map JobChunk_Delta ?cs) = JobResult_Output ?res"
    using ex.exec_output [of e env job] by (simp add: cs terminal_chunk_def zero_JobChunk_def)
  have calls: "concat (map JobChunk_ToolCalls ?cs) = JobResult_ToolCalls ?res @ JobResult_ToolCalls ?res"
    using Execute_calls [OF assms] by (simp add: cs terminal_chunk_def)
  have tokens: "Acc_tokens ?fold = (JobResult_PromptTokens ?res, JobResult_CompletionTokens ?res, JobResult_Tokens ?res)"
    by (simp add: cs terminal_chunk_def)
  have acc: "Acc_content ?fold = JobResult_Output ?res" "Acc_toolCalls ?fold = JobResult_ToolCalls ?res @ JobResult_ToolCalls ?res"
    "\<not> Acc_failed ?fold" "Acc_sawDone ?fold"
    unfolding fold_frame_acc out calls by (simp_all add: stream_init_def cs terminal_chunk_def)
  obtain fs where fs: "Acc_frames ?fold = map SSEData fs" "map chatChunk_Content fs = map JobChunk_Delta ?cs"
    "map chatChunk_Role fs = roles_of False (length ?cs)" "map chatChunk_FinishReason fs = reasons_of ?cs"
    using fold_frame_frames [of i "created div second" "chatReq_Model (Turn_req turn)" ?cs "stream_init rnd'"]
    by (auto simp: stream_init_def)
  have len: "length fs = Suc (length (fst ?x))" using arg_cong [OF fs(2), of length] by (simp add: cs)
  have "reasons_of (fst ?x) = replicate (length (fst ?x)) None"
    using deltas unfolding reasons_of_def by (intro nth_equalityI) simp_all
  then have reasons: "map chatChunk_FinishReason fs = replicate (length fs - 1) None @ [Some (finishReasonOrStop (JobResult_FinishReason ?res))]"
    using fs(4) len by (simp add: cs reasons_of_def terminal_chunk_def)
  have roles: "map chatChunk_Role fs = ''assistant'' # replicate (length fs - 1) []"
    using fs(3) len by (simp add: cs roles_of_def)
  show ?thesis
    using fs(1,2) out reasons roles acc tokens
    by (intro exI [of _ fs]) (simp add: streamChat_def handleChatCompletions_finish_def i loop Let_def case_prod_beta)
qed

text \<open>
  An abandoned or failed stream is not stored. Whatever chunks the engine delivers, the sessions change
  only for a stateful turn whose client is still there, when no chunk carried an error and a terminal one
  arrived; tokens are metered only in the last two cases.
\<close>

theorem stream_stores_only_complete:
  assumes "streamChat rnd t created flush gone turn (Inr chunks) st = (reply, st')"
  shows "(Api_sessions st' \<noteq> Api_sessions st \<longrightarrow> Turn_mode turn = modeStateful \<and> \<not> gone) \<and>
    (st' \<noteq> st \<longrightarrow> flush \<and> (\<forall>c\<in>set chunks. JobChunk_Err c = None) \<and> (\<exists>c\<in>set chunks. JobChunk_Done c))"
proof (cases flush)
  case True
  obtain i rnd' where i: "draw_id ''chatcmpl-'' rnd = (i, rnd')" by fastforce
  let ?a = "streamChat_loop i (created div second) (chatReq_Model (Turn_req turn)) chunks (stream_init rnd')"
  have "Acc_failed ?a = (\<exists>c\<in>set chunks. JobChunk_Err c \<noteq> None)" by (simp add: loop_failed stream_init_def)
  moreover have "Acc_sawDone ?a \<Longrightarrow> \<exists>c\<in>set chunks. JobChunk_Done c"
    using loop_done [of i "created div second" "chatReq_Model (Turn_req turn)" chunks "stream_init rnd'"]
    by (simp add: stream_init_def)
  ultimately show ?thesis
    using assms True by (auto simp: streamChat_def i Let_def case_prod_beta split: if_splits)
next
  case False
  then show ?thesis using assms by (simp add: streamChat_def)
qed

text \<open>
  A stored conversation survives being sent to a client and back, when its tool calls have ids and types.
\<close>

lemma messages_roundtrip:
  "\<forall>m\<in>set ms. \<forall>c\<in>set (Message_ToolCalls m). ToolCall_ID c \<noteq> [] \<and> ToolCall_Type c \<noteq> [] \<Longrightarrow>
   toDomainMessages (fst (fromDomainMessages ms rnd)) = ms"
  by (induction ms arbitrary: rnd) (simp_all add: toDomainMessages_def wire_calls Let_def case_prod_beta)

section \<open>Witnesses\<close>

definition wit_chat_request :: Request where
  "wit_chat_request = \<lparr>Request_Method = ''POST'', Request_Path = ''/v1/chat/completions'', Request_Header = (\<lambda>_. []),
     Request_Cookie = None\<rparr>"

definition wit_chat_body :: chatCompletionRequest where
  "wit_chat_body = \<lparr>chatReq_Model = ''m'', chatReq_Messages = [\<lparr>apiMessage_Role = ''user'', apiMessage_Content = ''hi'',
     apiMessage_Name = [], apiMessage_ToolCallID = [], apiMessage_ToolCalls = []\<rparr>], chatReq_Stream = False, chatReq_Tools = [],
     chatReq_SessionID = ''sess_01''\<rparr>"

definition wit_chat_key :: APIKey where
  "wit_chat_key = zero_APIKey\<lparr>APIKey_ID := ''k''\<rparr>"

definition wit_api :: Api where
  "wit_api = \<lparr>Api_sessions = Some wit_created, Api_limiter = \<lparr>Limiter_quota = None, Limiter_globalThrottled = 0,
     Limiter_keyThrottled = 0\<rparr>, Api_metered = []\<rparr>"

definition wit_chat_start :: "unit Response + ChatTurn" where
  "wit_chat_start = handleChatCompletions_start None 6 6 wit_chat_request (Some ''r1'') (Some wit_chat_body) (Some wit_chat_key) wit_api"

definition wit_chat_turn :: ChatTurn where
  "wit_chat_turn = projr wit_chat_start"

lemma wit_chat_turn_facts:
  "wit_chat_start = Inr wit_chat_turn" "Turn_mode wit_chat_turn = modeStateful" "Api_sessions wit_api = Some wit_created"
proof -
  have "\<not> isl wit_chat_start" by code_simp
  then show "wit_chat_start = Inr wit_chat_turn" by (cases wit_chat_start) (simp_all add: wit_chat_turn_def)
  show "Turn_mode wit_chat_turn = modeStateful" by code_simp
  show "Api_sessions wit_api = Some wit_created" by (simp add: wit_api_def)
qed


theorem stream_equals_result_witness:
  "\<exists>fs. fst (streamChat [] 7 8 True False wit_chat_turn (Inr (job_chunks (wit_agent_job ''a'', Echo_Execute (wit_agent_job ''a'')))) wit_api) =
      Stream (map SSEData fs @ [SSEDone]) \<and> concat (map chatChunk_Content fs) = ''echo: hi''"
proof -
  have "JobResult_Err (snd (Execute (EchoExecutor []) wit_env (wit_agent_job ''a''))) = None"
    "JobResult_Output (snd (Execute (EchoExecutor []) wit_env (wit_agent_job ''a''))) = ''echo: hi''"
    by (simp_all add: Echo_Execute_def wit_agent_job_def zero_JobResult_def zero_Job_def Let_def)
  with stream_equals_result [of "EchoExecutor []" wit_env "wit_agent_job ''a''" "[]" 7 8 wit_chat_turn wit_api]
  show ?thesis by auto
qed

theorem stream_stores_only_complete_witness:
  "snd (streamChat [] 7 8 True False wit_chat_turn (Inr [zero_JobChunk\<lparr>JobChunk_Delta := ''par''\<rparr>,
     zero_JobChunk\<lparr>JobChunk_Done := True, JobChunk_Err := Some \<lparr>JobError_Code = ''timeout'', JobError_Message = []\<rparr>\<rparr>]) wit_api) = wit_api"
  using stream_stores_only_complete [OF surjective_pairing, of "[]" 7 8 True False wit_chat_turn
      "[zero_JobChunk\<lparr>JobChunk_Delta := ''par''\<rparr>,
        zero_JobChunk\<lparr>JobChunk_Done := True, JobChunk_Err := Some \<lparr>JobError_Code = ''timeout'', JobError_Message = []\<rparr>\<rparr>]" wit_api]
  by auto

end
