(* ===== verification/Spec2Isabelle.thy ===== *)
theory Spec2Isabelle
  imports Job_Queue Scheduler Auth Authz Quota Usage_Series Session_Store Session_Manager Worker_Stream Registry Dispatch Gpu_Capacity End_To_End Http_Core Chat_Api
begin

text \<open>
  agent-gpu: verification development.

  agent-gpu is a control plane for GPU workers: clients send inference jobs over an HTTP API, workers
  hold one gRPC stream each to the server, and the server authenticates keys, authorizes models,
  enforces quotas, keeps chat sessions, picks a worker for each job, queues what does not fit, and
  relays results and token streams. A worker process runs the jobs on a local Ollama and reports its
  capacity in heartbeats. The theories follow the packages under \<^verbatim>\<open>src/internal\<close>; every
  operation of a modelled package is one definition with the name of the Go function (prefixed by its
  type where the name is taken), in the order of the source.

  \<^bold>\<open>How Go is represented.\<close> A struct is a record with fields \<open>Type_Field\<close>, a map an association list
  with unique keys (\<open>gomap\<close>, lookups give the zero value), a pointer an option or a number into a store,
  a slice that may be nil an option of a list, \<^verbatim>\<open>uint64\<close>, \<^verbatim>\<open>uint32\<close> and \<^verbatim>\<open>int64\<close> scores words of that
  width, \<^verbatim>\<open>time.Time\<close> and \<^verbatim>\<open>time.Duration\<close> integers of nanoseconds with the saturating subtraction of the
  library, an error a value of a datatype. Clocks, entropy and faults of the file system are arguments.
  A lock makes the operation that holds it one step; where code leaves a lock in between, the model
  has the parts as separate steps (\<open>accumulate_delta\<close>, \<open>touch_session\<close>, the monitor of the queue).
  A call that blocks is a start part and a finish part, and the branch a \<^verbatim>\<open>select\<close> takes is an argument.

  \<^bold>\<open>Theories.\<close>
  \<^item> \<^verbatim>\<open>Prelude\<close>: Go maps, time, integer division, shared lemmas and the collections \<open>gomap_simps\<close>, \<open>time_defs\<close>.
  \<^item> \<^verbatim>\<open>Strconv\<close>: the string functions of the Go library the components share (numbers, splitting, white space).
  \<^item> \<^verbatim>\<open>Agent_Types\<close> (\<^verbatim>\<open>types/types.go\<close>): the domain types and their conversions to wire messages and back.
  \<^item> \<^verbatim>\<open>Container_Heap\<close>, \<^verbatim>\<open>Job_Queue\<close> (\<^verbatim>\<open>queue/queue.go\<close>): the library heap over any order (locale
    \<open>heap_order\<close>, interpreted on the queue's order), the queue, and a monitor with mutex, condition
    variable and any number of callers. The queue refines a list in served order; service is first in,
    first out within a priority; no wakeup of an enqueue or close is lost, but that of a cancellation
    can be.
  \<^item> \<^verbatim>\<open>Key_Store\<close> (\<^verbatim>\<open>store\<close>): both stores behind one record of operations (locale for the store contract,
    interpreted on both). Writes survive a reopen or leave the file alone, and the stores agree.
  \<^item> \<^verbatim>\<open>Sha256\<close>, \<^verbatim>\<open>Auth\<close> (\<^verbatim>\<open>auth/auth.go\<close>): SHA-256 computed from its definition, tokens, and the service
    over any store. Only the holder of a secret that hashes to the stored value authenticates, revoked
    and expired keys never do.
  \<^item> \<^verbatim>\<open>Authz\<close> (\<^verbatim>\<open>authz/authz.go\<close>): the exact grant condition.
  \<^item> \<^verbatim>\<open>Civil_Time\<close>, \<^verbatim>\<open>Quota\<close>, \<^verbatim>\<open>Checkpoint\<close>, \<^verbatim>\<open>Usage_Series\<close> (\<^verbatim>\<open>quota\<close>, \<^verbatim>\<open>usage\<close>): the proleptic calendar,
    windows, counters and limits, and the daily series. Over any history no minute admits more than
    the limit.
  \<^item> \<^verbatim>\<open>Session_Store\<close>, \<^verbatim>\<open>Session_Manager\<close> (\<^verbatim>\<open>session\<close>): history with caps (locale \<open>turn_cost\<close>, interpreted on
    bytes and tokens), sessions of one owner invisible to another, the tally and the cap.
  \<^item> \<^verbatim>\<open>Scheduler\<close> (\<^verbatim>\<open>scheduler/scheduler.go\<close>): the choice is the best score in 64-bit arithmetic.
  \<^item> \<^verbatim>\<open>Worker_Stream\<close>, \<^verbatim>\<open>Registry\<close>, \<^verbatim>\<open>Dispatch\<close> (\<^verbatim>\<open>server/server.go\<close>): one worker with its pending jobs,
    stream buffers and observers; the registry, selection, eviction and drains; the request path.
    \<open>registry_step\<close> and \<open>server_step\<close> interleave everything the goroutines do; \<open>server_inv\<close> is kept by
    every step.
  \<^item> \<^verbatim>\<open>Gpu_Capacity\<close> (\<^verbatim>\<open>gpu\<close>): the probes in their order, the parsers of the vendor tools' output, and the
    aggregated capacity.
  \<^item> \<^verbatim>\<open>Ollama_Client\<close> (\<^verbatim>\<open>ollama/ollama.go\<close>): every call with its error codes; a chat or pull stream is a list
    of lines. A chat is read to its terminal object, and every failure carries a code of the contract.
  \<^item> \<^verbatim>\<open>Worker_Agent\<close> (\<^verbatim>\<open>worker/worker.go\<close>, \<^verbatim>\<open>worker/executor.go\<close>): the executors (locale \<open>execution\<close>, interpreted
    on the choice between them), the caches and probes, and one connection: receiver, job worker, pull and unload workers
    and send loop are the events of \<open>serve_run\<close>. Jobs are executed and reported in the order received.
  \<^item> \<^verbatim>\<open>End_To_End\<close>: the worker process composed with the server's reader; a dispatched job comes back as the
    executor's result.
  \<^item> \<^verbatim>\<open>Pagination\<close>, \<^verbatim>\<open>Log_Ring\<close>, \<^verbatim>\<open>Audit_Log\<close> (\<^verbatim>\<open>httpapi/pagination.go\<close>, \<^verbatim>\<open>httpapi/admin_logs.go\<close>,
    \<^verbatim>\<open>httpapi/admin_audit.go\<close>, \<^verbatim>\<open>cmd/agentgpu/ringlog.go\<close> and \<^verbatim>\<open>logging.go\<close>, \<^verbatim>\<open>audit\<close>): cursors over base64, the
    log ring and the audit store (locale \<open>rolling_window\<close>, interpreted on both), redaction, queries and
    the live tail.
  \<^item> \<^verbatim>\<open>Http_Core\<close> (\<^verbatim>\<open>httpapi/middleware.go\<close>, \<^verbatim>\<open>response.go\<close>, \<^verbatim>\<open>idempotency.go\<close>, \<^verbatim>\<open>ratelimit.go\<close>, \<^verbatim>\<open>inference.go\<close>):
    the error envelope, the gates in front of a handler, idempotent writes, and the answers to rejected
    submissions. A handler is a function of the authenticated key and the state behind it.
  \<^item> \<^verbatim>\<open>Chat_Api\<close> (\<^verbatim>\<open>httpapi/chat.go\<close>, \<^verbatim>\<open>completions.go\<close>, \<^verbatim>\<open>sessions.go\<close>): the inference and session endpoints.
    A stateful turn is dispatched with its history and stored with its reply; streaming agrees with the
    plain call but for the tool calls, which it stores twice.

  \<^bold>\<open>Bounds.\<close> Every recursion is structural or has a termination proof. The only fuel is the number of
  requests of a client that follows cursors, and one more than the number of items is shown to be enough.
  Sequence numbers are 64-bit words, and the order theorems of the queue assume that fewer than
  \<open>2 ^ 64\<close> jobs were enqueued; the score theorems cover every value of the 64-bit fields.

  \<^bold>\<open>Not modelled.\<close> HTTP routing, the model and admin handlers that translate JSON to calls of the modelled
  components, the web views, configuration files, Prometheus collectors, the load generator, the command line and the
  API clients: they move data between the network, the operating system and the modelled parts. The
  exhaustion forecast of \<^verbatim>\<open>usage/forecast.go\<close> and the delay of \<^verbatim>\<open>Backoff\<close> are arithmetic on floating-point
  numbers; the sequence of attempt numbers the delays are computed from is modelled. gRPC, HTTP
  transport, JSON codecs, Unicode case mapping, log sinks and timers appear only through the values and
  wakeups they deliver, as arguments.
\<close>

end
